(* ===== verification/Prelude.thy ===== *)
theory Prelude
  imports Main "HOL-Library.Word" "HOL-Library.State_Monad"
begin

text \<open>
  What every component shares: the machine types of the program, the errors a C++ or
  JavaScript operation can end with, the programs of the model (state transformers that end
  with a value or an error, built on the library's state monad), fixed-size memory regions,
  and the byte order of the network header.  The rules that execute a program step by step are
  collected in \<open>run_simps\<close>; \<open>byte_simps\<close> holds the byte-order facts.
\<close>

named_theorems run_simps "step-by-step execution of programs"
named_theorems byte_simps "byte order and byte counts"

section \<open>Machine types\<close>

type_synonym byte = "8 word"
type_synonym u16 = "16 word"
type_synonym i32 = "32 word"
type_synonym u32 = "32 word"
type_synonym u64 = "64 word"
type_synonym i64 = "64 word"

section \<open>How an operation can end\<close>

text \<open>
  \<open>Undefined\<close> is C++ undefined behaviour: it is not an exception, no \<open>catch\<close> of the source
  intercepts it, and it says which rule was broken.
\<close>

datatype ub =
    Null_deref
  | Out_of_bounds
  | Use_after_free
  | Bad_free
  | Buffer_overflow

datatype error =
    Runtime_error string
  | Invalid_argument string
  | Bad_alloc
  | JS_Error string
  | JS_TypeError string
  | Undefined ub

primrec is_ub :: "error \<Rightarrow> bool" where
  "is_ub (Runtime_error _) = False"
| "is_ub (Invalid_argument _) = False"
| "is_ub Bad_alloc = False"
| "is_ub (JS_Error _) = False"
| "is_ub (JS_TypeError _) = False"
| "is_ub (Undefined _) = True"

text \<open>The C++ exceptions that derive from \<open>std::exception\<close>, with what \<open>what()\<close> returns.\<close>

fun what :: "error \<Rightarrow> string option" where
  "what (Runtime_error s) = Some s"
| "what (Invalid_argument s) = Some s"
| "what Bad_alloc = Some ''std::bad_alloc''"
| "what _ = None"

lemma what_not_ub: "what e = Some s \<Longrightarrow> \<not> is_ub e"
  by (cases e) auto

section \<open>Programs: state, result, error\<close>

type_synonym ('w, 'a) prog = "('w, error + 'a) state"

definition give :: "'a \<Rightarrow> ('w, 'a) prog" where
  "give x = State_Monad.return (Inr x)"

definition throw :: "error \<Rightarrow> ('w, 'a) prog" where
  "throw e = State_Monad.return (Inl e)"

definition after :: "('w, 'a) prog \<Rightarrow> ('a \<Rightarrow> ('w, 'b) prog) \<Rightarrow> ('w, 'b) prog" where
  "after m f = do { r \<leftarrow> m; case r of Inl e \<Rightarrow> throw e | Inr x \<Rightarrow> f x }"

text \<open>Reading the state, changing it, and the two \<open>catch\<close> clauses of the source:
  \<open>catch(const std::exception &e)\<close> and \<open>catch(...)\<close>.\<close>

definition gets :: "('w \<Rightarrow> 'a) \<Rightarrow> ('w, 'a) prog" where
  "gets f = State (\<lambda>w. (Inr (f w), w))"

definition modify :: "('w \<Rightarrow> 'w) \<Rightarrow> ('w, unit) prog" where
  "modify f = State (\<lambda>w. (Inr (), f w))"

definition catch_std :: "('w, 'a) prog \<Rightarrow> (string \<Rightarrow> ('w, 'a) prog) \<Rightarrow> ('w, 'a) prog" where
  "catch_std m h =
     do { r \<leftarrow> m;
          case r of
            Inl e \<Rightarrow> (case what e of Some s \<Rightarrow> h s | None \<Rightarrow> throw e)
          | Inr x \<Rightarrow> give x }"

definition catch_all :: "('w, 'a) prog \<Rightarrow> (error \<Rightarrow> ('w, 'a) prog) \<Rightarrow> ('w, 'a) prog" where
  "catch_all m h =
     do { r \<leftarrow> m;
          case r of
            Inl e \<Rightarrow> (if is_ub e then throw e else h e)
          | Inr x \<Rightarrow> give x }"

lemma run_give [run_simps]: "run_state (give x) w = (Inr x, w)"
  by (simp add: give_def)

lemma run_throw [run_simps]: "run_state (throw e) w = (Inl e, w)"
  by (simp add: throw_def)

lemma run_gets [run_simps]: "run_state (gets f) w = (Inr (f w), w)"
  by (simp add: gets_def)

lemma run_modify [run_simps]: "run_state (modify f) w = (Inr (), f w)"
  by (simp add: modify_def)

lemma run_after [run_simps]:
  "run_state (after m f) w =
     (case run_state m w of (Inl e, w') \<Rightarrow> (Inl e, w') | (Inr x, w') \<Rightarrow> run_state (f x) w')"
  by (simp add: after_def run_throw split: prod.splits sum.splits)

lemma run_catch_std [run_simps]:
  "run_state (catch_std m h) w =
     (case run_state m w of
        (Inl e, w') \<Rightarrow> (case what e of Some s \<Rightarrow> run_state (h s) w' | None \<Rightarrow> (Inl e, w'))
      | (Inr x, w') \<Rightarrow> (Inr x, w'))"
  by (simp add: catch_std_def run_throw run_give split: prod.splits sum.splits option.splits)

lemma run_catch_all [run_simps]:
  "run_state (catch_all m h) w =
     (case run_state m w of
        (Inl e, w') \<Rightarrow> (if is_ub e then (Inl e, w') else run_state (h e) w')
      | (Inr x, w') \<Rightarrow> (Inr x, w'))"
  by (simp add: catch_all_def run_throw run_give split: prod.splits sum.splits)

lemma run_if [run_simps]:
  "run_state (if b then m else n) w = (if b then run_state m w else run_state n w)"
  by simp

text \<open>Composition is associative and \<open>give\<close> is its unit, so blocks can be regrouped.\<close>

lemma after_give [simp]: "after (give x) f = f x"
  by (rule state_ext) (simp add: run_simps)

lemma after_throw [simp]: "after (throw e) f = throw e"
  by (rule state_ext) (simp add: run_simps)

lemma after_assoc: "after (after m f) g = after m (\<lambda>x. after (f x) g)"
  by (rule state_ext) (simp add: run_simps split: prod.splits sum.splits)

section \<open>What every run of a program keeps\<close>

text \<open>
  \<open>keeps R m\<close>: every run of \<open>m\<close>, however it ends, relates the state before to the state
  after by \<open>R\<close>.  With a transitive \<open>R\<close> this composes, which carries the frame conditions and
  invariants of the components.
\<close>

definition keeps :: "('w \<Rightarrow> 'w \<Rightarrow> bool) \<Rightarrow> ('w, 'a) prog \<Rightarrow> bool" where
  "keeps R m \<longleftrightarrow> (\<forall>w. R w (snd (run_state m w)))"

named_theorems keeps_rules "composition rules of keeps"

lemma keepsD: "keeps R m \<Longrightarrow> run_state m w = (r, w') \<Longrightarrow> R w w'"
  by (auto simp: keeps_def dest: spec [of _ w])

lemma keeps_snd: "keeps R m \<Longrightarrow> R w (snd (run_state m w))"
  by (simp add: keeps_def)

lemma keepsI: "(\<And>w r w'. run_state m w = (r, w') \<Longrightarrow> R w w') \<Longrightarrow> keeps R m"
  by (simp add: keeps_def) (metis prod.collapse)

lemma keeps_give [keeps_rules]: "reflp R \<Longrightarrow> keeps R (give x)"
  by (simp add: keeps_def run_simps reflpD)

lemma keeps_throw [keeps_rules]: "reflp R \<Longrightarrow> keeps R (throw x)"
  by (simp add: keeps_def run_simps reflpD)

lemma keeps_gets [keeps_rules]: "reflp R \<Longrightarrow> keeps R (gets f)"
  by (simp add: keeps_def run_simps reflpD)

lemma keeps_after [keeps_rules]:
  "transp R \<Longrightarrow> keeps R m \<Longrightarrow> (\<And>x. keeps R (f x)) \<Longrightarrow> keeps R (after m f)"
  by (rule keepsI)
     (auto simp: run_simps split: prod.splits sum.splits dest!: keepsD dest: transpD)

lemma keeps_catch_std [keeps_rules]:
  "transp R \<Longrightarrow> keeps R m \<Longrightarrow> (\<And>s. keeps R (h s)) \<Longrightarrow> keeps R (catch_std m h)"
  by (rule keepsI)
     (auto simp: run_simps split: prod.splits sum.splits option.splits dest!: keepsD dest: transpD)

lemma keeps_catch_all [keeps_rules]:
  "transp R \<Longrightarrow> keeps R m \<Longrightarrow> (\<And>e. keeps R (h e)) \<Longrightarrow> keeps R (catch_all m h)"
  by (rule keepsI)
     (auto simp: run_simps split: prod.splits sum.splits if_splits dest!: keepsD dest: transpD)

lemma keeps_if [keeps_rules]: "keeps R m \<Longrightarrow> keeps R n \<Longrightarrow> keeps R (if b then m else n)"
  by simp

text \<open>
  \<open>upholds I m\<close>: unless it ends in undefined behaviour, a run of \<open>m\<close> from a state with the
  invariant \<open>I\<close> ends in one.  After undefined behaviour nothing is claimed.
\<close>

definition upholds :: "('w \<Rightarrow> bool) \<Rightarrow> ('w, 'b) prog \<Rightarrow> bool" where
  "upholds I m \<longleftrightarrow> (\<forall>w r w'. I w \<longrightarrow> run_state m w = (r, w') \<longrightarrow>
     (\<forall>u. r \<noteq> Inl (Undefined u)) \<longrightarrow> I w')"

named_theorems upholds_rules "composition rules of upholds"

lemma upholdsD: "upholds I m \<Longrightarrow> run_state m w = (r, w') \<Longrightarrow> I w \<Longrightarrow> (\<And>u. r \<noteq> Inl (Undefined u)) \<Longrightarrow> I w'"
  unfolding upholds_def by blast

lemma upholds_give [upholds_rules]: "upholds I (give x)"
  by (simp add: upholds_def run_simps)

lemma upholds_throw [upholds_rules]: "upholds I (throw e)"
  by (simp add: upholds_def run_simps)

lemma upholdsI:
  "(\<And>w r w'. I w \<Longrightarrow> run_state m w = (r, w') \<Longrightarrow> (\<And>u. r \<noteq> Inl (Undefined u)) \<Longrightarrow> I w') \<Longrightarrow> upholds I m"
  unfolding upholds_def by blast

lemma upholds_after [upholds_rules]:
  assumes m: "upholds I m" and f: "\<And>x. upholds I (f x)"
  shows "upholds I (after m f)"
proof (rule upholdsI)
  fix w r w'
  assume *: "I w" "run_state (after m f) w = (r, w')" "\<And>u. r \<noteq> Inl (Undefined u)"
  obtain q v where q: "run_state m w = (q, v)" by fastforce
  show "I w'"
  proof (cases q)
    case (Inl e)
    then have "r = Inl e \<and> w' = v" using *(2) q by (auto simp: run_after)
    then show ?thesis using upholdsD [OF m q *(1)] *(3) Inl by blast
  next
    case (Inr x)
    then have "I v" using upholdsD [OF m q *(1)] by simp
    moreover have "run_state (f x) v = (r, w')" using *(2) q Inr by (simp add: run_after)
    ultimately show ?thesis using upholdsD [OF f] *(3) by blast
  qed
qed

lemma upholds_catch_std [upholds_rules]:
  assumes m: "upholds I m" and h: "\<And>s. upholds I (h s)"
  shows "upholds I (catch_std m h)"
proof (rule upholdsI)
  fix w r w'
  assume *: "I w" "run_state (catch_std m h) w = (r, w')" "\<And>u. r \<noteq> Inl (Undefined u)"
  obtain q v where q: "run_state m w = (q, v)" by fastforce
  show "I w'"
  proof (cases "\<exists>e s. q = Inl e \<and> what e = Some s")
    case True
    then obtain e s where e: "q = Inl e" "what e = Some s" by blast
    moreover have "e \<noteq> Undefined u" for u using e(2) by auto
    ultimately have "I v" using upholdsD [OF m q *(1)] by blast
    moreover have "run_state (h s) v = (r, w')" using *(2) q e by (simp add: run_catch_std)
    ultimately show ?thesis using upholdsD [OF h] *(3) by blast
  next
    case False
    then have "r = q \<and> w' = v" using *(2) q by (auto simp: run_catch_std split: sum.splits option.splits)
    with upholdsD [OF m q *(1)] *(3) show ?thesis by blast
  qed
qed

lemma upholds_if [upholds_rules]:
  "(b \<Longrightarrow> upholds I m) \<Longrightarrow> (\<not> b \<Longrightarrow> upholds I n) \<Longrightarrow> upholds I (if b then m else n)"
  by simp

lemma upholds_case_prod [upholds_rules]: "(\<And>a b. upholds I (f a b)) \<Longrightarrow> upholds I (case x of (a, b) \<Rightarrow> f a b)"
  by (cases x) simp

lemma upholds_case_option [upholds_rules]:
  "upholds I m \<Longrightarrow> (\<And>x. upholds I (f x)) \<Longrightarrow> upholds I (case y of None \<Rightarrow> m | Some x \<Rightarrow> f x)"
  by (cases y) simp_all

lemma keeps_upholds: "keeps (\<lambda>w w'. I w \<longrightarrow> I w') m \<Longrightarrow> upholds I m"
  unfolding keeps_def upholds_def by (metis snd_conv)

section \<open>The errors a program can end with\<close>

text \<open>\<open>raises Q m\<close>: an error that a run of \<open>m\<close> ends with is one of \<open>Q\<close>, from whatever state it starts.\<close>

definition raises :: "(error \<Rightarrow> bool) \<Rightarrow> ('w, 'a) prog \<Rightarrow> bool" where
  "raises Q m \<longleftrightarrow> (\<forall>w e w'. run_state m w = (Inl e, w') \<longrightarrow> Q e)"

named_theorems raises_rules "composition rules of raises"

lemma raisesD: "raises Q m \<Longrightarrow> run_state m w = (Inl e, w') \<Longrightarrow> Q e"
  unfolding raises_def by blast

lemma raisesI: "(\<And>w e w'. run_state m w = (Inl e, w') \<Longrightarrow> Q e) \<Longrightarrow> raises Q m"
  unfolding raises_def by blast

lemma raises_give [raises_rules]: "raises Q (give x)"
  by (simp add: raises_def run_simps)

lemma raises_throw [raises_rules]: "Q e \<Longrightarrow> raises Q (throw e)"
  by (simp add: raises_def run_simps)

lemma raises_gets [raises_rules]: "raises Q (gets f)"
  by (simp add: raises_def run_simps)

lemma raises_after [raises_rules]: "raises Q m \<Longrightarrow> (\<And>x. raises Q (f x)) \<Longrightarrow> raises Q (after m f)"
  by (rule raisesI) (auto simp: run_after split: prod.splits sum.splits dest: raisesD)

text \<open>What is not an exception of C++ passes the handler; what is becomes an error of the handler.\<close>

lemma raises_catch_std:
  "raises (\<lambda>e. what e = None \<longrightarrow> Q e) m \<Longrightarrow> (\<And>s. raises Q (h s)) \<Longrightarrow> raises Q (catch_std m h)"
  by (rule raisesI) (auto simp: run_catch_std split: prod.splits sum.splits option.splits dest: raisesD)

lemma raises_if [raises_rules]: "raises Q m \<Longrightarrow> raises Q n \<Longrightarrow> raises Q (if b then m else n)"
  by simp

lemma raises_case_prod [raises_rules]: "(\<And>a b. raises Q (f a b)) \<Longrightarrow> raises Q (case x of (a, b) \<Rightarrow> f a b)"
  by (cases x) simp

lemma raises_case_option [raises_rules]:
  "raises Q m \<Longrightarrow> (\<And>x. raises Q (f x)) \<Longrightarrow> raises Q (case y of None \<Rightarrow> m | Some x \<Rightarrow> f x)"
  by (cases y) simp_all

lemma raises_top: "raises (\<lambda>e. True) m"
  by (simp add: raises_def)

lemma raises_State: "(\<And>w e w'. f w = (Inl e, w') \<Longrightarrow> Q e) \<Longrightarrow> raises Q (State f)"
  by (simp add: raises_def)

section \<open>Fixed-size memory regions\<close>

text \<open>
  \<open>overwrite mem bs\<close> stores \<open>bs\<close> at the start of a region: the region keeps its size, what
  does not fit is not stored, what is not reached keeps its old value.
\<close>

definition overwrite :: "'a list \<Rightarrow> 'a list \<Rightarrow> 'a list" where
  "overwrite mem bs = take (length mem) bs @ drop (length bs) mem"

lemma length_overwrite [simp]: "length (overwrite mem bs) = length mem"
  by (simp add: overwrite_def)

lemma overwrite_exact: "length bs = length mem \<Longrightarrow> overwrite mem bs = bs"
  by (simp add: overwrite_def)

lemma take_overwrite: "n \<le> length bs \<Longrightarrow> n \<le> length mem \<Longrightarrow> take n (overwrite mem bs) = take n bs"
  by (simp add: overwrite_def min_def)

definition patch_at :: "'a list \<Rightarrow> nat \<Rightarrow> 'a list \<Rightarrow> 'a list" where
  "patch_at mem off bs = take off mem @ bs @ drop (off + length bs) mem"

lemma length_patch_at [simp]:
  "off + length bs \<le> length mem \<Longrightarrow> length (patch_at mem off bs) = length mem"
  by (simp add: patch_at_def)

lemma patch_at_append:
  "length xs = off \<Longrightarrow> length ys = length bs \<Longrightarrow> patch_at (xs @ ys @ zs) off bs = xs @ bs @ zs"
  by (simp add: patch_at_def)

section \<open>Byte order\<close>

text \<open>
  \<open>htons\<close> on a little-endian host swaps the two bytes; a 16-bit field is stored low byte
  first, a 32-bit one is read low byte first.
\<close>

unbundle bit_operations_syntax

definition htons :: "u16 \<Rightarrow> u16" where
  "htons x = push_bit 8 x OR drop_bit 8 x"

definition store16 :: "u16 \<Rightarrow> byte list" where
  "store16 x = [ucast x, ucast (drop_bit 8 x)]"

fun load_le :: "byte list \<Rightarrow> nat" where
  "load_le [] = 0"
| "load_le (b # bs) = unat b + 256 * load_le bs"

definition load32 :: "byte list \<Rightarrow> u32" where
  "load32 bs = of_nat (load_le (take 4 bs))"

definition be16 :: "byte \<Rightarrow> byte \<Rightarrow> u16" where
  "be16 hi lo = word_cat hi lo"

lemma length_store16 [simp]: "length (store16 x) = 2"
  by (simp add: store16_def)

lemma htons_low: "ucast (htons x) = (ucast (drop_bit 8 x) :: byte)"
  by (rule bit_word_eqI) (auto simp: htons_def bit_simps add.commute)

lemma htons_high: "ucast (drop_bit 8 (htons x)) = (ucast x :: byte)"
  by (rule bit_word_eqI) (auto simp: htons_def bit_simps dest: bit_imp_le_length)

text \<open>On the wire the high byte comes first, whatever the host does in between.\<close>

lemma store16_htons [byte_simps]: "store16 (htons x) = [ucast (drop_bit 8 x), ucast x]"
  by (simp add: store16_def htons_low htons_high)

lemma be16_split [byte_simps]: "be16 (ucast (drop_bit 8 x)) (ucast x) = x"
  unfolding be16_def by (rule bit_word_eqI) (auto simp: bit_simps)

lemma load_le_bound: "load_le bs < 256 ^ length bs"
proof (induction bs)
  case (Cons b bs)
  have "unat b < 256" using unsigned_less [of b] by simp
  with Cons show ?case by simp
qed simp

section \<open>Widening and narrowing of 32-bit integers\<close>

lemma shift_mod: 
  assumes "k < 2 ^ 32" "0 \<le> k"
  shows "(k + 2 ^ 31) mod 2 ^ 32 = (if k < 2 ^ 31 then k + 2 ^ 31 else k - 2 ^ 31 :: int)"
proof (cases "k < 2 ^ 31")
  case True with assms show ?thesis by (simp add: mod_pos_pos_trivial)
next
  case False
  have "(k + 2 ^ 31) mod 2 ^ 32 = ((k - 2 ^ 31) + 2 ^ 32) mod 2 ^ 32" by (simp add: algebra_simps)
  also have "\<dots> = (k - 2 ^ 31) mod 2 ^ 32" by (rule mod_add_self2)
  also have "\<dots> = k - 2 ^ 31" using assms False by (simp add: mod_pos_pos_trivial)
  finally show ?thesis using False by simp
qed

lemma sint32_unat: "sint (x :: 32 word) = (if unat x < 2 ^ 31 then int (unat x) else int (unat x) - 2 ^ 32)"
proof -
  have b: "uint x < 2 ^ 32" "0 \<le> uint x" using unsigned_less [of x] by simp_all
  have "sint x = (uint x + 2 ^ 31) mod 2 ^ 32 - 2 ^ 31"
    by (simp add: sint_uint signed_take_bit_eq_take_bit_shift take_bit_eq_mod)
  with shift_mod [OF b] have "sint x = (if uint x < 2 ^ 31 then uint x else uint x - 2 ^ 32)" by simp
  moreover have "int (unat x) = uint x" by simp
  moreover have "unat x < 2 ^ 31 \<longleftrightarrow> int (unat x) < int (2 ^ 31)" by (rule of_nat_less_iff [symmetric])
  ultimately show ?thesis by simp
qed

text \<open>A non-negative \<open>int\<close> keeps its value when it is widened to \<open>size_t\<close>, and back.\<close>

lemma unat_scast_nonneg:
  assumes "unat (x :: 32 word) < 2 ^ 31"
  shows "unat (scast x :: 64 word) = unat x"
proof -
  have "(scast x :: 64 word) = word_of_int (int (unat x))"
    using assms by (simp only: scast_eq sint32_unat if_True)
  then have "(scast x :: 64 word) = of_nat (unat x)" by simp
  then show ?thesis using assms by (simp add: unsigned_ucast_eq take_bit_nat_eq_self)
qed
lemma unat_ucast_low: "unat (y :: 64 word) < 2 ^ 31 \<Longrightarrow> unat (ucast y :: 32 word) = unat y"
  by (simp add: unsigned_ucast_eq take_bit_nat_eq_self)
lemma scast_ucast_low: "unat (y :: 64 word) < 2 ^ 31 \<Longrightarrow> (scast (ucast y :: 32 word) :: 64 word) = y"
  by (metis unat_ucast_low unat_scast_nonneg word_unat_eq_iff)

lemma sint32_nonneg: "0 \<le> sint (x :: 32 word) \<longleftrightarrow> unat x < 2 ^ 31"
proof -
  have "unat x < 2 ^ 32" using unsigned_less [of x] by simp
  then have "int (unat x) < int (2 ^ 32)" by (rule of_nat_less_iff [THEN iffD2])
  then show ?thesis by (auto simp add: sint32_unat)
qed

lemma word_of_unat: "(of_nat (unat x) :: 'a::len word) = (x :: 'a word)"
  by simp

lemma scast_nonneg_of_nat:
  "unat (len :: i32) < 2 ^ 31 \<Longrightarrow> (scast len :: u64) = of_nat (unat len)"
  using unat_scast_nonneg [of len] by (metis word_of_unat)

lemma ucast_minus_one: "(ucast (-1 :: u64) :: i32) = -1"
  by (rule bit_word_eqI) (simp add: bit_simps)

lemma ucast_minus: "(ucast (x - y :: u64) :: i32) = ucast x - ucast y"
proof -
  have t: "take_bit 32 (take_bit 64 a) = take_bit 32 a" for a :: int by simp
  have "take_bit 32 (a - b) = take_bit 32 (take_bit 64 a - take_bit 64 b)" for a b :: int
    using take_bit_diff [of 32 a b] take_bit_diff [of 32 "take_bit 64 a" "take_bit 64 b"]
    unfolding t by simp
  then show ?thesis by transfer simp
qed

lemma small_not_minus_one: "n < 2 ^ 31 \<Longrightarrow> (of_nat n :: i64) \<noteq> -1"
proof
  assume n: "n < 2 ^ 31" "(of_nat n :: i64) = -1"
  then have "unat (of_nat n :: i64) = unat (-1 :: i64)" by simp
  with n(1) show False
    by (simp add: unsigned_of_nat take_bit_nat_eq_self unsigned_minus_1_eq_mask mask_eq_exp_minus_1)
qed

lemma sint_length_minus_14:
  assumes "n < 2 ^ 31"
  shows "sint (of_nat n - 14 :: i32) = int n - 14"
proof -
  have "sint (word_of_int (int n - 14) :: i32) = signed_take_bit 31 (int n - 14)"
    by (subst signed_of_int) simp
  moreover have "(word_of_int (int n - 14) :: i32) = of_nat n - 14" by simp
  ultimately have "sint (of_nat n - 14 :: i32) = signed_take_bit 31 (int n - 14)" by simp
  also have "\<dots> = int n - 14" using assms by (intro signed_take_bit_int_eq_self) auto
  finally show ?thesis .
qed

section \<open>Repeating an operation\<close>

fun each :: "('b \<Rightarrow> ('w, unit) prog) \<Rightarrow> 'b list \<Rightarrow> ('w, unit) prog" where
  "each f [] = give ()"
| "each f (x # xs) = after (f x) (\<lambda>_. each f xs)"

lemma keeps_each [keeps_rules]:
  "reflp R \<Longrightarrow> transp R \<Longrightarrow> (\<And>x. keeps R (f x)) \<Longrightarrow> keeps R (each f xs)"
  by (induction xs) (simp_all add: keeps_rules)

lemma run_pair: "fst (run_state m w) = r \<Longrightarrow> run_state m w = (r, snd (run_state m w))"
  by (metis prod.collapse)

end
