(* ===== verification/Env.thy ===== *)
theory Env
  imports Prelude
begin

text \<open>
  The world around the program: memory, the structures the program passes to the kernel, the
  record of the calls it makes, and those calls.  The kernel, the allocator, libuv and Node are
  not part of the repository; they are the parameter \<open>env\<close>, whose fields may answer anything,
  depending on all calls made so far.  Every call appends its arguments and its answer to
  \<open>trace\<close>, so that a theorem can say what the program asked of its environment and in which
  order.
\<close>

section \<open>Pointers and JavaScript values\<close>

text \<open>A pointer is null or an offset into an allocated block.\<close>

datatype ptr = NULL | Ptr nat nat

fun ptr_add :: "ptr \<Rightarrow> nat \<Rightarrow> ptr" where
  "ptr_add NULL n = NULL"
| "ptr_add (Ptr b i) n = Ptr b (i + n)"

text \<open>
  JavaScript values as far as the program inspects or builds them.  A finite number is
  \<open>m * 2 ^ e\<close>, which covers every IEEE double.  A Buffer is a data pointer and a length; a
  function is known by its identity; an object by its own data properties; \<open>JWrapped\<close> is an
  object made by the constructor \<open>Wrapper\<close>, with the address of the C++ object in its internal
  field; \<open>JInstance\<close> is an object made by the constructor \<open>Socket\<close> of \<open>socket.js\<close>, known by its
  identity; \<open>JError\<close> is the object of a thrown error.
\<close>

datatype js_number = JNaN | JInfinity bool | JFinite int int

datatype js_value =
    JUndefined
  | JNull
  | JBool bool
  | JNumber js_number
  | JString string
  | JBuffer ptr nat
  | JArray "js_value list"
  | JFunction nat
  | JObject "(string \<times> js_value) list"
  | JWrapped nat
  | JInstance nat
  | JError error

abbreviation js_int :: "int \<Rightarrow> js_value" where
  "js_int i \<equiv> JNumber (JFinite i 0)"

section \<open>Structures of the socket interface\<close>

record sockaddr_ll =
  sll_family :: u16
  sll_protocol :: u16
  sll_ifindex :: i32
  sll_hatype :: u16
  sll_pkttype :: byte
  sll_halen :: byte
  sll_addr :: "byte list"

record packet_mreq =
  mr_ifindex :: i32
  mr_type :: u16
  mr_alen :: u16
  mr_address :: "byte list"

text \<open>\<open>struct ifreq\<close>: the name as a C string and the bytes of the union behind it.\<close>

record ifreq =
  ifr_name :: string
  ifr_ifru :: "byte list"

text \<open>What \<open>recvmsg\<close> is told: the sizes of the name and of the two segments, the flags and the
  length of the control buffer.\<close>

record msghdr =
  msg_namelen :: u32
  msg_iov_lens :: "u64 list"
  msg_flags :: i32
  msg_controllen :: u64

definition zero_sockaddr_ll :: sockaddr_ll where
  "zero_sockaddr_ll = \<lparr>sll_family = 0, sll_protocol = 0, sll_ifindex = 0, sll_hatype = 0,
     sll_pkttype = 0, sll_halen = 0, sll_addr = replicate 8 0\<rparr>"

definition zero_packet_mreq :: packet_mreq where
  "zero_packet_mreq = \<lparr>mr_ifindex = 0, mr_type = 0, mr_alen = 0, mr_address = replicate 8 0\<rparr>"

section \<open>Constants of the platform headers (Linux, little endian, LP64)\<close>

definition AF_PACKET :: i32 where "AF_PACKET = 17"
definition SOCK_RAW :: i32 where "SOCK_RAW = 3"
definition ETH_P_ALL :: u16 where "ETH_P_ALL = 3"
definition ETH_P_802_3 :: u16 where "ETH_P_802_3 = 1"
definition F_GETFL :: i32 where "F_GETFL = 3"
definition F_SETFL :: i32 where "F_SETFL = 4"
definition O_NONBLOCK :: i32 where "O_NONBLOCK = 2048"
definition SIOCGIFINDEX :: u64 where "SIOCGIFINDEX = 0x8933"
definition SIOCGIFHWADDR :: u64 where "SIOCGIFHWADDR = 0x8927"
definition SOL_PACKET :: i32 where "SOL_PACKET = 263"
definition IFNAMSIZ :: nat where "IFNAMSIZ = 16"
definition ETHER_ADDR_LEN :: nat where "ETHER_ADDR_LEN = 6"
definition sizeof_ether_header :: nat where "sizeof_ether_header = 14"
definition sizeof_sockaddr_ll :: u32 where "sizeof_sockaddr_ll = 20"
definition sizeof_packet_mreq :: u32 where "sizeof_packet_mreq = 16"
definition sizeof_ifru :: nat where "sizeof_ifru = 24"
definition UV_READABLE :: i32 where "UV_READABLE = 1"
definition UV_WRITABLE :: i32 where "UV_WRITABLE = 2"

lemmas header_consts = AF_PACKET_def SOCK_RAW_def ETH_P_ALL_def ETH_P_802_3_def F_GETFL_def
  F_SETFL_def O_NONBLOCK_def SIOCGIFINDEX_def SIOCGIFHWADDR_def SOL_PACKET_def IFNAMSIZ_def
  ETHER_ADDR_LEN_def sizeof_ether_header_def sizeof_sockaddr_ll_def sizeof_packet_mreq_def
  sizeof_ifru_def UV_READABLE_def UV_WRITABLE_def

section \<open>Calls to the environment\<close>

datatype event =
    Ev_socket i32 i32 i32 i32
  | Ev_close i32 i32
  | Ev_fcntl i32 i32 i32 i32
  | Ev_ioctl i32 u64 ifreq i32 ifreq
  | Ev_bind i32 sockaddr_ll u32 i32
  | Ev_sendto i32 "byte list" u64 i32 sockaddr_ll u32 i64
  | Ev_recvmsg i32 msghdr i32 i64
  | Ev_setsockopt i32 i32 i32 packet_mreq u32 i32
  | Ev_alloc u64 ptr
  | Ev_realloc ptr u64 ptr
  | Ev_free ptr
  | Uv_poll_init nat i32
  | Uv_poll_start nat i32
  | Uv_poll_stop nat
  | Uv_close nat
  | Ev_new_buffer ptr u32 bool
  | Ev_js nat "js_value list"

type_synonym history = "event list"

record env =
  os_socket :: "history \<Rightarrow> i32 \<Rightarrow> i32 \<Rightarrow> i32 \<Rightarrow> i32"
  os_close :: "history \<Rightarrow> i32 \<Rightarrow> i32"
  os_fcntl :: "history \<Rightarrow> i32 \<Rightarrow> i32 \<Rightarrow> i32 \<Rightarrow> i32"
  os_ioctl :: "history \<Rightarrow> i32 \<Rightarrow> u64 \<Rightarrow> ifreq \<Rightarrow> i32 \<times> byte list"
  os_bind :: "history \<Rightarrow> i32 \<Rightarrow> sockaddr_ll \<Rightarrow> u32 \<Rightarrow> i32"
  os_sendto :: "history \<Rightarrow> i32 \<Rightarrow> byte list \<Rightarrow> u64 \<Rightarrow> i32 \<Rightarrow> sockaddr_ll \<Rightarrow> u32 \<Rightarrow> i64"
  os_recvmsg :: "history \<Rightarrow> i32 \<Rightarrow> msghdr \<Rightarrow> i32 \<Rightarrow> i64 \<times> byte list \<times> byte list"
  os_setsockopt :: "history \<Rightarrow> i32 \<Rightarrow> i32 \<Rightarrow> i32 \<Rightarrow> packet_mreq \<Rightarrow> u32 \<Rightarrow> i32"
  os_errno :: "history \<Rightarrow> i32"
  os_strerror :: "i32 \<Rightarrow> string"
  os_alloc :: "history \<Rightarrow> u64 \<Rightarrow> bool"
  indet_bytes :: "history \<Rightarrow> nat \<Rightarrow> byte list"
  indet_sockaddr :: "history \<Rightarrow> sockaddr_ll"
  indet_controllen :: "history \<Rightarrow> u64"
  nan_new_buffer :: "history \<Rightarrow> ptr \<Rightarrow> u32 \<Rightarrow> bool"
  uv_strerror :: "i32 \<Rightarrow> string"

text \<open>
  \<open>os_ioctl\<close> answers with the bytes stored in the union of \<open>ifreq\<close>, \<open>os_recvmsg\<close> with the bytes
  of the frame and the link-layer address of its sender; \<open>indet_bytes\<close>, \<open>indet_sockaddr\<close> and
  \<open>indet_controllen\<close> are the contents of memory the program never initialises.
\<close>

record world =
  trace :: history
  heap :: "nat \<rightharpoonup> byte list"
  next_blk :: nat

definition log :: "event \<Rightarrow> ('a world_scheme, unit) prog" where
  "log ev = modify (\<lambda>w. w\<lparr>trace := trace w @ [ev]\<rparr>)"

definition syscall ::
  "(history \<Rightarrow> 'r) \<Rightarrow> ('r \<Rightarrow> event) \<Rightarrow> ('a world_scheme, 'r) prog" where
  "syscall f ev =
     State (\<lambda>w. let r = f (trace w) in (Inr r, w\<lparr>trace := trace w @ [ev r]\<rparr>))"

definition sys_socket :: "env \<Rightarrow> i32 \<Rightarrow> i32 \<Rightarrow> i32 \<Rightarrow> ('a world_scheme, i32) prog" where
  "sys_socket E d t p = syscall (\<lambda>h. os_socket E h d t p) (Ev_socket d t p)"

definition sys_close :: "env \<Rightarrow> i32 \<Rightarrow> ('a world_scheme, i32) prog" where
  "sys_close E fd = syscall (\<lambda>h. os_close E h fd) (Ev_close fd)"

definition sys_fcntl :: "env \<Rightarrow> i32 \<Rightarrow> i32 \<Rightarrow> i32 \<Rightarrow> ('a world_scheme, i32) prog" where
  "sys_fcntl E fd cmd arg = syscall (\<lambda>h. os_fcntl E h fd cmd arg) (Ev_fcntl fd cmd arg)"

text \<open>\<open>ioctl\<close> stores into the union of the request, which keeps its size.\<close>

definition sys_ioctl :: "env \<Rightarrow> i32 \<Rightarrow> u64 \<Rightarrow> ifreq \<Rightarrow> ('a world_scheme, i32 \<times> ifreq) prog" where
  "sys_ioctl E fd rq ifr =
     syscall (\<lambda>h. case os_ioctl E h fd rq ifr of (rc, bs) \<Rightarrow>
                    (rc, ifr\<lparr>ifr_ifru := overwrite (ifr_ifru ifr) bs\<rparr>))
             (\<lambda>(rc, ifr'). Ev_ioctl fd rq ifr rc ifr')"

definition sys_bind :: "env \<Rightarrow> i32 \<Rightarrow> sockaddr_ll \<Rightarrow> u32 \<Rightarrow> ('a world_scheme, i32) prog" where
  "sys_bind E fd a n = syscall (\<lambda>h. os_bind E h fd a n) (Ev_bind fd a n)"

definition sys_sendto ::
  "env \<Rightarrow> i32 \<Rightarrow> byte list \<Rightarrow> u64 \<Rightarrow> i32 \<Rightarrow> sockaddr_ll \<Rightarrow> u32 \<Rightarrow> ('a world_scheme, i64) prog" where
  "sys_sendto E fd buf n flags a alen =
     syscall (\<lambda>h. os_sendto E h fd buf n flags a alen) (Ev_sendto fd buf n flags a alen)"

definition sys_recvmsg ::
  "env \<Rightarrow> i32 \<Rightarrow> msghdr \<Rightarrow> i32 \<Rightarrow> ('a world_scheme, i64 \<times> byte list \<times> byte list) prog" where
  "sys_recvmsg E fd m flags =
     syscall (\<lambda>h. os_recvmsg E h fd m flags) (\<lambda>r. Ev_recvmsg fd m flags (fst r))"

definition sys_setsockopt ::
  "env \<Rightarrow> i32 \<Rightarrow> i32 \<Rightarrow> i32 \<Rightarrow> packet_mreq \<Rightarrow> u32 \<Rightarrow> ('a world_scheme, i32) prog" where
  "sys_setsockopt E fd level opt m n =
     syscall (\<lambda>h. os_setsockopt E h fd level opt m n) (Ev_setsockopt fd level opt m n)"

text \<open>\<open>throw std::runtime_error(strerror(errno))\<close>\<close>

definition throw_errno :: "env \<Rightarrow> ('a world_scheme, 'b) prog" where
  "throw_errno E =
     after (gets trace) (\<lambda>h. throw (Runtime_error (os_strerror E (os_errno E h))))"

lemma run_log [run_simps]:
  "run_state (log ev) w = (Inr (), w\<lparr>trace := trace w @ [ev]\<rparr>)"
  by (simp add: log_def run_simps)

lemma run_syscall:
  "run_state (syscall f ev) w = (Inr (f (trace w)), w\<lparr>trace := trace w @ [ev (f (trace w))]\<rparr>)"
  by (simp add: syscall_def Let_def)

lemma run_throw_errno [run_simps]:
  "run_state (throw_errno E) w = (Inl (Runtime_error (os_strerror E (os_errno E (trace w)))), w)"
  by (simp add: throw_errno_def run_simps)

lemmas syscall_defs = sys_socket_def sys_close_def sys_fcntl_def sys_ioctl_def sys_bind_def
  sys_sendto_def sys_recvmsg_def sys_setsockopt_def

section \<open>Memory\<close>

definition indet :: "env \<Rightarrow> history \<Rightarrow> nat \<Rightarrow> byte list" where
  "indet E h n = overwrite (replicate n 0) (indet_bytes E h n)"

lemma length_indet [simp]: "length (indet E h n) = n"
  by (simp add: indet_def)

text \<open>An access of no bytes touches no memory; any other needs a live block that holds it.\<close>

fun mem_load :: "(nat \<rightharpoonup> byte list) \<Rightarrow> ptr \<Rightarrow> nat \<Rightarrow> ub + byte list" where
  "mem_load h NULL n = (if n = 0 then Inr [] else Inl Null_deref)"
| "mem_load h (Ptr b i) n =
     (if n = 0 then Inr []
      else case h b of
             None \<Rightarrow> Inl Use_after_free
           | Some bs \<Rightarrow> (if i + n \<le> length bs then Inr (take n (drop i bs)) else Inl Out_of_bounds))"

fun mem_store ::
  "(nat \<rightharpoonup> byte list) \<Rightarrow> ptr \<Rightarrow> byte list \<Rightarrow> ub + (nat \<rightharpoonup> byte list)" where
  "mem_store h NULL xs = (if xs = [] then Inr h else Inl Null_deref)"
| "mem_store h (Ptr b i) xs =
     (if xs = [] then Inr h
      else case h b of
             None \<Rightarrow> Inl Use_after_free
           | Some bs \<Rightarrow> (if i + length xs \<le> length bs then Inr (h(b \<mapsto> patch_at bs i xs))
                         else Inl Out_of_bounds))"

definition load_bytes :: "ptr \<Rightarrow> nat \<Rightarrow> ('a world_scheme, byte list) prog" where
  "load_bytes p n =
     State (\<lambda>w. (case mem_load (heap w) p n of Inl u \<Rightarrow> Inl (Undefined u) | Inr bs \<Rightarrow> Inr bs, w))"

definition store_bytes :: "ptr \<Rightarrow> byte list \<Rightarrow> ('a world_scheme, unit) prog" where
  "store_bytes p bs =
     State (\<lambda>w. case mem_store (heap w) p bs of
                  Inl u \<Rightarrow> (Inl (Undefined u), w)
                | Inr h \<Rightarrow> (Inr (), w\<lparr>heap := h\<rparr>))"

text \<open>\<open>memcpy(dst, src, n)\<close> between blocks\<close>

definition memcpy :: "ptr \<Rightarrow> ptr \<Rightarrow> nat \<Rightarrow> ('a world_scheme, unit) prog" where
  "memcpy dst src n = after (load_bytes src n) (\<lambda>bs. store_bytes dst bs)"

text \<open>A fresh block of indeterminate bytes, or null when the allocator has none.\<close>

definition malloc :: "env \<Rightarrow> u64 \<Rightarrow> ('a world_scheme, ptr) prog" where
  "malloc E n =
     State (\<lambda>w. if os_alloc E (trace w) n
        then (Inr (Ptr (next_blk w) 0),
              w\<lparr>trace := trace w @ [Ev_alloc n (Ptr (next_blk w) 0)],
                heap := (heap w)(next_blk w \<mapsto> indet E (trace w) (unat n)),
                next_blk := Suc (next_blk w)\<rparr>)
        else (Inr NULL, w\<lparr>trace := trace w @ [Ev_alloc n NULL]\<rparr>))"

text \<open>\<open>new char[n]\<close> throws where \<open>malloc\<close> answers null.\<close>

definition new_bytes :: "env \<Rightarrow> u64 \<Rightarrow> ('a world_scheme, ptr) prog" where
  "new_bytes E n = after (malloc E n) (\<lambda>p. if p = NULL then throw Bad_alloc else give p)"

text \<open>\<open>free\<close> and \<open>delete []\<close>: null is ignored, anything else is the start of a live block.\<close>

definition free :: "ptr \<Rightarrow> ('a world_scheme, unit) prog" where
  "free p =
     State (\<lambda>w. case p of
        NULL \<Rightarrow> (Inr (), w)
      | Ptr b i \<Rightarrow>
          if i = 0 \<and> heap w b \<noteq> None
          then (Inr (), w\<lparr>trace := trace w @ [Ev_free p], heap := (heap w)(b := None)\<rparr>)
          else (Inl (Undefined Bad_free), w))"

text \<open>
  \<open>realloc(p, n)\<close> of a live block (C library of Linux): with \<open>n = 0\<close> it frees the block and
  answers null; otherwise the block moves to a fresh one of the new size, or null is answered and
  the old block stays.
\<close>

definition realloc :: "env \<Rightarrow> ptr \<Rightarrow> u64 \<Rightarrow> ('a world_scheme, ptr) prog" where
  "realloc E p n =
     State (\<lambda>w. case p of
        NULL \<Rightarrow> run_state (malloc E n) w
      | Ptr b i \<Rightarrow>
          (case heap w b of
             None \<Rightarrow> (Inl (Undefined Bad_free), w)
           | Some bs \<Rightarrow>
               if i \<noteq> 0 then (Inl (Undefined Bad_free), w)
               else if n = 0
               then (Inr NULL, w\<lparr>trace := trace w @ [Ev_realloc p n NULL],
                                 heap := (heap w)(b := None)\<rparr>)
               else if os_alloc E (trace w) n
               then (Inr (Ptr (next_blk w) 0),
                     w\<lparr>trace := trace w @ [Ev_realloc p n (Ptr (next_blk w) 0)],
                       heap := (heap w)(b := None,
                                 next_blk w \<mapsto> overwrite (indet E (trace w) (unat n)) bs),
                       next_blk := Suc (next_blk w)\<rparr>)
               else (Inr NULL, w\<lparr>trace := trace w @ [Ev_realloc p n NULL]\<rparr>)))"

section \<open>Facts about memory\<close>

text \<open>No block is live that was never allocated.\<close>

definition wf_mem :: "'a world_scheme \<Rightarrow> bool" where
  "wf_mem w \<longleftrightarrow> (\<forall>b \<ge> next_blk w. heap w b = None)"

lemma wf_mem_fresh [simp]: "wf_mem w \<Longrightarrow> heap w (next_blk w) = None"
  by (simp add: wf_mem_def)

lemma realloc_wf_mem: "wf_mem w \<Longrightarrow> run_state (realloc E p n) w = (r, w') \<Longrightarrow> wf_mem w'"
  by (auto simp: realloc_def malloc_def wf_mem_def split: ptr.splits option.splits if_splits)

lemma mem_load_length: "mem_load h p n = Inr bs \<Longrightarrow> length bs = n"
  by (cases p) (auto split: if_splits option.splits)

lemma mem_load_new_block:
  assumes "mem_load h p n = Inr bs" and "h b = None"
  shows "mem_load (h(b := x)) p n = Inr bs"
proof (cases p)
  case NULL
  with assms show ?thesis by (simp split: if_splits)
next
  case (Ptr c i)
  with assms show ?thesis by (cases "c = b") (auto split: if_splits option.splits)
qed

lemma map_upd_remove_fresh: "h b = None \<Longrightarrow> h(b := None) = h"
  by (rule fun_upd_idem)

lemma run_load_bytes [run_simps]:
  "run_state (load_bytes p n) w =
     (case mem_load (heap w) p n of Inl u \<Rightarrow> (Inl (Undefined u), w) | Inr bs \<Rightarrow> (Inr bs, w))"
  by (simp add: load_bytes_def split: sum.splits)

lemma run_store_bytes [run_simps]:
  "run_state (store_bytes p bs) w =
     (case mem_store (heap w) p bs of
        Inl u \<Rightarrow> (Inl (Undefined u), w) | Inr h \<Rightarrow> (Inr (), w\<lparr>heap := h\<rparr>))"
  by (simp add: store_bytes_def)

lemma run_malloc [run_simps]:
  "run_state (malloc E n) w =
     (if os_alloc E (trace w) n
      then (Inr (Ptr (next_blk w) 0),
            w\<lparr>trace := trace w @ [Ev_alloc n (Ptr (next_blk w) 0)],
              heap := (heap w)(next_blk w \<mapsto> indet E (trace w) (unat n)),
              next_blk := Suc (next_blk w)\<rparr>)
      else (Inr NULL, w\<lparr>trace := trace w @ [Ev_alloc n NULL]\<rparr>))"
  by (simp add: malloc_def)

lemma run_free [run_simps]:
  "run_state (free (Ptr b 0)) w =
     (if heap w b \<noteq> None
      then (Inr (), w\<lparr>trace := trace w @ [Ev_free (Ptr b 0)], heap := (heap w)(b := None)\<rparr>)
      else (Inl (Undefined Bad_free), w))"
  by (simp add: free_def)

lemma run_memcpy:
  "mem_load (heap w) src n = Inr bs \<Longrightarrow>
   run_state (memcpy dst src n) w = run_state (store_bytes dst bs) w"
  by (simp add: memcpy_def run_simps)

lemma run_store_in:
  assumes "heap w = h(b \<mapsto> g)" and "i + length bs \<le> length g"
  shows "run_state (store_bytes (Ptr b i) bs) w = (Inr (), w\<lparr>heap := h(b \<mapsto> patch_at g i bs)\<rparr>)"
proof (cases "bs = []")
  case True
  have "w\<lparr>heap := h(b \<mapsto> g)\<rparr> = w" by (simp flip: assms(1))
  with True show ?thesis by (simp add: run_simps patch_at_def)
next
  case False
  with assms show ?thesis by (simp add: run_simps)
qed

lemma run_new_bytes:
  "os_alloc E (trace w) n \<Longrightarrow>
   run_state (new_bytes E n) w = (Inr (Ptr (next_blk w) 0),
       w\<lparr>trace := trace w @ [Ev_alloc n (Ptr (next_blk w) 0)],
         heap := (heap w)(next_blk w \<mapsto> indet E (trace w) (unat n)),
         next_blk := Suc (next_blk w)\<rparr>)"
  by (simp add: new_bytes_def run_simps)

section \<open>Views of the history\<close>

text \<open>The descriptors the program holds: every successful \<open>socket\<close> adds one, \<open>close\<close> removes it.\<close>

fun fd_step :: "i32 set \<Rightarrow> event \<Rightarrow> i32 set" where
  "fd_step S (Ev_socket _ _ _ r) = (if r = -1 then S else insert r S)"
| "fd_step S (Ev_close fd _) = S - {fd}"
| "fd_step S _ = S"

definition open_fds :: "history \<Rightarrow> i32 set" where
  "open_fds h = foldl fd_step {} h"

lemma open_fds_Nil [simp]: "open_fds [] = {}"
  by (simp add: open_fds_def)

lemma open_fds_snoc [simp]: "open_fds (h @ [e]) = fd_step (open_fds h) e"
  by (simp add: open_fds_def)

lemma minus_one_not_open [simp]: "-1 \<notin> open_fds h"
proof (induction h rule: rev_induct)
  case (snoc e h)
  then show ?case by (cases e) auto
qed simp

text \<open>
  Documented behaviour of the kernel: \<open>socket\<close> answers a descriptor that is not open, \<open>sendto\<close>
  answers -1 or at most the bytes it was given, \<open>recvmsg\<close> answers -1 or the length of what it
  stored, which fits the segments.
\<close>

definition fresh_fds :: "env \<Rightarrow> bool" where
  "fresh_fds E \<longleftrightarrow> (\<forall>h d t p. os_socket E h d t p \<notin> open_fds h)"

definition sendto_documented :: "env \<Rightarrow> bool" where
  "sendto_documented E \<longleftrightarrow>
     (\<forall>h fd buf n fl a k. let r = os_sendto E h fd buf n fl a k in r = -1 \<or> unat r \<le> unat n)"

definition recvmsg_documented :: "env \<Rightarrow> bool" where
  "recvmsg_documented E \<longleftrightarrow>
     (\<forall>h fd m fl. case os_recvmsg E h fd m fl of (r, frame, sender) \<Rightarrow>
        r = -1 \<or> r = of_nat (length frame) \<and> length frame \<le> sum_list (map unat (msg_iov_lens m)))"

text \<open>
  One concrete environment, for the witnesses: a kernel with a single descriptor 5 and an
  interface 12 of address de:ad:00:00:be:ef, whose calls succeed; \<open>recvmsg\<close> delivers one frame.
\<close>

definition sample_frame :: "byte list" where
  "sample_frame = [0xde, 0xad, 0, 0, 0xff, 0xff, 0xde, 0xad, 0, 0, 0xbe, 0xef, 0, 2, 0x68, 0x69]"

definition sample_env :: env where
  "sample_env = \<lparr>
     os_socket = (\<lambda>h d t p. if 5 \<in> open_fds h then -1 else 5),
     os_close = (\<lambda>h fd. 0),
     os_fcntl = (\<lambda>h fd cmd arg. 0),
     os_ioctl = (\<lambda>h fd rq ifr. (0, if rq = SIOCGIFINDEX then [12, 0, 0, 0]
                                   else [1, 0, 0xde, 0xad, 0, 0, 0xbe, 0xef])),
     os_bind = (\<lambda>h fd a n. 0),
     os_sendto = (\<lambda>h fd buf n fl a k. n),
     os_recvmsg = (\<lambda>h fd m fl. if length sample_frame \<le> sum_list (map unat (msg_iov_lens m))
        then (of_nat (length sample_frame), sample_frame, [0xde, 0xad, 0, 0, 0xbe, 0xef])
        else (-1, [], [])),
     os_setsockopt = (\<lambda>h fd l opt m n. 0),
     os_errno = (\<lambda>h. 0),
     os_strerror = (\<lambda>e. ''error''),
     os_alloc = (\<lambda>h n. True),
     indet_bytes = (\<lambda>h n. []),
     indet_sockaddr = (\<lambda>h. zero_sockaddr_ll),
     indet_controllen = (\<lambda>h. 0),
     nan_new_buffer = (\<lambda>h p n. True),
     uv_strerror = (\<lambda>e. ''error'')\<rparr>"

lemma sample_env_documented:
  "fresh_fds sample_env" "sendto_documented sample_env" "recvmsg_documented sample_env"
  by (auto simp: sample_env_def fresh_fds_def sendto_documented_def recvmsg_documented_def)

definition empty_world :: world where
  "empty_world = \<lparr>trace = [], heap = Map.empty, next_blk = 0\<rparr>"

lemma empty_world_simps [simp]:
  "trace empty_world = []" "heap empty_world = Map.empty" "next_blk empty_world = 0"
  by (simp_all add: empty_world_def)

lemma keeps_case_prod [keeps_rules]:
  "(\<And>a b. keeps R (f a b)) \<Longrightarrow> keeps R (case x of (a, b) \<Rightarrow> f a b)"
  by (cases x) simp

lemma keeps_syscall:
  "(\<And>w r. R w (w\<lparr>trace := trace w @ [ev r]\<rparr>)) \<Longrightarrow> keeps R (syscall f ev)"
  by (simp add: keeps_def run_syscall)

lemma run_store_fit:
  assumes "heap w b = Some g" and "length bs \<le> length g"
  shows "run_state (store_bytes (Ptr b 0) bs) w = (Inr (), w\<lparr>heap := (heap w)(b \<mapsto> overwrite g bs)\<rparr>)"
proof -
  have "heap w = (heap w)(b \<mapsto> g)" using assms(1) by (simp add: fun_upd_idem)
  from run_store_in [OF this, of 0 bs] assms(2) show ?thesis
    by (simp add: patch_at_def overwrite_def)
qed

text \<open>The frame of the operations that neither open nor close a descriptor nor touch memory\<close>

definition same_resources :: "'a world_scheme \<Rightarrow> 'a world_scheme \<Rightarrow> bool" where
  "same_resources w w' \<longleftrightarrow> open_fds (trace w') = open_fds (trace w) \<and> heap w' = heap w \<and>
     next_blk w' = next_blk w \<and> world.more w' = world.more w"

lemma same_resources_refl [simp]: "reflp same_resources"
  by (rule reflpI) (simp add: same_resources_def)

lemma same_resources_trans [simp]: "transp same_resources"
  by (rule transpI) (simp add: same_resources_def)

lemma keeps_throw_errno [keeps_rules]: "reflp R \<Longrightarrow> keeps R (throw_errno E)"
  by (simp add: keeps_def run_throw_errno reflpD)

end
