(* ===== verification/Socket.thy ===== *)
theory Socket
  imports Env
begin

text \<open>
  The class \<open>Socket\<close> of \<open>src/socket.cc\<close> and \<open>include/socket.hh\<close>: a raw packet socket bound to
  one interface.  Definitions first, one per member function, each with every system call, every
  check and every exception of the source.  The theorems about them are in \<open>Socket_Facts\<close>.
\<close>

unbundle bit_operations_syntax

section \<open>The class and its operations\<close>

record socket =
  device_name :: string
  socket_descriptor :: i32
  interface_index :: i32
  hardware_address :: "byte list"

text \<open>\<open>enum MembershipType\<close> and \<open>enum MembershipAction\<close>\<close>

definition MULTICAST :: i32 where "MULTICAST = 0"
definition PROMISCIOUS :: i32 where "PROMISCIOUS = 1"
definition ALL_MULTICAST :: i32 where "ALL_MULTICAST = 2"
definition ADD_MEMBERSHIP :: i32 where "ADD_MEMBERSHIP = 1"
definition DROP_MEMBERSHIP :: i32 where "DROP_MEMBERSHIP = 2"

lemmas membership_consts = MULTICAST_def PROMISCIOUS_def ALL_MULTICAST_def
  ADD_MEMBERSHIP_def DROP_MEMBERSHIP_def

text \<open>\<open>strcpy(ifr.ifr_name, device)\<close> into a request that is otherwise uninitialised\<close>

definition strcpy_ifr_name :: "env \<Rightarrow> string \<Rightarrow> ('a world_scheme, ifreq) prog" where
  "strcpy_ifr_name E device =
     (if length device < IFNAMSIZ
      then after (gets trace)
             (\<lambda>h. give \<lparr>ifr_name = device, ifr_ifru = indet E h sizeof_ifru\<rparr>)
      else throw (Undefined Buffer_overflow))"

text \<open>The body of the constructor's \<open>try\<close> block\<close>

definition Socket_setup :: "env \<Rightarrow> string \<Rightarrow> i32 \<Rightarrow> ('a world_scheme, socket) prog" where
  "Socket_setup E device fd =
     after (sys_fcntl E fd F_GETFL 0) (\<lambda>flag.
     if flag = -1 then throw_errno E else
     after (sys_fcntl E fd F_SETFL (flag OR O_NONBLOCK)) (\<lambda>rc.
     if rc = -1 then throw_errno E else
     after (strcpy_ifr_name E device) (\<lambda>ifr.
     after (sys_ioctl E fd SIOCGIFINDEX ifr) (\<lambda>(rc, ifr).
     if rc = -1 then throw_errno E else
     let ifindex = load32 (ifr_ifru ifr) in
     after (sys_ioctl E fd SIOCGIFHWADDR ifr) (\<lambda>(rc, ifr).
     if rc = -1 then throw_errno E else
     let hwaddr = take ETHER_ADDR_LEN (drop 2 (ifr_ifru ifr)) in
     after (gets trace) (\<lambda>h.
     let bindaddr = (indet_sockaddr E h)
           \<lparr>sll_family := ucast AF_PACKET, sll_ifindex := ifindex, sll_protocol := htons ETH_P_ALL\<rparr> in
     after (sys_bind E fd bindaddr sizeof_sockaddr_ll) (\<lambda>rc.
     if rc = -1 then throw_errno E else
     give \<lparr>device_name = device, socket_descriptor = fd, interface_index = ifindex,
           hardware_address = hwaddr\<rparr>)))))))"

definition Socket_new :: "env \<Rightarrow> string \<Rightarrow> ('a world_scheme, socket) prog" where
  "Socket_new E device =
     after (sys_socket E AF_PACKET SOCK_RAW (ucast (htons ETH_P_ALL))) (\<lambda>fd.
     if fd = -1 then throw_errno E
     else catch_all (Socket_setup E device fd)
            (\<lambda>e. after (sys_close E fd) (\<lambda>_. throw e)))"

definition Socket_delete :: "env \<Rightarrow> socket \<Rightarrow> ('a world_scheme, unit) prog" where
  "Socket_delete E s = after (sys_close E (socket_descriptor s)) (\<lambda>_. give ())"

definition get_descriptor :: "socket \<Rightarrow> i32" where
  "get_descriptor s = socket_descriptor s"

text \<open>The packet is a heap block: destination, own address, length, payload.\<close>

definition fill_packet :: "socket \<Rightarrow> ptr \<Rightarrow> ptr \<Rightarrow> ptr \<Rightarrow> i32 \<Rightarrow> ('a world_scheme, unit) prog" where
  "fill_packet s msg_buffer destination_address message message_length =
     after (memcpy msg_buffer destination_address ETHER_ADDR_LEN) (\<lambda>_.
     after (store_bytes (ptr_add msg_buffer 6) (take ETHER_ADDR_LEN (hardware_address s))) (\<lambda>_.
     after (store_bytes (ptr_add msg_buffer 12) (store16 (htons (ucast message_length)))) (\<lambda>_.
     memcpy (ptr_add msg_buffer sizeof_ether_header) message
              (unat (scast message_length :: u64)))))"

definition send_message ::
  "env \<Rightarrow> socket \<Rightarrow> ptr \<Rightarrow> ptr \<Rightarrow> i32 \<Rightarrow> ('a world_scheme, i32) prog" where
  "send_message E s destination_address message message_length =
     (let addr = zero_sockaddr_ll
            \<lparr>sll_family := ucast AF_PACKET, sll_ifindex := interface_index s,
             sll_halen := of_nat ETHER_ADDR_LEN, sll_protocol := htons ETH_P_802_3,
             sll_addr := overwrite (replicate 8 0) (take ETHER_ADDR_LEN (hardware_address s))\<rparr>;
          overall_packet_length = of_nat sizeof_ether_header + (scast message_length :: u64)
      in
     after (new_bytes E overall_packet_length) (\<lambda>msg_buffer.
     after (fill_packet s msg_buffer destination_address message message_length) (\<lambda>_.
     after (load_bytes msg_buffer (unat overall_packet_length)) (\<lambda>buf.
     after (sys_sendto E (socket_descriptor s) buf overall_packet_length 0 addr sizeof_sockaddr_ll) (\<lambda>r.
     after (free msg_buffer) (\<lambda>_.
     let rc = (ucast r :: i32) in
     if rc = -1 then throw_errno E
     else if (scast rc :: u64) \<noteq> overall_packet_length
     then throw (Runtime_error ''Failed to send entire packet'')
     else give message_length))))))"

definition receive_message ::
  "env \<Rightarrow> socket \<Rightarrow> ptr \<Rightarrow> ptr \<Rightarrow> ptr \<Rightarrow> i32 \<Rightarrow> ('a world_scheme, i32) prog" where
  "receive_message E s source_address destination_address buffer buffer_size =
     after (gets trace) (\<lambda>h.
     let header = indet E h sizeof_ether_header;
         msg = \<lparr>msg_namelen = sizeof_sockaddr_ll,
                msg_iov_lens = [of_nat sizeof_ether_header, scast buffer_size],
                msg_flags = 0, msg_controllen = indet_controllen E h\<rparr> in
     after (sys_recvmsg E (socket_descriptor s) msg 0) (\<lambda>(r, frame, sender).
     after (if r = -1 then give ()
            else store_bytes buffer
                   (take (unat (scast buffer_size :: u64)) (drop sizeof_ether_header frame))) (\<lambda>_.
     let received_bytes = (ucast r :: i32) in
     if received_bytes = -1 then throw_errno E else
     let header = overwrite header frame;
         addr = zero_sockaddr_ll\<lparr>sll_addr := overwrite (replicate 8 0) sender\<rparr> in
     after (store_bytes source_address (take ETHER_ADDR_LEN (sll_addr addr))) (\<lambda>_.
     after (store_bytes destination_address (take ETHER_ADDR_LEN header)) (\<lambda>_.
     give (ucast ((scast received_bytes :: u64) - of_nat sizeof_ether_header)))))))"

definition is_valid_membership_type :: "i32 \<Rightarrow> bool" where
  "is_valid_membership_type type \<longleftrightarrow>
     type = MULTICAST \<or> type = PROMISCIOUS \<or> type = ALL_MULTICAST"

definition manage_membership ::
  "env \<Rightarrow> socket \<Rightarrow> i32 \<Rightarrow> i32 \<Rightarrow> ptr \<Rightarrow> ('a world_scheme, unit) prog" where
  "manage_membership E s action type multicast_address =
     (if \<not> is_valid_membership_type type
      then throw (Invalid_argument ''Invalid membership type'')
      else
        let multireq = zero_packet_mreq\<lparr>mr_ifindex := interface_index s, mr_type := ucast type\<rparr> in
        after (if type = MULTICAST
               then after (load_bytes multicast_address ETHER_ADDR_LEN)
                      (\<lambda>a. give (multireq\<lparr>mr_alen := of_nat ETHER_ADDR_LEN,
                                          mr_address := overwrite (replicate 8 0) a\<rparr>))
               else give multireq) (\<lambda>multireq.
        after (sys_setsockopt E (socket_descriptor s) SOL_PACKET action multireq
                 sizeof_packet_mreq) (\<lambda>rc.
        if rc = -1 then throw_errno E else give ())))"

definition add_membership :: "env \<Rightarrow> socket \<Rightarrow> i32 \<Rightarrow> ptr \<Rightarrow> ('a world_scheme, unit) prog" where
  "add_membership E s type multicast_address =
     manage_membership E s ADD_MEMBERSHIP type multicast_address"

definition drop_membership :: "env \<Rightarrow> socket \<Rightarrow> i32 \<Rightarrow> ptr \<Rightarrow> ('a world_scheme, unit) prog" where
  "drop_membership E s type multicast_address =
     manage_membership E s DROP_MEMBERSHIP type multicast_address"

end
