(* ===== verification/Poller.thy ===== *)
theory Poller
  imports Env
begin

text \<open>
  The pollers of \<open>src/poller.cc\<close> and \<open>include/poller.hh\<close>: the abstract class \<open>Poller\<close>, the
  \<open>UvPoller\<close> that watches a descriptor through libuv, and the \<open>NullPoller\<close> that replaces it after
  \<open>Close\<close>.  Poller objects and \<open>uv_poll_t\<close> handles live in the heap of the program: they are
  created, deleted and reached through pointers, and a deleted one may still be pointed to.
  The theorems are in \<open>Poller_Facts\<close>.
\<close>

unbundle bit_operations_syntax

section \<open>State\<close>

datatype poller_events = NONE_EVENT | READ_EVENT | WRITE_EVENT | RW_EVENT

primrec event_mask :: "poller_events \<Rightarrow> i32" where
  "event_mask NONE_EVENT = 0"
| "event_mask READ_EVENT = UV_READABLE"
| "event_mask WRITE_EVENT = UV_WRITABLE"
| "event_mask RW_EVENT = UV_READABLE OR UV_WRITABLE"

text \<open>The functions whose address the program hands out.\<close>

datatype fnptr = ReadReadyCallback_ptr | WriteReadyCallback_ptr | ErrorCallback_ptr

record uv_poller =
  read_ready_callback :: fnptr
  write_ready_callback :: fnptr
  error_callback :: fnptr
  external_data :: nat
  uv_poll :: nat
  current_events :: poller_events

datatype poller = UvPoller uv_poller | NullPoller

text \<open>
  \<open>pollers\<close> and \<open>handles\<close> are the live objects by address; a handle holds its \<open>data\<close> pointer.
  Addresses are never used twice.
\<close>

record poll_world = world +
  pollers :: "nat \<rightharpoonup> poller"
  handles :: "nat \<rightharpoonup> nat"
  next_obj :: nat

section \<open>Operations\<close>

text \<open>A member access through a pointer that must point to a live \<open>UvPoller\<close>\<close>

definition uv_member :: "nat \<Rightarrow> ('a poll_world_scheme, uv_poller) prog" where
  "uv_member p =
     State (\<lambda>w. (case pollers w p of
        Some (UvPoller u) \<Rightarrow> Inr u | _ \<Rightarrow> Inl (Undefined Use_after_free), w))"

text \<open>\<open>new\<close> of an object or a handle: a fresh address\<close>

definition new_addr :: "('a poll_world_scheme, nat) prog" where
  "new_addr = State (\<lambda>w. (Inr (next_obj w), w\<lparr>next_obj := Suc (next_obj w)\<rparr>))"

definition put_poller :: "nat \<Rightarrow> poller option \<Rightarrow> ('a poll_world_scheme, unit) prog" where
  "put_poller p x = modify (\<lambda>w. w\<lparr>pollers := (pollers w)(p := x)\<rparr>)"

definition put_handle :: "nat \<Rightarrow> nat option \<Rightarrow> ('a poll_world_scheme, unit) prog" where
  "put_handle h x = modify (\<lambda>w. w\<lparr>handles := (handles w)(h := x)\<rparr>)"

text \<open>
  The constructors.  The source drops the codes that \<open>uv_poll_init_socket\<close>, \<open>uv_poll_start\<close> and
  \<open>uv_poll_stop\<close> return, so these calls are recorded without an answer.
\<close>

definition UvPoller_new ::
  "i32 \<Rightarrow> fnptr \<Rightarrow> fnptr \<Rightarrow> fnptr \<Rightarrow> nat \<Rightarrow> ('a poll_world_scheme, nat) prog" where
  "UvPoller_new descriptor read_cb write_cb error_cb data =
     after new_addr (\<lambda>this.
     after new_addr (\<lambda>handle.
     after (log (Uv_poll_init handle descriptor)) (\<lambda>_.
     after (put_handle handle (Some this)) (\<lambda>_.
     after (put_poller this (Some (UvPoller
       \<lparr>read_ready_callback = read_cb, write_ready_callback = write_cb,
        error_callback = error_cb, external_data = data, uv_poll = handle,
        current_events = READ_EVENT\<rparr>))) (\<lambda>_.
     after (log (Uv_poll_start handle UV_READABLE)) (\<lambda>_.
     give this))))))"

definition NullPoller_new :: "('a poll_world_scheme, nat) prog" where
  "NullPoller_new =
     after new_addr (\<lambda>this. after (put_poller this (Some NullPoller)) (\<lambda>_. give this))"

text \<open>The destructors, and \<open>delete\<close> through the virtual one of \<open>Poller\<close>\<close>

definition UvPoller_destruct :: "uv_poller \<Rightarrow> ('a poll_world_scheme, unit) prog" where
  "UvPoller_destruct u = log (Uv_close (uv_poll u))"

definition delete_poller :: "nat \<Rightarrow> ('a poll_world_scheme, unit) prog" where
  "delete_poller p =
     after (gets (\<lambda>w. pollers w p)) (\<lambda>x.
     after (case x of
              None \<Rightarrow> throw (Undefined Bad_free)
            | Some (UvPoller u) \<Rightarrow> UvPoller_destruct u
            | Some NullPoller \<Rightarrow> give ()) (\<lambda>_.
     put_poller p None))"

text \<open>The callback libuv makes when a handle it was asked to close may be freed\<close>

definition on_close :: "nat \<Rightarrow> ('a poll_world_scheme, unit) prog" where
  "on_close handle =
     after (gets (\<lambda>w. handles w handle)) (\<lambda>x.
     case x of
       None \<Rightarrow> throw (Undefined Bad_free)
     | Some _ \<Rightarrow> put_handle handle None)"

text \<open>
  \<open>call\<close> is what calling a function pointer does.  Every use of a member reads it through \<open>this\<close>
  again, so a callback that deletes the poller is seen by the next one.  An error that \<open>call\<close> ends with
  ends the event: an uncaught error of JavaScript ends the process, as Node does by default.
\<close>

definition io_event ::
  "env \<Rightarrow> (fnptr \<Rightarrow> nat \<Rightarrow> string option \<Rightarrow> ('a poll_world_scheme, unit) prog) \<Rightarrow>
   nat \<Rightarrow> i32 \<Rightarrow> i32 \<Rightarrow> ('a poll_world_scheme, unit) prog" where
  "io_event E call this status revents =
     (if status \<noteq> 0
      then after (uv_member this) (\<lambda>u.
           call (error_callback u) (external_data u) (Some (uv_strerror E status)))
      else
        after (if revents AND UV_READABLE \<noteq> 0
               then after (uv_member this) (\<lambda>u.
                    call (read_ready_callback u) (external_data u) None)
               else give ()) (\<lambda>_.
        if revents AND UV_WRITABLE \<noteq> 0
        then after (uv_member this) (\<lambda>u.
             call (write_ready_callback u) (external_data u) None)
        else give ()))"

definition io_event_wrapper ::
  "env \<Rightarrow> (fnptr \<Rightarrow> nat \<Rightarrow> string option \<Rightarrow> ('a poll_world_scheme, unit) prog) \<Rightarrow>
   nat \<Rightarrow> i32 \<Rightarrow> i32 \<Rightarrow> ('a poll_world_scheme, unit) prog" where
  "io_event_wrapper E call watcher status revents =
     after (gets (\<lambda>w. handles w watcher)) (\<lambda>x.
     case x of
       None \<Rightarrow> throw (Undefined Use_after_free)
     | Some poller \<Rightarrow> io_event E call poller status revents)"

definition UvPoller_set_events :: "nat \<Rightarrow> poller_events \<Rightarrow> ('a poll_world_scheme, unit) prog" where
  "UvPoller_set_events this events =
     after (uv_member this) (\<lambda>u.
     if events = current_events u then give () else
     after (put_poller this (Some (UvPoller (u\<lparr>current_events := events\<rparr>)))) (\<lambda>_.
     after (log (Uv_poll_stop (uv_poll u))) (\<lambda>_.
     if events \<noteq> NONE_EVENT then log (Uv_poll_start (uv_poll u) (event_mask events))
     else give ())))"

definition NullPoller_set_events :: "nat \<Rightarrow> poller_events \<Rightarrow> ('a poll_world_scheme, unit) prog" where
  "NullPoller_set_events this events = give ()"

text \<open>The virtual call\<close>

definition set_events :: "nat \<Rightarrow> poller_events \<Rightarrow> ('a poll_world_scheme, unit) prog" where
  "set_events p events =
     after (gets (\<lambda>w. pollers w p)) (\<lambda>x.
     case x of
       None \<Rightarrow> throw (Undefined Use_after_free)
     | Some (UvPoller _) \<Rightarrow> UvPoller_set_events p events
     | Some NullPoller \<Rightarrow> NullPoller_set_events p events)"

end
