(* ===== verification/Wrapper.thy ===== *)
theory Wrapper
  imports Socket Poller
begin

text \<open>
  The class \<open>Wrapper\<close> of \<open>src/wrapper.cc\<close> and \<open>include/wrapper.hh\<close>: the Node object that joins a
  \<open>Socket\<close> and a \<open>Poller\<close> and is driven from JavaScript.  A method takes the address of the C++
  object and its argument list and ends with a JavaScript value or a thrown error.  Calling a
  JavaScript function is the parameter \<open>js\<close>: it may run any program on the world, the methods of
  the same object included.  The theorems are in \<open>Wrapper_Facts\<close>.
\<close>

section \<open>State\<close>

text \<open>
  An empty persistent handle is \<open>None\<close>, a function is known by its identity.  The object owns its
  \<open>Socket\<close>, which nothing else points to; it points to a poller.
\<close>

record wrapper =
  onSendCallback :: "nat option"
  onRecvCallback :: "nat option"
  onErrorCallback :: "nat option"
  wsocket :: socket
  wpoller :: nat

record wrap_world = poll_world +
  wrappers :: "nat \<rightharpoonup> wrapper"

definition MAX_RECEIVE_BUFFER_SIZE :: i32 where "MAX_RECEIVE_BUFFER_SIZE = 2048"

definition put_wrapper :: "nat \<Rightarrow> wrapper option \<Rightarrow> ('a wrap_world_scheme, unit) prog" where
  "put_wrapper obj x = modify (\<lambda>w. w\<lparr>wrappers := (wrappers w)(obj := x)\<rparr>)"

text \<open>\<open>Unwrap\<close> of the receiver, or the \<open>data\<close> pointer of a callback\<close>

definition unwrap :: "nat \<Rightarrow> ('a wrap_world_scheme, wrapper) prog" where
  "unwrap obj =
     State (\<lambda>w. (case wrappers w obj of None \<Rightarrow> Inl (Undefined Use_after_free) | Some W \<Rightarrow> Inr W, w))"

section \<open>JavaScript values as Nan reads them\<close>

text \<open>\<open>info[i]\<close>, an own data property, a C string, and the conversion to a 32-bit integer\<close>

definition arg :: "js_value list \<Rightarrow> nat \<Rightarrow> js_value" where
  "arg info i = (if i < length info then info ! i else JUndefined)"

fun own_property :: "js_value \<Rightarrow> string \<Rightarrow> js_value option" where
  "own_property (JObject props) k = map_of props k"
| "own_property _ k = None"

definition get_property :: "js_value \<Rightarrow> string \<Rightarrow> js_value" where
  "get_property v k = (case own_property v k of None \<Rightarrow> JUndefined | Some x \<Rightarrow> x)"

definition c_str :: "string \<Rightarrow> string" where
  "c_str s = takeWhile (\<lambda>c. c \<noteq> CHR 0x00) s"

fun to_int32 :: "js_number \<Rightarrow> i32" where
  "to_int32 (JFinite m e) =
     word_of_int (if 0 \<le> e then m * 2 ^ nat e else sgn m * (\<bar>m\<bar> div 2 ^ nat (- e)))"
| "to_int32 _ = 0"

type_synonym 'w js_call = "nat \<Rightarrow> js_value list \<Rightarrow> ('w, js_value) prog"

text \<open>A call of a JavaScript function whose result is dropped; what it throws stays pending.\<close>

definition call_js :: "'a world_scheme js_call \<Rightarrow> nat \<Rightarrow> js_value list \<Rightarrow> ('a world_scheme, unit) prog" where
  "call_js js f args = after (log (Ev_js f args)) (\<lambda>_. after (js f args) (\<lambda>_. give ()))"

text \<open>Calling a callback that is an empty handle is undefined.\<close>

definition call_handle ::
  "'a world_scheme js_call \<Rightarrow> nat option \<Rightarrow> js_value list \<Rightarrow> ('a world_scheme, unit) prog" where
  "call_handle js f args =
     (case f of None \<Rightarrow> throw (Undefined Null_deref) | Some f \<Rightarrow> call_js js f args)"

section \<open>The classes it is linked with\<close>

text \<open>
  \<open>Wrapper\<close> calls \<open>Socket\<close> and \<open>Poller\<close> by the members their headers declare; which bodies these have is
  decided when a target is linked (\<open>binding.gyp\<close>: \<open>packet_socket_addon\<close> has the classes of \<open>src\<close>,
  \<open>test_wrapper\<close> those of \<open>cc_mocks\<close>).  A method \<open>f_with\<close> takes the bodies it calls as arguments \<open>S\<close> and
  \<open>P\<close>; \<open>f\<close> is the method of the addon, and \<open>f_eq\<close> its body with the calls resolved.
\<close>

record 'w socket_class =
  new_Socket :: "string \<Rightarrow> ('w, socket) prog"
  delete_Socket :: "socket \<Rightarrow> ('w, unit) prog"
  call_get_descriptor :: "socket \<Rightarrow> ('w, i32) prog"
  call_send_message :: "socket \<Rightarrow> ptr \<Rightarrow> ptr \<Rightarrow> i32 \<Rightarrow> ('w, i32) prog"
  call_receive_message :: "socket \<Rightarrow> ptr \<Rightarrow> ptr \<Rightarrow> ptr \<Rightarrow> i32 \<Rightarrow> ('w, i32) prog"
  call_add_membership :: "socket \<Rightarrow> i32 \<Rightarrow> ptr \<Rightarrow> ('w, unit) prog"
  call_drop_membership :: "socket \<Rightarrow> i32 \<Rightarrow> ptr \<Rightarrow> ('w, unit) prog"

record 'w poller_class =
  new_UvPoller :: "i32 \<Rightarrow> fnptr \<Rightarrow> fnptr \<Rightarrow> fnptr \<Rightarrow> nat \<Rightarrow> ('w, nat) prog"
  new_NullPoller :: "('w, nat) prog"
  call_set_events :: "nat \<Rightarrow> poller_events \<Rightarrow> ('w, unit) prog"
  delete_Poller :: "nat \<Rightarrow> ('w, unit) prog"

definition program_Socket :: "env \<Rightarrow> 'a wrap_world_scheme socket_class" where
  "program_Socket E =
     \<lparr>new_Socket = Socket_new E,
      delete_Socket = Socket_delete E,
      call_get_descriptor = (\<lambda>s. give (get_descriptor s)),
      call_send_message = send_message E,
      call_receive_message = receive_message E,
      call_add_membership = add_membership E,
      call_drop_membership = drop_membership E\<rparr>"

definition program_Poller :: "'a wrap_world_scheme poller_class" where
  "program_Poller =
     \<lparr>new_UvPoller = UvPoller_new,
      new_NullPoller = NullPoller_new,
      call_set_events = set_events,
      delete_Poller = delete_poller\<rparr>"

lemma program_members:
  "new_Socket (program_Socket E) = Socket_new E"
  "delete_Socket (program_Socket E) = Socket_delete E"
  "call_get_descriptor (program_Socket E) = (\<lambda>s. give (get_descriptor s))"
  "call_send_message (program_Socket E) = send_message E"
  "call_receive_message (program_Socket E) = receive_message E"
  "call_add_membership (program_Socket E) = add_membership E"
  "call_drop_membership (program_Socket E) = drop_membership E"
  "new_UvPoller program_Poller = UvPoller_new"
  "new_NullPoller program_Poller = NullPoller_new"
  "call_set_events program_Poller = set_events"
  "delete_Poller program_Poller = delete_poller"
  by (simp_all add: program_Socket_def program_Poller_def)

section \<open>Callbacks made by the poller\<close>

definition ReadReadyCallback :: "'a wrap_world_scheme js_call \<Rightarrow> nat \<Rightarrow> ('a wrap_world_scheme, unit) prog" where
  "ReadReadyCallback js data = after (unwrap data) (\<lambda>wrap. call_handle js (onRecvCallback wrap) [])"

definition WriteReadyCallback :: "'a wrap_world_scheme js_call \<Rightarrow> nat \<Rightarrow> ('a wrap_world_scheme, unit) prog" where
  "WriteReadyCallback js data = after (unwrap data) (\<lambda>wrap. call_handle js (onSendCallback wrap) [])"

definition ErrorCallback ::
  "'a wrap_world_scheme js_call \<Rightarrow> nat \<Rightarrow> string \<Rightarrow> ('a wrap_world_scheme, unit) prog" where
  "ErrorCallback js data error =
     after (unwrap data) (\<lambda>wrap. call_handle js (onErrorCallback wrap) [JString error])"

text \<open>A call through a function pointer of the poller\<close>

definition call_fnptr ::
  "'a wrap_world_scheme js_call \<Rightarrow> fnptr \<Rightarrow> nat \<Rightarrow> string option \<Rightarrow> ('a wrap_world_scheme, unit) prog" where
  "call_fnptr js f data msg =
     (case f of
        ReadReadyCallback_ptr \<Rightarrow> ReadReadyCallback js data
      | WriteReadyCallback_ptr \<Rightarrow> WriteReadyCallback js data
      | ErrorCallback_ptr \<Rightarrow> ErrorCallback js data (case msg of None \<Rightarrow> [] | Some s \<Rightarrow> s))"

definition watcher_event ::
  "env \<Rightarrow> 'a wrap_world_scheme js_call \<Rightarrow> nat \<Rightarrow> i32 \<Rightarrow> i32 \<Rightarrow> ('a wrap_world_scheme, unit) prog" where
  "watcher_event E js watcher status revents = io_event_wrapper E (call_fnptr js) watcher status revents"

section \<open>Construction and destruction\<close>

fun is_function :: "js_value \<Rightarrow> bool" where
  "is_function (JFunction _) = True"
| "is_function _ = False"

fun function_id :: "js_value \<Rightarrow> nat option" where
  "function_id (JFunction f) = Some f"
| "function_id _ = None"

text \<open>The constructor: the address of \<open>this\<close> is known to the poller before it returns.\<close>

definition Wrapper_new_with ::
  "'a wrap_world_scheme socket_class \<Rightarrow> 'a wrap_world_scheme poller_class \<Rightarrow>
   js_value \<Rightarrow> ('a wrap_world_scheme, nat) prog" where
  "Wrapper_new_with S P options =
     after new_addr (\<lambda>this.
     case get_property options ''device'' of
       JString device_string \<Rightarrow>
         if \<not> is_function (get_property options ''onRecv'')
         then throw (Invalid_argument ''Options should have callback onRecv property'')
         else if \<not> is_function (get_property options ''onSend'')
         then throw (Invalid_argument ''Options should have callback onSend property'')
         else if \<not> is_function (get_property options ''onError'')
         then throw (Invalid_argument ''Options should have callback onError property'')
         else
           after (new_Socket S (c_str device_string)) (\<lambda>sock.
           after (call_get_descriptor S sock) (\<lambda>descriptor.
           after (new_UvPoller P descriptor
                    ReadReadyCallback_ptr WriteReadyCallback_ptr ErrorCallback_ptr this) (\<lambda>poller.
           after (put_wrapper this (Some
             \<lparr>onSendCallback = function_id (get_property options ''onSend''),
              onRecvCallback = function_id (get_property options ''onRecv''),
              onErrorCallback = function_id (get_property options ''onError''),
              wsocket = sock, wpoller = poller\<rparr>)) (\<lambda>_.
           give this))))
     | _ \<Rightarrow> throw (Invalid_argument ''Options should have string device property''))"

text \<open>The destructor runs when the garbage collector finds the JavaScript object dead.\<close>

definition Wrapper_delete_with ::
  "'a wrap_world_scheme socket_class \<Rightarrow> 'a wrap_world_scheme poller_class \<Rightarrow>
   nat \<Rightarrow> ('a wrap_world_scheme, unit) prog" where
  "Wrapper_delete_with S P obj =
     after (unwrap obj) (\<lambda>this.
     after (put_wrapper obj (Some (this\<lparr>onRecvCallback := None, onSendCallback := None,
                                        onErrorCallback := None\<rparr>))) (\<lambda>_.
     after (delete_Poller P (wpoller this)) (\<lambda>_.
     after (delete_Socket S (wsocket this)) (\<lambda>_.
     put_wrapper obj None))))"

text \<open>\<open>Wrapper::New\<close> of a construct call: the options are checked again in C++.\<close>

definition New_construct_with ::
  "'a wrap_world_scheme socket_class \<Rightarrow> 'a wrap_world_scheme poller_class \<Rightarrow>
   js_value list \<Rightarrow> ('a wrap_world_scheme, js_value) prog" where
  "New_construct_with S P info =
     (if arg info 0 \<in> {JUndefined, JNull}
      then throw (JS_Error ''Missing options object'')
      else let options = arg info 0 in
      if own_property options ''device'' = None
      then throw (JS_TypeError ''Options should have device property'')
      else if own_property options ''onRecv'' = None
      then throw (JS_TypeError ''Options should have onRecv property'')
      else if own_property options ''onSend'' = None
      then throw (JS_TypeError ''Options should have onSend property'')
      else if own_property options ''onError'' = None
      then throw (JS_TypeError ''Options should have onError property'')
      else catch_std (after (Wrapper_new_with S P options) (\<lambda>obj. give (JWrapped obj)))
             (\<lambda>e. throw (JS_Error e)))"

text \<open>Called without \<open>new\<close> it calls the constructor with its first argument and passes on what
  that throws.\<close>

definition New_with ::
  "'a wrap_world_scheme socket_class \<Rightarrow> 'a wrap_world_scheme poller_class \<Rightarrow>
   bool \<Rightarrow> js_value list \<Rightarrow> ('a wrap_world_scheme, js_value) prog" where
  "New_with S P is_construct_call info =
     (if is_construct_call then New_construct_with S P info
      else New_construct_with S P [arg info 0])"

definition Close_with ::
  "'a wrap_world_scheme poller_class \<Rightarrow>
   nat \<Rightarrow> ('a wrap_world_scheme, js_value) prog" where
  "Close_with P obj =
     after (unwrap obj) (\<lambda>this.
     after (delete_Poller P (wpoller this)) (\<lambda>_.
     after (new_NullPoller P) (\<lambda>p.
     after (put_wrapper obj (Some (this\<lparr>wpoller := p\<rparr>))) (\<lambda>_.
     give JUndefined))))"

section \<open>Group membership\<close>

definition ParseMembershipArguments ::
  "js_value list \<Rightarrow> i32 \<times> ptr \<Rightarrow> ('w, i32 \<times> ptr) prog" where
  "ParseMembershipArguments info out =
     (case out of (type, address) \<Rightarrow>
      if length info = 0
      then throw (Invalid_argument ''Missing type or address argument'')
      else case arg info 0 of
        JBuffer data n \<Rightarrow>
          if n < ETHER_ADDR_LEN then throw (Invalid_argument ''Invalid address length'')
          else give (type, data)
      | JNumber x \<Rightarrow> give (to_int32 x, address)
      | _ \<Rightarrow> throw (Invalid_argument ''Invalid address length''))"

definition AddMembership_with ::
  "'a wrap_world_scheme socket_class \<Rightarrow>
   nat \<Rightarrow> js_value list \<Rightarrow> ('a wrap_world_scheme, js_value) prog" where
  "AddMembership_with S obj info =
     after (unwrap obj) (\<lambda>this.
     catch_std
       (after (ParseMembershipArguments info (MULTICAST, NULL)) (\<lambda>(type, address).
        after (call_add_membership S (wsocket this) type address) (\<lambda>_.
        give JUndefined)))
       (\<lambda>e. throw (JS_Error e)))"

definition DropMembership_with ::
  "'a wrap_world_scheme socket_class \<Rightarrow>
   nat \<Rightarrow> js_value list \<Rightarrow> ('a wrap_world_scheme, js_value) prog" where
  "DropMembership_with S obj info =
     after (unwrap obj) (\<lambda>this.
     catch_std
       (after (ParseMembershipArguments info (MULTICAST, NULL)) (\<lambda>(type, address).
        after (call_drop_membership S (wsocket this) type address) (\<lambda>_.
        give JUndefined)))
       (\<lambda>e. throw (JS_Error e)))"

section \<open>Receiving\<close>

text \<open>
  \<open>Nan::NewBuffer\<close> of a block takes it over and makes a Buffer of \<open>n\<close> bytes, or fails.  It does not look at
  the block, so it makes a Buffer over a freed or shorter one too; a read through such a Buffer is undefined.
\<close>

definition new_buffer :: "env \<Rightarrow> ptr \<Rightarrow> u32 \<Rightarrow> ('a world_scheme, js_value option) prog" where
  "new_buffer E p n =
     after (syscall (\<lambda>h. nan_new_buffer E h p n) (Ev_new_buffer p n))
       (\<lambda>ok. give (if ok then Some (JBuffer p (unat n)) else None))"

text \<open>The three buffers, each failure releasing those before it\<close>

definition Receive_buffers :: "env \<Rightarrow> ('a world_scheme, ptr \<times> ptr \<times> ptr) prog" where
  "Receive_buffers E =
     after (malloc E (of_nat ETHER_ADDR_LEN)) (\<lambda>source_address.
     if source_address = NULL
     then throw (JS_Error ''Memory allocation for source address failed'') else
     after (malloc E (of_nat ETHER_ADDR_LEN)) (\<lambda>destination_address.
     if destination_address = NULL
     then after (free source_address) (\<lambda>_.
          throw (JS_Error ''Memory allocation for destination address failed'')) else
     after (malloc E (scast MAX_RECEIVE_BUFFER_SIZE)) (\<lambda>message_buffer.
     if message_buffer = NULL
     then after (free source_address) (\<lambda>_. after (free destination_address) (\<lambda>_.
          throw (JS_Error ''Memory allocation for buffer failed'')))
     else give (source_address, destination_address, message_buffer))))"

text \<open>Shrinking the message and handing the three blocks to JavaScript\<close>

definition Receive_deliver ::
  "env \<Rightarrow> 'a world_scheme js_call \<Rightarrow> nat \<Rightarrow> ptr \<times> ptr \<times> ptr \<Rightarrow> i32 \<Rightarrow> ('a world_scheme, js_value) prog" where
  "Receive_deliver E js callback bufs received_bytes =
     (case bufs of (source_address, destination_address, message_buffer) \<Rightarrow>
      after (realloc E message_buffer (scast received_bytes)) (\<lambda>tmp_buff.
      let message_buffer = (if tmp_buff \<noteq> NULL then tmp_buff else message_buffer) in
      after (new_buffer E source_address (of_nat ETHER_ADDR_LEN)) (\<lambda>source_node_buffer.
      after (new_buffer E destination_address (of_nat ETHER_ADDR_LEN)) (\<lambda>destination_node_buffer.
      after (new_buffer E message_buffer received_bytes) (\<lambda>message_node_buffer.
      case (source_node_buffer, destination_node_buffer, message_node_buffer) of
        (Some src, Some dst, Some msg) \<Rightarrow>
          after (call_js js callback [src, dst, msg]) (\<lambda>_. give JUndefined)
      | _ \<Rightarrow> throw (JS_Error ''Failed to create buffer object''))))))"

definition Receive_with ::
  "'a wrap_world_scheme socket_class \<Rightarrow>
   env \<Rightarrow> 'a wrap_world_scheme js_call \<Rightarrow> nat \<Rightarrow> js_value list \<Rightarrow> ('a wrap_world_scheme, js_value) prog" where
  "Receive_with S E js obj info =
     after (unwrap obj) (\<lambda>this.
     if length info \<noteq> 1 then throw (JS_Error ''One argument required'') else
     case arg info 0 of
       JFunction callback \<Rightarrow>
         after (Receive_buffers E) (\<lambda>(source_address, destination_address, message_buffer).
         after
           (catch_std
             (call_receive_message S (wsocket this) source_address destination_address message_buffer
                MAX_RECEIVE_BUFFER_SIZE)
             (\<lambda>e. after (free destination_address) (\<lambda>_. after (free source_address) (\<lambda>_.
                  after (free message_buffer) (\<lambda>_. throw (JS_Error e)))))) (\<lambda>received_bytes.
         Receive_deliver E js callback (source_address, destination_address, message_buffer)
           received_bytes))
     | _ \<Rightarrow> throw (JS_TypeError ''Callback argument has to be function''))"

section \<open>Sending\<close>

definition Send_with ::
  "'a wrap_world_scheme socket_class \<Rightarrow>
   'a wrap_world_scheme js_call \<Rightarrow> nat \<Rightarrow> js_value list \<Rightarrow> ('a wrap_world_scheme, js_value) prog" where
  "Send_with S js obj info =
     after (unwrap obj) (\<lambda>this.
     if length info \<noteq> 3 then throw (JS_Error ''Three arguments required'') else
     case arg info 0 of
       JBuffer message message_length \<Rightarrow>
         (case arg info 1 of
            JBuffer address address_length \<Rightarrow>
              if address_length \<noteq> ETHER_ADDR_LEN
              then throw (JS_TypeError ''Address argument invalid length'')
              else
              (case arg info 2 of
                 JFunction callback \<Rightarrow>
                   after
                     (catch_std
                       (call_send_message S (wsocket this) address message (of_nat message_length))
                       (\<lambda>e. throw (JS_Error e))) (\<lambda>send_bytes.
                   after (call_js js callback [js_int (sint send_bytes)]) (\<lambda>_.
                   give JUndefined))
               | _ \<Rightarrow> throw (JS_TypeError ''Callback argument has to be function''))
          | _ \<Rightarrow> throw (JS_TypeError ''Address argument has to be buffer''))
     | _ \<Rightarrow> throw (JS_TypeError ''Message argument has to be buffer''))"

definition PauseSending_with ::
  "'a wrap_world_scheme poller_class \<Rightarrow>
   nat \<Rightarrow> ('a wrap_world_scheme, js_value) prog" where
  "PauseSending_with P obj =
     after (unwrap obj) (\<lambda>this.
     after (call_set_events P (wpoller this) READ_EVENT) (\<lambda>_. give JUndefined))"

definition ResumeSending_with ::
  "'a wrap_world_scheme poller_class \<Rightarrow>
   nat \<Rightarrow> ('a wrap_world_scheme, js_value) prog" where
  "ResumeSending_with P obj =
     after (unwrap obj) (\<lambda>this.
     after (call_set_events P (wpoller this) RW_EVENT) (\<lambda>_. give JUndefined))"

section \<open>The module\<close>

text \<open>\<open>Wrapper::Init\<close> fills the prototype by name and exports the constructor and two constants.\<close>

datatype native = New_fn | Close_fn | AddMembership_fn | DropMembership_fn | Send_fn | Receive_fn
  | PauseSending_fn | ResumeSending_fn

datatype export = Export_constructor string native | Export_integer i32

definition Init :: "(string \<times> native) list \<times> (string \<times> export) list" where
  "Init =
     ([(''Close'', Close_fn),
       (''AddMembership'', AddMembership_fn),
       (''DropMembership'', DropMembership_fn),
       (''Send'', Send_fn),
       (''Receive'', Receive_fn),
       (''PauseSending'', PauseSending_fn),
       (''ResumeSending'', ResumeSending_fn)],
      [(''Wrapper'', Export_constructor ''Wrapper'' New_fn),
       (''PROMISCIOUS'', Export_integer PROMISCIOUS),
       (''ALL_MULTICAST'', Export_integer ALL_MULTICAST)])"

definition call_native_with ::
  "'a wrap_world_scheme socket_class \<Rightarrow> 'a wrap_world_scheme poller_class \<Rightarrow>
   env \<Rightarrow> 'a wrap_world_scheme js_call \<Rightarrow> native \<Rightarrow> nat \<Rightarrow> js_value list \<Rightarrow> ('a wrap_world_scheme, js_value) prog" where
  "call_native_with S P E js f obj info =
     (case f of
        New_fn \<Rightarrow> New_with S P False info
      | Close_fn \<Rightarrow> Close_with P obj
      | AddMembership_fn \<Rightarrow> AddMembership_with S obj info
      | DropMembership_fn \<Rightarrow> DropMembership_with S obj info
      | Send_fn \<Rightarrow> Send_with S js obj info
      | Receive_fn \<Rightarrow> Receive_with S E js obj info
      | PauseSending_fn \<Rightarrow> PauseSending_with P obj
      | ResumeSending_fn \<Rightarrow> ResumeSending_with P obj)"

text \<open>A method call \<open>wrap.name(...)\<close> from JavaScript looks the name up in the prototype.\<close>

definition call_method_with ::
  "'a wrap_world_scheme socket_class \<Rightarrow> 'a wrap_world_scheme poller_class \<Rightarrow>
   env \<Rightarrow> 'a wrap_world_scheme js_call \<Rightarrow> string \<Rightarrow> nat \<Rightarrow> js_value list \<Rightarrow> ('a wrap_world_scheme, js_value) prog" where
  "call_method_with S P E js name obj info =
     (case map_of (fst Init) name of
        None \<Rightarrow> throw (JS_TypeError (name @ '' is not a function''))
      | Some f \<Rightarrow> call_native_with S P E js f obj info)"

section \<open>The methods of the addon\<close>

definition Wrapper_new ::
  "env \<Rightarrow> js_value \<Rightarrow> ('a wrap_world_scheme, nat) prog" where
  "Wrapper_new E options = Wrapper_new_with (program_Socket E) program_Poller options"

definition Wrapper_delete ::
  "env \<Rightarrow> nat \<Rightarrow> ('a wrap_world_scheme, unit) prog" where
  "Wrapper_delete E obj = Wrapper_delete_with (program_Socket E) program_Poller obj"

definition New_construct ::
  "env \<Rightarrow> js_value list \<Rightarrow> ('a wrap_world_scheme, js_value) prog" where
  "New_construct E info = New_construct_with (program_Socket E) program_Poller info"

definition New ::
  "env \<Rightarrow> bool \<Rightarrow> js_value list \<Rightarrow> ('a wrap_world_scheme, js_value) prog" where
  "New E is_construct_call info = New_with (program_Socket E) program_Poller is_construct_call info"

definition Close :: "nat \<Rightarrow> ('a wrap_world_scheme, js_value) prog" where
  "Close obj = Close_with program_Poller obj"

definition AddMembership ::
  "env \<Rightarrow> nat \<Rightarrow> js_value list \<Rightarrow> ('a wrap_world_scheme, js_value) prog" where
  "AddMembership E obj info = AddMembership_with (program_Socket E) obj info"

definition DropMembership ::
  "env \<Rightarrow> nat \<Rightarrow> js_value list \<Rightarrow> ('a wrap_world_scheme, js_value) prog" where
  "DropMembership E obj info = DropMembership_with (program_Socket E) obj info"

definition Receive ::
  "env \<Rightarrow> 'a wrap_world_scheme js_call \<Rightarrow> nat \<Rightarrow> js_value list \<Rightarrow> ('a wrap_world_scheme, js_value) prog" where
  "Receive E js obj info = Receive_with (program_Socket E) E js obj info"

definition Send ::
  "env \<Rightarrow> 'a wrap_world_scheme js_call \<Rightarrow> nat \<Rightarrow> js_value list \<Rightarrow> ('a wrap_world_scheme, js_value) prog" where
  "Send E js obj info = Send_with (program_Socket E) js obj info"

definition PauseSending :: "nat \<Rightarrow> ('a wrap_world_scheme, js_value) prog" where
  "PauseSending obj = PauseSending_with program_Poller obj"

definition ResumeSending :: "nat \<Rightarrow> ('a wrap_world_scheme, js_value) prog" where
  "ResumeSending obj = ResumeSending_with program_Poller obj"

definition call_native ::
  "env \<Rightarrow> 'a wrap_world_scheme js_call \<Rightarrow> native \<Rightarrow> nat \<Rightarrow> js_value list \<Rightarrow> ('a wrap_world_scheme, js_value) prog" where
  "call_native E js f obj info = call_native_with (program_Socket E) program_Poller E js f obj info"

definition call_method ::
  "env \<Rightarrow> 'a wrap_world_scheme js_call \<Rightarrow> string \<Rightarrow> nat \<Rightarrow> js_value list \<Rightarrow> ('a wrap_world_scheme, js_value) prog" where
  "call_method E js name obj info = call_method_with (program_Socket E) program_Poller E js name obj info"

text \<open>Their bodies, with the calls of the classes of \<open>src\<close>\<close>

lemmas Wrapper_new_eq = Wrapper_new_def [unfolded Wrapper_new_with_def program_members after_give]
lemmas Wrapper_delete_eq = Wrapper_delete_def [unfolded Wrapper_delete_with_def program_members after_give]
lemmas New_construct_eq = New_construct_def [unfolded New_construct_with_def program_members after_give Wrapper_new_def [symmetric]]
lemmas New_eq = New_def [unfolded New_with_def program_members after_give New_construct_def [symmetric]]
lemmas Close_eq = Close_def [unfolded Close_with_def program_members after_give]
lemmas AddMembership_eq = AddMembership_def [unfolded AddMembership_with_def program_members after_give]
lemmas DropMembership_eq = DropMembership_def [unfolded DropMembership_with_def program_members after_give]
lemmas Receive_eq = Receive_def [unfolded Receive_with_def program_members after_give]
lemmas Send_eq = Send_def [unfolded Send_with_def program_members after_give]
lemmas PauseSending_eq = PauseSending_def [unfolded PauseSending_with_def program_members after_give]
lemmas ResumeSending_eq = ResumeSending_def [unfolded ResumeSending_with_def program_members after_give]
lemmas call_native_eq = call_native_def [unfolded call_native_with_def New_def [symmetric] Close_def [symmetric]
  AddMembership_def [symmetric] DropMembership_def [symmetric] Send_def [symmetric] Receive_def [symmetric]
  PauseSending_def [symmetric] ResumeSending_def [symmetric]]
lemmas call_method_eq = call_method_def [unfolded call_method_with_def program_members after_give call_native_def [symmetric]]

end
