(* ===== verification/Js_Socket.thy ===== *)
theory Js_Socket
  imports Wrapper
begin

text \<open>
  The JavaScript side, \<open>socket.js\<close>: the constructor \<open>Socket\<close> with its three handlers, the methods
  \<open>send\<close>, \<open>close\<close>, \<open>joinMC\<close> and \<open>leaveMC\<close>, and the conversion of addresses.  A function expression
  that is evaluated makes a new function object; the table \<open>fn_objects\<close> says what each function is
  and what its scope holds.  Code of the user is the parameter \<open>user_code\<close>: it may run any program.
  The theorems are in \<open>Js_Socket_Facts\<close> and
  \<open>Js_Socket_Methods\<close>.
\<close>

section \<open>State\<close>

record request =
  buffer :: js_value
  address :: js_value
  afterCallback :: js_value

text \<open>A \<open>Socket\<close> object: its own properties, and the listeners it has as an \<open>EventEmitter\<close>, in the order
  of their registration.  \<open>wrap\<close> is \<open>None\<close> until it is assigned.\<close>

record js_socket =
  requests :: "request list"
  wrap :: "nat option"
  listeners :: "(string \<times> nat) list"

datatype closure =
    User nat
  | OnRecv nat
  | OnSend nat
  | OnError nat
  | RecvCallback nat
  | SendCallback nat request

record js_world = wrap_world +
  js_sockets :: "nat \<rightharpoonup> js_socket"
  fn_objects :: "nat \<rightharpoonup> closure"
  next_fn :: nat

text \<open>
  What the engine and the user supply: a function of the user, called with \<open>this\<close> and its arguments;
  \<open>ToNumber\<close> of strings and objects; the bytes that an object with \<open>indexOf\<close> and \<open>map\<close> of its own (a
  \<open>Uint8Array\<close>, say) comes to as an address, or the text of the error if it has none; the text of the
  error thrown for an \<open>'error'\<close> event that nobody listens to and whose value is not an error object.
\<close>

record js_env =
  user_code :: "nat \<Rightarrow> js_value \<Rightarrow> js_value list \<Rightarrow> (js_world, js_value) prog"
  to_number :: "js_value \<Rightarrow> js_number"
  object_bytes :: "js_value \<Rightarrow> string + byte list"
  unhandled_text :: "js_value \<Rightarrow> string"

section \<open>The language\<close>

text \<open>\<open>catch (error)\<close> of JavaScript: a C++ exception is not one of its errors.\<close>

definition catch_js :: "('w, 'b) prog \<Rightarrow> (error \<Rightarrow> ('w, 'b) prog) \<Rightarrow> ('w, 'b) prog" where
  "catch_js m h = State (\<lambda>w. case run_state m w of
     (Inl (JS_Error e), w') \<Rightarrow> run_state (h (JS_Error e)) w'
   | (Inl (JS_TypeError e), w') \<Rightarrow> run_state (h (JS_TypeError e)) w'
   | r \<Rightarrow> r)"

definition new_function :: "closure \<Rightarrow> (js_world, nat) prog" where
  "new_function c = State (\<lambda>w. (Inr (next_fn w),
     w\<lparr>fn_objects := (fn_objects w)(next_fn w \<mapsto> c), next_fn := Suc (next_fn w)\<rparr>))"

text \<open>A read of an object that is there as long as anybody knows it\<close>

definition get_socket :: "nat \<Rightarrow> (js_world, js_socket) prog" where
  "get_socket s = State (\<lambda>w. (case js_sockets w s of
       None \<Rightarrow> Inl (JS_TypeError ''not an object'') | Some S \<Rightarrow> Inr S, w))"

definition put_socket :: "nat \<Rightarrow> js_socket \<Rightarrow> (js_world, unit) prog" where
  "put_socket s S = modify (\<lambda>w. w\<lparr>js_sockets := (js_sockets w)(s \<mapsto> S)\<rparr>)"

text \<open>A call of a value that came from the user.  The texts of the engine's own errors are not those of
  any version.\<close>

definition call_value :: "js_env \<Rightarrow> js_value \<Rightarrow> js_value \<Rightarrow> js_value list \<Rightarrow> (js_world, js_value) prog" where
  "call_value X v this args =
     (case v of
        JFunction f \<Rightarrow>
          after (gets (\<lambda>w. fn_objects w f)) (\<lambda>c.
          case c of
            Some (User u) \<Rightarrow> after (log (Ev_js f args)) (\<lambda>_. user_code X u this args)
          | _ \<Rightarrow> throw (JS_TypeError ''not a function of the user''))
      | _ \<Rightarrow> throw (JS_TypeError ''not a function''))"

text \<open>\<open>EventEmitter.emit\<close> calls the listeners of the event in order; an \<open>'error'\<close> event without a listener
  is thrown.\<close>

definition emit :: "js_env \<Rightarrow> nat \<Rightarrow> string \<Rightarrow> js_value list \<Rightarrow> (js_world, js_value) prog" where
  "emit X s event args =
     after (get_socket s) (\<lambda>me.
     let fs = map snd (filter (\<lambda>l. fst l = event) (listeners me)) in
     if fs = [] then
       (if event = ''error''
        then throw (case arg args 0 of JError e \<Rightarrow> e | v \<Rightarrow> JS_Error (unhandled_text X v))
        else give (JBool False))
     else
       after (each (\<lambda>f. after (call_value X (JFunction f) (JInstance s) args) (\<lambda>_. give ())) fs) (\<lambda>_.
       give (JBool True)))"

text \<open>\<open>EventEmitter.on\<close>\<close>

definition on :: "nat \<Rightarrow> string \<Rightarrow> nat \<Rightarrow> (js_world, js_value) prog" where
  "on s event f =
     after (get_socket s) (\<lambda>me.
     after (put_socket s (me\<lparr>listeners := listeners me @ [(event, f)]\<rparr>)) (\<lambda>_. give (JInstance s)))"

section \<open>Addresses\<close>

definition hex_digit :: "char \<Rightarrow> nat option" where
  "hex_digit c =
     (let n = of_char c :: nat in
      if 48 \<le> n \<and> n \<le> 57 then Some (n - 48)
      else if 97 \<le> n \<and> n \<le> 102 then Some (n - 87)
      else if 65 \<le> n \<and> n \<le> 70 then Some (n - 55)
      else None)"

definition is_space :: "char \<Rightarrow> bool" where
  "is_space c \<longleftrightarrow> (of_char c :: nat) \<in> {9, 10, 11, 12, 13, 32, 160}"

text \<open>The double nearest to a natural number, ties to even\<close>

fun bit_length :: "nat \<Rightarrow> nat" where
  "bit_length 0 = 0"
| "bit_length (Suc n) = Suc (bit_length (Suc n div 2))"

definition double_of_nat :: "nat \<Rightarrow> js_number" where
  "double_of_nat n =
     (if n < 2 ^ 53 then JFinite (int n) 0
      else let k = bit_length n - 53; q = n div 2 ^ k; r = n mod 2 ^ k;
               q' = (if 2 * r > 2 ^ k \<or> 2 * r = 2 ^ k \<and> odd q then q + 1 else q) in
           if q' * 2 ^ k \<ge> 2 ^ 1024 then JInfinity True else JFinite (int q') (int k))"

fun negate :: "js_number \<Rightarrow> js_number" where
  "negate JNaN = JNaN"
| "negate (JInfinity b) = JInfinity (\<not> b)"
| "negate (JFinite m e) = JFinite (- m) e"

fun hex_value :: "nat \<Rightarrow> string \<Rightarrow> nat" where
  "hex_value acc [] = acc"
| "hex_value acc (c # cs) =
     (case hex_digit c of None \<Rightarrow> acc | Some d \<Rightarrow> hex_value (16 * acc + d) cs)"

text \<open>\<open>parseInt(v, 16)\<close>: white space, a sign, \<open>0x\<close>, then the longest run of digits; none is \<open>NaN\<close>.\<close>

definition parse_hex_digits :: "string \<Rightarrow> js_number" where
  "parse_hex_digits s =
     (let t = (case s of c # d # r \<Rightarrow> if c = CHR ''0'' \<and> d \<in> {CHR ''x'', CHR ''X''} then r else s | _ \<Rightarrow> s) in
      if t = [] \<or> hex_digit (hd t) = None then JNaN else double_of_nat (hex_value 0 t))"

definition parseInt16 :: "string \<Rightarrow> js_number" where
  "parseInt16 s =
     (case dropWhile is_space s of
        [] \<Rightarrow> JNaN
      | c # r \<Rightarrow> if c = CHR ''-'' then negate (parse_hex_digits r)
                 else if c = CHR ''+'' then parse_hex_digits r
                 else parse_hex_digits (c # r))"

fun split_colon :: "string \<Rightarrow> string list" where
  "split_colon [] = [[]]"
| "split_colon (c # cs) =
     (if c = CHR '':'' then [] # split_colon cs
      else case split_colon cs of [] \<Rightarrow> [[c]] | p # ps \<Rightarrow> (c # p) # ps)"

text \<open>An element of an array handed to \<open>new Buffer\<close>: converted to a number, then modulo 256\<close>

definition octet :: "js_env \<Rightarrow> js_value \<Rightarrow> byte" where
  "octet X v = ucast (to_int32
     (case v of
        JNumber x \<Rightarrow> x
      | JUndefined \<Rightarrow> JNaN
      | JNull \<Rightarrow> JFinite 0 0
      | JBool b \<Rightarrow> JFinite (of_bool b) 0
      | _ \<Rightarrow> to_number X v))"

definition new_Buffer :: "byte list \<Rightarrow> ('a world_scheme, js_value) prog" where
  "new_Buffer bs = State (\<lambda>w. (Inr (JBuffer (Ptr (next_blk w) 0) (length bs)),
     w\<lparr>heap := (heap w)(next_blk w \<mapsto> bs), next_blk := Suc (next_blk w)\<rparr>))"

text \<open>
  Strings have the method \<open>indexOf\<close> and no method \<open>map\<close>; \<open>undefined\<close>, \<open>null\<close>, Booleans and numbers have
  neither; what the methods of any other object come to is the user's.
\<close>

definition addressToBuffer :: "js_env \<Rightarrow> js_value \<Rightarrow> ('a world_scheme, js_value) prog" where
  "addressToBuffer X addr =
     (case addr of
        JBuffer _ _ \<Rightarrow> give addr
      | JArray vs \<Rightarrow> new_Buffer (map (octet X) vs)
      | JString str \<Rightarrow>
          if CHR '':'' \<in> set str
          then new_Buffer (map (\<lambda>v. octet X (JNumber (parseInt16 v))) (split_colon str))
          else throw (JS_TypeError ''addr.map is not a function'')
      | JUndefined \<Rightarrow> throw (JS_TypeError ''addr is undefined'')
      | JNull \<Rightarrow> throw (JS_TypeError ''addr is null'')
      | JBool _ \<Rightarrow> throw (JS_TypeError ''addr.indexOf is not a function'')
      | JNumber _ \<Rightarrow> throw (JS_TypeError ''addr.indexOf is not a function'')
      | _ \<Rightarrow>
          (case object_bytes X addr of
             Inl msg \<Rightarrow> throw (JS_TypeError msg)
           | Inr bs \<Rightarrow> new_Buffer bs))"

text \<open>\<open>toString('hex')\<close> of a Buffer, and the \<open>replace\<close> that puts colons between the pairs: a match needs
  two characters, and two more at the end of what follows.\<close>

definition hex_char :: "nat \<Rightarrow> char" where
  "hex_char d = char_of (if d < 10 then 48 + d else 87 + d)"

definition to_hex :: "byte list \<Rightarrow> string" where
  "to_hex bs = concat (map (\<lambda>b. [hex_char (unat b div 16), hex_char (unat b mod 16)]) bs)"

fun insert_colons :: "string \<Rightarrow> string" where
  "insert_colons (a # b # rest) =
     (if 2 \<le> length rest then a # b # CHR '':'' # insert_colons rest
      else a # insert_colons (b # rest))"
| "insert_colons s = s"

definition buffer_to_hex :: "js_value \<Rightarrow> ('a world_scheme, string) prog" where
  "buffer_to_hex v =
     (case v of
        JBuffer p n \<Rightarrow> after (load_bytes p n) (\<lambda>bs. give (to_hex bs))
      | _ \<Rightarrow> throw (JS_TypeError ''not a Buffer''))"

section \<open>The callbacks handed to the addon, and the addon's methods\<close>

text \<open>\<open>function(source, destination, message)\<close> of \<open>onRecv\<close>\<close>

definition recv_callback :: "js_env \<Rightarrow> nat \<Rightarrow> js_value list \<Rightarrow> (js_world, js_value) prog" where
  "recv_callback X me args =
     after (buffer_to_hex (arg args 0)) (\<lambda>source.
     after (buffer_to_hex (arg args 1)) (\<lambda>destination.
     after (emit X me ''message'' [arg args 2, JString (insert_colons source), JString (insert_colons destination)]) (\<lambda>_.
     give JUndefined)))"

text \<open>\<open>function (bytes)\<close> of \<open>onSend\<close>\<close>

definition send_callback :: "js_env \<Rightarrow> nat \<Rightarrow> request \<Rightarrow> js_value list \<Rightarrow> (js_world, js_value) prog" where
  "send_callback X me req args =
     after (call_value X (afterCallback req) (JInstance me) [JNull, arg args 0]) (\<lambda>_. give JUndefined)"

text \<open>What the methods of the addon call: the two callbacks, or a function of the user\<close>

definition js_callbacks :: "js_env \<Rightarrow> js_world js_call" where
  "js_callbacks X f args =
     after (gets (\<lambda>w. fn_objects w f)) (\<lambda>c.
     case c of
       Some (User u) \<Rightarrow> user_code X u JUndefined args
     | Some (RecvCallback me) \<Rightarrow> recv_callback X me args
     | Some (SendCallback me req) \<Rightarrow> send_callback X me req args
     | _ \<Rightarrow> throw (JS_TypeError ''not a callback of the addon''))"

text \<open>\<open>me.wrap.name(...)\<close>\<close>

definition call_wrap :: "env \<Rightarrow> js_env \<Rightarrow> nat \<Rightarrow> string \<Rightarrow> js_value list \<Rightarrow> (js_world, js_value) prog" where
  "call_wrap E X me name args =
     after (get_socket me) (\<lambda>this.
     case wrap this of
       None \<Rightarrow> throw (JS_TypeError ''wrap is undefined'')
     | Some obj \<Rightarrow> call_method E (js_callbacks X) name obj args)"

section \<open>The handlers of the constructor\<close>

definition onRecv :: "env \<Rightarrow> js_env \<Rightarrow> nat \<Rightarrow> (js_world, js_value) prog" where
  "onRecv E X me =
     catch_js
       (after (new_function (RecvCallback me)) (\<lambda>f.
        after (call_wrap E X me ''Receive'' [JFunction f]) (\<lambda>_. give JUndefined)))
       (\<lambda>error. after (emit X me ''error'' [JError error]) (\<lambda>_. give JUndefined))"

definition onSend :: "env \<Rightarrow> js_env \<Rightarrow> nat \<Rightarrow> (js_world, js_value) prog" where
  "onSend E X me =
     after (get_socket me) (\<lambda>this.
     case requests this of
       req # rest \<Rightarrow>
         after (put_socket me (this\<lparr>requests := rest\<rparr>)) (\<lambda>_.
         catch_js
           (after (new_function (SendCallback me req)) (\<lambda>f.
            after (call_wrap E X me ''Send'' [buffer req, address req, JFunction f]) (\<lambda>_. give JUndefined)))
           (\<lambda>error. after (call_value X (afterCallback req) (JInstance me) [JError error, js_int 0]) (\<lambda>_.
                    give JUndefined)))
     | [] \<Rightarrow> after (call_wrap E X me ''PauseSending'' []) (\<lambda>_. give JUndefined))"

definition onError :: "js_env \<Rightarrow> nat \<Rightarrow> js_value list \<Rightarrow> (js_world, js_value) prog" where
  "onError X me args = after (emit X me ''error'' [arg args 0]) (\<lambda>_. give JUndefined)"

text \<open>What libuv's callbacks call: the handlers, or what the addon's methods may call too\<close>

definition js_handlers :: "env \<Rightarrow> js_env \<Rightarrow> js_world js_call" where
  "js_handlers E X f args =
     after (gets (\<lambda>w. fn_objects w f)) (\<lambda>c.
     case c of
       Some (OnRecv me) \<Rightarrow> onRecv E X me
     | Some (OnSend me) \<Rightarrow> onSend E X me
     | Some (OnError me) \<Rightarrow> onError X me args
     | _ \<Rightarrow> js_callbacks X f args)"

section \<open>The constructor and the methods\<close>

definition Socket_construct :: "env \<Rightarrow> js_env \<Rightarrow> js_value \<Rightarrow> (js_world, nat) prog" where
  "Socket_construct E X options =
     after new_addr (\<lambda>me.
     after (put_socket me \<lparr>requests = [], wrap = None, listeners = []\<rparr>) (\<lambda>_.
     after (new_function (OnRecv me)) (\<lambda>on_recv.
     after (new_function (OnSend me)) (\<lambda>on_send.
     after (new_function (OnError me)) (\<lambda>on_error.
     let binding_options = JObject
           [(''device'', get_property options ''device''), (''onRecv'', JFunction on_recv),
            (''onSend'', JFunction on_send), (''onError'', JFunction on_error)] in
     after
       (catch_js
         (after (New E True [binding_options]) (\<lambda>v.
          after (get_socket me) (\<lambda>this.
          put_socket me (this\<lparr>wrap := (case v of JWrapped obj \<Rightarrow> Some obj | _ \<Rightarrow> None)\<rparr>))))
         (\<lambda>error. after (emit X me ''error'' [JError error]) (\<lambda>_. give ()))) (\<lambda>_.
     give me))))))"

definition truthy :: "js_value \<Rightarrow> bool" where
  "truthy v \<longleftrightarrow>
     (case v of
        JUndefined \<Rightarrow> False | JNull \<Rightarrow> False | JBool b \<Rightarrow> b | JString s \<Rightarrow> s \<noteq> []
      | JNumber JNaN \<Rightarrow> False | JNumber (JFinite m e) \<Rightarrow> m \<noteq> 0 | _ \<Rightarrow> True)"

definition openSocket :: "env \<Rightarrow> js_env \<Rightarrow> js_value \<Rightarrow> (js_world, js_value) prog" where
  "openSocket E X options =
     after (Socket_construct E X (if truthy options then options else JObject [])) (\<lambda>me.
     give (JInstance me))"

definition close :: "env \<Rightarrow> js_env \<Rightarrow> nat \<Rightarrow> (js_world, js_value) prog" where
  "close E X this = after (call_wrap E X this ''Close'' []) (\<lambda>_. give JUndefined)"

text \<open>\<open>joinMC\<close> and \<open>leaveMC\<close>: the address is converted inside the \<open>try\<close>.\<close>

definition change_membership ::
  "env \<Rightarrow> js_env \<Rightarrow> string \<Rightarrow> nat \<Rightarrow> js_value \<Rightarrow> (js_world, js_value) prog" where
  "change_membership E X name this addrortype =
     catch_js
       (after (case addrortype of JNumber _ \<Rightarrow> give addrortype | _ \<Rightarrow> addressToBuffer X addrortype) (\<lambda>a.
        after (call_wrap E X this name [a]) (\<lambda>_. give JUndefined)))
       (\<lambda>error. after (emit X this ''error'' [JError error]) (\<lambda>_. give JUndefined))"

definition joinMC :: "env \<Rightarrow> js_env \<Rightarrow> nat \<Rightarrow> js_value \<Rightarrow> (js_world, js_value) prog" where
  "joinMC E X this addrortype = change_membership E X ''AddMembership'' this addrortype"

definition leaveMC :: "env \<Rightarrow> js_env \<Rightarrow> nat \<Rightarrow> js_value \<Rightarrow> (js_world, js_value) prog" where
  "leaveMC E X this addrortype = change_membership E X ''DropMembership'' this addrortype"

definition send ::
  "env \<Rightarrow> js_env \<Rightarrow> nat \<Rightarrow> js_value \<Rightarrow> js_value \<Rightarrow> js_value \<Rightarrow> (js_world, js_value) prog" where
  "send E X this buf addr callback =
     after (addressToBuffer X addr) (\<lambda>addr.
     after (get_socket this) (\<lambda>me.
     after (put_socket this (me\<lparr>requests := requests me @
              [\<lparr>buffer = buf, address = addr, afterCallback = callback\<rparr>]\<rparr>)) (\<lambda>_.
     after (call_wrap E X this ''ResumeSending'' []) (\<lambda>_.
     give (JInstance this)))))"

end
