(* ===== verification/Socket_Facts.thy ===== *)
theory Socket_Facts
  imports Socket "HOL-Library.Multiset"
begin

text \<open>
  What the class \<open>Socket\<close> does: its constructor and the descriptors it holds, the Ethernet frame
  \<open>send_message\<close> puts on the wire and what it reports, what \<open>receive_message\<close> stores and returns,
  and the packet memberships.  The abstract views are the frame (\<open>ether_frame\<close>), the open
  descriptors (\<open>open_fds\<close>) and the requested memberships (\<open>memberships\<close>).
\<close>

unbundle bit_operations_syntax

section \<open>Construction and the descriptors\<close>

definition wf_socket :: "socket \<Rightarrow> bool" where
  "wf_socket s \<longleftrightarrow> length (hardware_address s) = ETHER_ADDR_LEN"

lemma Socket_setup_frame: "keeps same_resources (Socket_setup E device fd)"
  unfolding Socket_setup_def strcpy_ifr_name_def syscall_defs Let_def
  by (intro keeps_rules keeps_syscall same_resources_refl same_resources_trans)
     (auto simp: same_resources_def)

lemma Socket_setup_socket:
  "run_state (Socket_setup E device fd) w = (Inr s, w') \<Longrightarrow>
     socket_descriptor s = fd \<and> device_name s = device \<and> wf_socket s"
  by (auto simp: Socket_setup_def run_simps strcpy_ifr_name_def wf_socket_def ETHER_ADDR_LEN_def
       sys_ioctl_def run_syscall sizeof_ifru_def Let_def
      split: prod.splits sum.splits if_splits)

lemma Socket_new_fds:
  assumes "fresh_fds E" and "run_state (Socket_new E device) w = (r, w')"
  shows "case r of
      Inr s \<Rightarrow> socket_descriptor s \<notin> open_fds (trace w) \<and> wf_socket s \<and>
         open_fds (trace w') = insert (socket_descriptor s) (open_fds (trace w))
    | Inl e \<Rightarrow> \<not> is_ub e \<longrightarrow> open_fds (trace w') = open_fds (trace w)"
proof -
  let ?t = "ucast (htons ETH_P_ALL)"
  let ?fd = "os_socket E (trace w) AF_PACKET SOCK_RAW ?t"
  let ?w1 = "w\<lparr>trace := trace w @ [Ev_socket AF_PACKET SOCK_RAW ?t ?fd]\<rparr>"
  have fresh: "?fd \<notin> open_fds (trace w)" using assms(1) by (simp add: fresh_fds_def)
  show ?thesis
  proof (cases "?fd = -1")
    case True
    with assms(2) show ?thesis
      by (auto simp: Socket_new_def sys_socket_def run_syscall run_simps)
  next
    case False
    obtain q w2 where q: "run_state (Socket_setup E device ?fd) ?w1 = (q, w2)" by fastforce
    have "open_fds (trace w2) = insert ?fd (open_fds (trace w))"
      using keepsD [OF Socket_setup_frame q] False by (simp add: same_resources_def)
    with assms(2) q False fresh show ?thesis
      by (cases q) (auto simp: Socket_new_def sys_socket_def sys_close_def run_syscall run_simps
          dest: Socket_setup_socket split: if_splits)
  qed
qed

text \<open>
  C28. The constructor owns exactly the descriptor it opened.  When it returns, the program holds one
  descriptor more, which was not open before, and the object knows it; when it throws, whichever of
  the six system calls failed, the set of open descriptors is the one from before.
\<close>

theorem Socket_new_descriptors:
  assumes "fresh_fds E" and "run_state (Socket_new E device) w = (r, w')"
  shows "case r of
      Inr s \<Rightarrow> socket_descriptor s \<notin> open_fds (trace w) \<and> wf_socket s \<and>
         open_fds (trace w') = insert (socket_descriptor s) (open_fds (trace w))
    | Inl e \<Rightarrow> \<not> is_ub e \<longrightarrow> open_fds (trace w') = open_fds (trace w)"
  by (rule Socket_new_fds [OF assms])

text \<open>
  C30. Undefined behaviour in the constructor has one cause: \<open>strcpy\<close> of a device name of 16 or
  more characters into \<open>ifr_name\<close>, reached as soon as the socket is open and non-blocking.
\<close>

theorem Socket_new_overflow:
  fixes E :: env and w :: "'a world_scheme"
  defines "fd \<equiv> os_socket E (trace w) AF_PACKET SOCK_RAW (ucast (htons ETH_P_ALL))"
  defines "h1 \<equiv> trace w @ [Ev_socket AF_PACKET SOCK_RAW (ucast (htons ETH_P_ALL)) fd]"
  defines "flag \<equiv> os_fcntl E h1 fd F_GETFL 0"
  defines "h2 \<equiv> h1 @ [Ev_fcntl fd F_GETFL 0 flag]"
  shows "(\<exists>u. fst (run_state (Socket_new E device) w) = Inl (Undefined u)) \<longleftrightarrow>
    IFNAMSIZ \<le> length device \<and> fd \<noteq> -1 \<and> flag \<noteq> -1 \<and>
    os_fcntl E h2 fd F_SETFL (flag OR O_NONBLOCK) \<noteq> -1"
  unfolding fd_def h1_def h2_def flag_def
  by (auto simp: Socket_new_def Socket_setup_def syscall_defs run_syscall run_simps strcpy_ifr_name_def
        Let_def split: prod.splits sum.splits if_splits)

text \<open>
  C29. A constructor that returns has made the calls of the source in their order, each of them
  successful, with the flags, the device name, the interface index and the hardware address passed on
  from one call to the next, and has bound the socket to all protocols of that interface.
\<close>

theorem Socket_new_success:
  assumes "run_state (Socket_new E device) w = (Inr s, w')"
  shows "\<exists>flag rc1 ifr1 rc2 ifr2 rc3 ifr3 addr rc4.
    trace w' = trace w @
      [Ev_socket AF_PACKET SOCK_RAW (ucast (htons ETH_P_ALL)) (socket_descriptor s),
       Ev_fcntl (socket_descriptor s) F_GETFL 0 flag,
       Ev_fcntl (socket_descriptor s) F_SETFL (flag OR O_NONBLOCK) rc1,
       Ev_ioctl (socket_descriptor s) SIOCGIFINDEX ifr1 rc2 ifr2,
       Ev_ioctl (socket_descriptor s) SIOCGIFHWADDR ifr2 rc3 ifr3,
       Ev_bind (socket_descriptor s) addr sizeof_sockaddr_ll rc4] \<and>
    -1 \<notin> {socket_descriptor s, flag, rc1, rc2, rc3, rc4} \<and>
    ifr_name ifr1 = device \<and> ifr_name ifr2 = device \<and> device_name s = device \<and> length device < IFNAMSIZ \<and>
    interface_index s = load32 (ifr_ifru ifr2) \<and>
    hardware_address s = take ETHER_ADDR_LEN (drop 2 (ifr_ifru ifr3)) \<and>
    sll_family addr = 17 \<and> sll_protocol addr = htons ETH_P_ALL \<and> sll_ifindex addr = interface_index s \<and>
    heap w' = heap w"
  using assms
  by (auto simp: Socket_new_def Socket_setup_def syscall_defs run_syscall run_simps strcpy_ifr_name_def
        Let_def AF_PACKET_def split: prod.splits sum.splits if_splits)

section \<open>The Ethernet frame\<close>

text \<open>The abstract frame and its layout on the wire\<close>

record ether_frame =
  ether_dhost :: "byte list"
  ether_shost :: "byte list"
  ether_type :: u16
  ether_payload :: "byte list"

definition wf_frame :: "ether_frame \<Rightarrow> bool" where
  "wf_frame f \<longleftrightarrow> length (ether_dhost f) = 6 \<and> length (ether_shost f) = 6"

definition encode_frame :: "ether_frame \<Rightarrow> byte list" where
  "encode_frame f = ether_dhost f @ ether_shost f @
     [ucast (drop_bit 8 (ether_type f)), ucast (ether_type f)] @ ether_payload f"

definition decode_frame :: "byte list \<Rightarrow> ether_frame option" where
  "decode_frame bs =
     (if length bs < 14 then None
      else Some \<lparr>ether_dhost = take 6 bs, ether_shost = take 6 (drop 6 bs),
                 ether_type = be16 (bs ! 12) (bs ! 13), ether_payload = drop 14 bs\<rparr>)"

lemma decode_encode_frame: "wf_frame f \<Longrightarrow> decode_frame (encode_frame f) = Some f"
  by (cases f) (simp add: wf_frame_def encode_frame_def decode_frame_def nth_append byte_simps)

lemma frame_layout:
  assumes "length g = 14 + n" "length d = 6" "length s = 6" "length t = 2" "length m = n"
  shows "patch_at (patch_at (patch_at (patch_at g 0 d) 6 s) 12 t) 14 m = d @ s @ t @ m"
  using assms by (simp add: patch_at_def)

section \<open>Sending\<close>

definition send_addr :: "socket \<Rightarrow> sockaddr_ll" where
  "send_addr s = zero_sockaddr_ll
     \<lparr>sll_family := ucast AF_PACKET, sll_ifindex := interface_index s,
      sll_halen := of_nat ETHER_ADDR_LEN, sll_protocol := htons ETH_P_802_3,
      sll_addr := hardware_address s @ [0, 0]\<rparr>"

definition message_frame :: "socket \<Rightarrow> byte list \<Rightarrow> byte list \<Rightarrow> ether_frame" where
  "message_frame s dst msg = \<lparr>ether_dhost = dst, ether_shost = hardware_address s,
     ether_type = of_nat (length msg), ether_payload = msg\<rparr>"


lemma overall_length:
  assumes "unat (len :: i32) < 2 ^ 31"
  shows "of_nat sizeof_ether_header + (scast len :: u64) = of_nat (14 + unat len)"
    and "unat (of_nat (14 + unat len) :: u64) = 14 + unat len"
proof -
  show "of_nat sizeof_ether_header + (scast len :: u64) = of_nat (14 + unat len)" 
    by (simp only: scast_nonneg_of_nat [OF assms] of_nat_add sizeof_ether_header_def)
  show "unat (of_nat (14 + unat len) :: u64) = 14 + unat len"
    using assms by (simp only: unsigned_of_nat) (simp add: take_bit_nat_eq_self)
qed

lemma ucast_of_unat: "(ucast (len :: i32) :: u16) = of_nat (unat len)"
  by simp

lemma run_fill_packet:
  assumes hp: "heap w = h(b \<mapsto> g)" "h b = None" "length g = 14 + unat len"
    and hw: "length (hardware_address s) = 6"
    and len: "unat len < 2 ^ 31"
    and dst: "mem_load h destination_address 6 = Inr dst"
    and msg: "mem_load h message (unat len) = Inr msg"
  shows "run_state (fill_packet s (Ptr b 0) destination_address message len) w
    = (Inr (), w\<lparr>heap := h(b \<mapsto> encode_frame (message_frame s dst msg))\<rparr>)"
proof -
  let ?hw = "hardware_address s" and ?ty = "store16 (htons (ucast len))"
  note lens = mem_load_length [OF dst] mem_load_length [OF msg]
  have ld: "mem_load (h(b := x)) destination_address 6 = Inr dst"
    "mem_load (h(b := x)) message (unat len) = Inr msg" for x
    using dst msg hp(2) by (simp_all add: mem_load_new_block)
  have lay: "patch_at (patch_at (patch_at (patch_at g 0 dst) 6 ?hw) 12 ?ty) 14 msg
       = encode_frame (message_frame s dst msg)"
    using lens hw hp(3) by (subst frame_layout) (auto simp: encode_frame_def message_frame_def store16_htons)
  have st: "run_state (store_bytes (Ptr b i) bs) (w\<lparr>heap := h(b \<mapsto> x)\<rparr>)
      = (Inr (), w\<lparr>heap := h(b \<mapsto> patch_at x i bs)\<rparr>)" if "i + length bs \<le> length x" for i bs x
    using that by (subst run_store_in) auto
  have w: "w = w\<lparr>heap := h(b \<mapsto> g)\<rparr>" by (simp flip: hp(1))
  show ?thesis
    by (subst w) (simp add: fill_packet_def run_after run_memcpy st ld lens hw hp(3) lay
       ETHER_ADDR_LEN_def sizeof_ether_header_def unat_scast_nonneg [OF len])
qed


text \<open>What a caller of \<open>send_message\<close> provides: readable operands, a non-negative length, and an
  allocator that has room for the packet.\<close>

definition send_ready :: "env \<Rightarrow> 'a world_scheme \<Rightarrow> socket \<Rightarrow> ptr \<Rightarrow> ptr \<Rightarrow> i32 \<Rightarrow> byte list \<Rightarrow> byte list \<Rightarrow> bool" where
  "send_ready E w s destination_address message len dst msg \<longleftrightarrow>
     wf_mem w \<and> wf_socket s \<and> 0 \<le> sint len \<and>
     mem_load (heap w) destination_address ETHER_ADDR_LEN = Inr dst \<and>
     mem_load (heap w) message (unat len) = Inr msg \<and>
     os_alloc E (trace w) (of_nat (14 + unat len))"

lemma run_send_message:
  assumes "send_ready E w s destination_address message len dst msg"
  shows "run_state (send_message E s destination_address message len) w =
     (let p = Ptr (next_blk w) 0; n = of_nat (14 + unat len);
          frame = encode_frame (message_frame s dst msg);
          h = trace w @ [Ev_alloc n p];
          r = os_sendto E h (socket_descriptor s) frame n 0 (send_addr s) sizeof_sockaddr_ll;
          h' = h @ [Ev_sendto (socket_descriptor s) frame n 0 (send_addr s) sizeof_sockaddr_ll r,
                    Ev_free p];
          rc = (ucast r :: i32)
      in (if rc = -1 then Inl (Runtime_error (os_strerror E (os_errno E h')))
          else if (scast rc :: u64) \<noteq> n then Inl (Runtime_error ''Failed to send entire packet'')
          else Inr len,
          w\<lparr>trace := h', next_blk := Suc (next_blk w)\<rparr>))"
proof -
  from assms have wf: "wf_mem w" and hw: "length (hardware_address s) = 6" and len: "unat len < 2 ^ 31"
    and dst: "mem_load (heap w) destination_address 6 = Inr dst"
    and msg: "mem_load (heap w) message (unat len) = Inr msg"
    and alloc: "os_alloc E (trace w) (of_nat (14 + unat len))"
    unfolding send_ready_def wf_socket_def sint32_nonneg ETHER_ADDR_LEN_def by blast+
  let ?b = "next_blk w" and ?n = "of_nat (14 + unat len) :: u64"
  let ?f = "encode_frame (message_frame s dst msg)"
  define w1 where "w1 = w\<lparr>trace := trace w @ [Ev_alloc ?n (Ptr ?b 0)],
         heap := (heap w)(?b \<mapsto> indet E (trace w) (14 + unat len)), next_blk := Suc ?b\<rparr>"
  have new: "run_state (new_bytes E ?n) w = (Inr (Ptr ?b 0), w1)"
    using run_new_bytes [OF alloc] overall_length(2) [OF len] unfolding w1_def by (simp only:)
  have fresh: "heap w ?b = None" using wf by simp
  have fill: "run_state (fill_packet s (Ptr ?b 0) destination_address message len) w1
      = (Inr (), w1\<lparr>heap := (heap w)(?b \<mapsto> ?f)\<rparr>)"
  proof (rule run_fill_packet [OF _ fresh _ hw len dst msg])
    show "heap w1 = (heap w)(?b \<mapsto> indet E (trace w) (14 + unat len))" by (simp add: w1_def)
  qed (rule length_indet)
  have flen: "length ?f = 14 + unat len"
    using mem_load_length [OF dst] mem_load_length [OF msg] hw
    by (simp add: encode_frame_def message_frame_def)
  have addr: "zero_sockaddr_ll
            \<lparr>sll_family := ucast AF_PACKET, sll_ifindex := interface_index s,
             sll_halen := of_nat ETHER_ADDR_LEN, sll_protocol := htons ETH_P_802_3,
             sll_addr := overwrite (replicate 8 0) (take ETHER_ADDR_LEN (hardware_address s))\<rparr> = send_addr s"
    using hw by (simp add: send_addr_def overwrite_def ETHER_ADDR_LEN_def numeral_eq_Suc)
  have free: "(heap w)(?b := None) = heap w" using fresh by (rule map_upd_remove_fresh)
  show ?thesis
    unfolding send_message_def addr overall_length(1) [OF len] Let_def run_after new
      prod.case sum.case fill run_load_bytes overall_length(2) [OF len]
    by (simp add: flen sys_sendto_def run_syscall run_free run_throw_errno run_if run_throw run_give
         w1_def free del: of_nat_add)
qed

lemma send_message_cases:
  assumes "send_ready E w s destination_address message len dst msg"
    and "run_state (send_message E s destination_address message len) w = (r, w')"
  obtains p ret where
    "w' = w\<lparr>trace := trace w @ [Ev_alloc (of_nat (14 + unat len)) p,
        Ev_sendto (socket_descriptor s) (encode_frame (message_frame s dst msg))
          (of_nat (14 + unat len)) 0 (send_addr s) sizeof_sockaddr_ll ret, Ev_free p],
      next_blk := Suc (next_blk w)\<rparr>"
    "ret = os_sendto E (trace w @ [Ev_alloc (of_nat (14 + unat len)) p]) (socket_descriptor s)
       (encode_frame (message_frame s dst msg)) (of_nat (14 + unat len)) 0 (send_addr s) sizeof_sockaddr_ll"
    "r = (if (ucast ret :: i32) = -1 then Inl (Runtime_error (os_strerror E (os_errno E (trace w'))))
          else if (scast (ucast ret :: i32) :: u64) \<noteq> of_nat (14 + unat len)
          then Inl (Runtime_error ''Failed to send entire packet'') else Inr len)"
proof -
  define p where "p = Ptr (next_blk w) 0"
  define n :: u64 where "n = of_nat (14 + unat len)"
  define ret where "ret = os_sendto E (trace w @ [Ev_alloc n p]) (socket_descriptor s)
       (encode_frame (message_frame s dst msg)) n 0 (send_addr s) sizeof_sockaddr_ll"
  from assms(2) have w': "w' = w\<lparr>trace := trace w @ [Ev_alloc n p,
        Ev_sendto (socket_descriptor s) (encode_frame (message_frame s dst msg))
          n 0 (send_addr s) sizeof_sockaddr_ll ret, Ev_free p],
      next_blk := Suc (next_blk w)\<rparr>"
    and r: "r = (if (ucast ret :: i32) = -1 then Inl (Runtime_error (os_strerror E (os_errno E (trace w'))))
          else if (scast (ucast ret :: i32) :: u64) \<noteq> n
          then Inl (Runtime_error ''Failed to send entire packet'') else Inr len)"
    unfolding run_send_message [OF assms(1)] Let_def ret_def [symmetric] p_def [symmetric] n_def [symmetric]
    by auto
  show thesis by (rule that [OF w' [unfolded n_def] ret_def [unfolded n_def] r [unfolded n_def]])
qed

lemma send_ready_frame:
  assumes "send_ready E w s destination_address message len dst msg"
  shows "decode_frame (encode_frame (message_frame s dst msg)) =
      Some \<lparr>ether_dhost = dst, ether_shost = hardware_address s,
            ether_type = of_nat (unat len), ether_payload = msg\<rparr>"
    and "length (encode_frame (message_frame s dst msg)) = 14 + unat len"
proof -
  from assms have l: "length dst = 6" "length msg = unat len" "length (hardware_address s) = 6"
    by (auto simp: send_ready_def wf_socket_def ETHER_ADDR_LEN_def dest: mem_load_length)
  show "length (encode_frame (message_frame s dst msg)) = 14 + unat len"
    using l by (simp add: encode_frame_def message_frame_def)
  have "wf_frame (message_frame s dst msg)" using l by (simp add: wf_frame_def message_frame_def)
  from decode_encode_frame [OF this] 
  show "decode_frame (encode_frame (message_frame s dst msg)) =
      Some \<lparr>ether_dhost = dst, ether_shost = hardware_address s,
            ether_type = of_nat (unat len), ether_payload = msg\<rparr>"
    by (simp add: message_frame_def l)
qed

text \<open>
  C22. \<open>send_message\<close> hands the kernel one packet that decodes to the destination, the socket's own
  hardware address, the payload length in network byte order and the payload; the packet buffer is
  released and no other memory changes, whatever the kernel answers.
\<close>

theorem send_message_wire:
  assumes "send_ready E w s destination_address message len dst msg"
    and "run_state (send_message E s destination_address message len) w = (r, w')"
  shows "heap w' = heap w \<and>
    (\<exists>p frame ret. trace w' = trace w @
        [Ev_alloc (of_nat (14 + unat len)) p,
         Ev_sendto (socket_descriptor s) frame (of_nat (14 + unat len)) 0 (send_addr s) sizeof_sockaddr_ll ret,
         Ev_free p] \<and> length frame = 14 + unat len \<and>
       decode_frame frame = Some \<lparr>ether_dhost = dst, ether_shost = hardware_address s,
          ether_type = of_nat (unat len), ether_payload = msg\<rparr>)"
proof (rule send_message_cases [OF assms], goal_cases)
  case (1 p ret)
  show ?case
    by (subst (1 2) 1(1), intro conjI exI [of _ p] exI [of _ ret]
          exI [of _ "encode_frame (message_frame s dst msg)"] send_ready_frame [OF assms(1)]) simp_all
qed

lemma sent_whole:
  assumes "ret = -1 \<or> unat ret \<le> 14 + unat (len :: i32)" and "14 + unat len < 2 ^ 31"
  shows "(ucast (ret :: u64) :: i32) = -1 \<longleftrightarrow> ret = -1"
    and "ret \<noteq> -1 \<Longrightarrow>
      (scast (ucast ret :: i32) :: u64) = of_nat (14 + unat len) \<longleftrightarrow> 14 + unat len \<le> unat ret"
proof -
  have un: "unat (of_nat (14 + unat len) :: u64) = 14 + unat len"
    using overall_length(2) [of len] assms(2) by simp
  show "(ucast ret :: i32) = -1 \<longleftrightarrow> ret = -1"
  proof (cases "ret = -1")
    case False
    with assms have "unat ret < 2 ^ 31" by auto
    from unat_ucast_low [OF this] this have "unat (ucast ret :: i32) < 2 ^ 31" by simp
    with False show ?thesis by (auto simp: unsigned_minus_1_eq_mask mask_eq_exp_minus_1)
  qed (simp add: ucast_minus_one)
  show "(scast (ucast ret :: i32) :: u64) = of_nat (14 + unat len) \<longleftrightarrow> 14 + unat len \<le> unat ret"
    if "ret \<noteq> -1"
  proof -
    from that assms have low: "unat ret < 2 ^ 31" and le: "unat ret \<le> 14 + unat len" by auto
    have "ret = of_nat (14 + unat len) \<longleftrightarrow> unat ret = 14 + unat len"
      using un by (metis word_unat_eq_iff)
    with le show ?thesis unfolding scast_ucast_low [OF low] by auto
  qed
qed

text \<open>
  C23. The result of \<open>send_message\<close> follows the answer of \<open>sendto\<close>: the message length when the
  whole packet was taken, an exception with the text of \<open>errno\<close> on -1, and a separate exception
  on a short write; for packets below two gigabytes the narrowing of the answer to \<open>int\<close> is harmless.
\<close>

theorem send_message_outcome:
  assumes "send_ready E w s destination_address message len dst msg"
    and "sendto_documented E" and "14 + unat len < 2 ^ 31"
    and "run_state (send_message E s destination_address message len) w = (r, w')"
  shows "\<exists>p frame ret. trace w' = trace w @ [Ev_alloc (of_nat (14 + unat len)) p,
         Ev_sendto (socket_descriptor s) frame (of_nat (14 + unat len)) 0 (send_addr s) sizeof_sockaddr_ll ret,
         Ev_free p] \<and>
     r = (if ret = -1 then Inl (Runtime_error (os_strerror E (os_errno E (trace w'))))
          else if unat ret < 14 + unat len then Inl (Runtime_error ''Failed to send entire packet'')
          else Inr len)"
proof (rule send_message_cases [OF assms(1,4)], goal_cases)
  case (1 p ret)
  have "ret = -1 \<or> unat ret \<le> unat (of_nat (14 + unat len) :: u64)"
    using assms(2) unfolding 1(2) sendto_documented_def Let_def by blast
  then have "ret = -1 \<or> unat ret \<le> 14 + unat len"
    using overall_length(2) [of len] assms(3) by simp
  note whole = sent_whole [OF this assms(3)]
  show ?case
    using 1(1,3) whole
    by (intro exI [of _ p] exI [of _ "encode_frame (message_frame s dst msg)"] exI [of _ ret])
       (auto simp del: of_nat_add)
qed

section \<open>Receiving\<close>

text \<open>What a caller of \<open>receive_message\<close> provides: three different live blocks of the right sizes.\<close>

definition recv_ready :: "'a world_scheme \<Rightarrow> nat \<Rightarrow> nat \<Rightarrow> nat \<Rightarrow> i32 \<Rightarrow> byte list \<Rightarrow> bool" where
  "recv_ready w a b c sz old \<longleftrightarrow> distinct [a, b, c] \<and> 0 \<le> sint sz \<and>
     map_option length (heap w a) = Some ETHER_ADDR_LEN \<and>
     map_option length (heap w b) = Some ETHER_ADDR_LEN \<and>
     heap w c = Some old \<and> length old = unat sz"

definition recv_hdr :: "env \<Rightarrow> history \<Rightarrow> i32 \<Rightarrow> msghdr" where
  "recv_hdr E h sz = \<lparr>msg_namelen = sizeof_sockaddr_ll, msg_iov_lens = [14, scast sz],
     msg_flags = 0, msg_controllen = indet_controllen E h\<rparr>"

lemma run_receive_message:
  assumes "recv_ready w a b c sz old"
    and ret: "os_recvmsg E (trace w) (socket_descriptor s) (recv_hdr E (trace w) sz) 0
      = (of_nat (length frame), frame, sender)"
    and fits: "length frame \<le> 14 + unat sz" "14 + unat sz < 2 ^ 31"
  shows "run_state (receive_message E s (Ptr a 0) (Ptr b 0) (Ptr c 0) sz) w =
    (Inr (of_nat (length frame) - 14),
     w\<lparr>trace := trace w @ [Ev_recvmsg (socket_descriptor s) (recv_hdr E (trace w) sz) 0 (of_nat (length frame))],
       heap := (heap w)(c \<mapsto> overwrite old (drop 14 frame),
                        a \<mapsto> take 6 (overwrite (replicate 8 0) sender),
                        b \<mapsto> take 6 (overwrite (indet E (trace w) 14) frame))\<rparr>)"
proof -
  obtain xs ys where hp: "heap w a = Some xs" "length xs = 6" "heap w b = Some ys" "length ys = 6"
     "heap w c = Some old" "length old = unat sz" "a \<noteq> b" "a \<noteq> c" "b \<noteq> c" 
    using assms(1) by (auto simp: recv_ready_def ETHER_ADDR_LEN_def)
  have us: "unat (scast sz :: u64) = unat sz" using fits(2) by (intro unat_scast_nonneg) simp
  have uf: "unat (of_nat (length frame) :: u64) = length frame"
    using fits by (simp only: unsigned_of_nat) (simp add: take_bit_nat_eq_self)
  have low: "unat (of_nat (length frame) :: u64) < 2 ^ 31" using fits uf by simp
  have m64: "(of_nat (length frame) :: u64) \<noteq> -1"
    using low by (auto simp: unsigned_minus_1_eq_mask mask_eq_exp_minus_1)
  have m32: "(ucast (of_nat (length frame) :: u64) :: i32) \<noteq> -1"
    using unat_ucast_low [OF low] low by (auto simp: unsigned_minus_1_eq_mask mask_eq_exp_minus_1)
  have res: "(ucast (scast (ucast (of_nat (length frame) :: u64) :: i32) - of_nat sizeof_ether_header :: u64) :: i32)
     = of_nat (length frame) - 14"
    unfolding scast_ucast_low [OF low] sizeof_ether_header_def
    using unat_ucast_low [OF low, unfolded uf] by (simp add: ucast_minus) (metis word_of_unat)
  show ?thesis
    using ret hp m64 m32 res us fits(1)
    apply (simp add: receive_message_def run_after run_gets run_if run_give Let_def sys_recvmsg_def run_syscall
       recv_hdr_def sizeof_ether_header_def run_store_fit overwrite_exact ETHER_ADDR_LEN_def)
    done
qed
lemma recv_hdr_room: "0 \<le> sint sz \<Longrightarrow> sum_list (map unat (msg_iov_lens (recv_hdr E h sz))) = 14 + unat sz"
  by (simp add: recv_hdr_def sint32_nonneg unat_scast_nonneg)

lemma receive_message_cases:
  assumes "recvmsg_documented E" and "recv_ready w a b c sz old" and "14 + unat sz < 2 ^ 31"
    and os: "os_recvmsg E (trace w) (socket_descriptor s) (recv_hdr E (trace w) sz) 0 = (ret, frame, sender)"
    and run: "run_state (receive_message E s (Ptr a 0) (Ptr b 0) (Ptr c 0) sz) w = (r, w')"
  shows "trace w' = trace w @ [Ev_recvmsg (socket_descriptor s) (recv_hdr E (trace w) sz) 0 ret] \<and>
    (if ret = -1
     then r = Inl (Runtime_error (os_strerror E (os_errno E (trace w')))) \<and> heap w' = heap w
     else r = Inr (of_nat (length frame) - 14) \<and> length frame \<le> 14 + unat sz \<and>
       heap w' = (heap w)(a \<mapsto> take 6 (overwrite (replicate 8 0) sender),
                          b \<mapsto> take 6 (overwrite (indet E (trace w) 14) frame),
                          c \<mapsto> overwrite old (drop 14 frame)))"
proof (cases "ret = -1")
  case True
  then show ?thesis
    using run os by (auto simp: receive_message_def run_simps Let_def sys_recvmsg_def run_syscall
       recv_hdr_def sizeof_ether_header_def ucast_minus_one)
next
  case False
  have nn: "0 \<le> sint sz" using assms(2) by (simp add: recv_ready_def)
  have "ret = of_nat (length frame)" "length frame \<le> 14 + unat sz"
    using assms(1) os False recv_hdr_room [OF nn, of E "trace w"]
    unfolding recvmsg_documented_def by (metis (mono_tags, lifting) prod.case)+
  note * = this
  have d: "a \<noteq> c" "b \<noteq> c" using assms(2) by (auto simp: recv_ready_def)
  show ?thesis
    using run run_receive_message [OF assms(2) os [unfolded *(1)] *(2) assms(3)] * False d
    by (auto simp: fun_upd_twist)
qed

text \<open>
  C24. \<open>receive_message\<close> makes one \<open>recvmsg\<close> call on a header and the caller's buffer.  On -1 it throws
  the text of \<open>errno\<close> and stores nothing; otherwise it stores the sender's link-layer address, the
  destination from the Ethernet header and the payload, leaves all other memory alone and returns the
  number of bytes less the header.
\<close>

theorem receive_message_spec:
  assumes "recvmsg_documented E" and "recv_ready w a b c sz old" and "14 + unat sz < 2 ^ 31"
    and os: "os_recvmsg E (trace w) (socket_descriptor s) (recv_hdr E (trace w) sz) 0 = (ret, frame, sender)"
    and run: "run_state (receive_message E s (Ptr a 0) (Ptr b 0) (Ptr c 0) sz) w = (r, w')"
  shows "trace w' = trace w @ [Ev_recvmsg (socket_descriptor s) (recv_hdr E (trace w) sz) 0 ret] \<and>
    (if ret = -1
     then r = Inl (Runtime_error (os_strerror E (os_errno E (trace w')))) \<and> heap w' = heap w
     else r = Inr (of_nat (length frame) - 14) \<and> length frame \<le> 14 + unat sz \<and>
       heap w' = (heap w)(a \<mapsto> take 6 (overwrite (replicate 8 0) sender),
                          b \<mapsto> take 6 (overwrite (indet E (trace w) 14) frame),
                          c \<mapsto> overwrite old (drop 14 frame)))"
  by (rule receive_message_cases [OF assms])

text \<open>
  C25. The result of \<open>receive_message\<close> is at least -14 and at most the buffer size, and it is
  negative exactly when the kernel delivered fewer than 14 bytes: no check rejects such a frame.
\<close>

theorem receive_message_range:
  assumes "recvmsg_documented E" and "recv_ready w a b c sz old" and "14 + unat sz < 2 ^ 31"
    and "run_state (receive_message E s (Ptr a 0) (Ptr b 0) (Ptr c 0) sz) w = (Inr n, w')"
  shows "-14 \<le> sint n \<and> sint n \<le> sint sz \<and>
    (0 \<le> sint n \<longleftrightarrow> 14 \<le> length (fst (snd (os_recvmsg E (trace w) (socket_descriptor s)
                                    (recv_hdr E (trace w) sz) 0))))"
proof -
  obtain ret frame sender where os: "os_recvmsg E (trace w) (socket_descriptor s)
      (recv_hdr E (trace w) sz) 0 = (ret, frame, sender)" by (metis prod_cases3)
  from receive_message_cases [OF assms(1-3) os assms(4)]
  have n: "n = of_nat (length frame) - 14" and l: "length frame \<le> 14 + unat sz"
    by (auto split: if_splits)
  have "sint n = int (length frame) - 14"
    unfolding n using l assms(3) by (intro sint_length_minus_14) simp
  moreover have "sint sz = int (unat sz)" using assms(3) by (simp add: sint32_unat)
  moreover have "int (length frame) \<le> int (14 + unat sz)" using l by (simp only: of_nat_le_iff)
  ultimately show ?thesis using os by auto
qed



text \<open>
  C20. Round trip: when the kernel delivers to \<open>receive_message\<close> the packet that \<open>send_message\<close> sent,
  the receiver gets the message length, the destination address and the message.
\<close>

theorem loopback:
  assumes send: "send_ready E w s destination_address message len dst msg"
       "run_state (send_message E s destination_address message len) w = (r, w1)"
    and sent: "Ev_sendto fd frame n fl ad k ret \<in> set (drop (length (trace w)) (trace w1))"
    and recv: "recv_ready w2 a b c sz old" "14 + unat sz < 2 ^ 31" "unat len \<le> unat sz"
    and delivered: "os_recvmsg E' (trace w2) (socket_descriptor s') (recv_hdr E' (trace w2) sz) 0
       = (of_nat (length frame), frame, sender)"
  shows "\<exists>w3 buf. run_state (receive_message E' s' (Ptr a 0) (Ptr b 0) (Ptr c 0) sz) w2 = (Inr len, w3) \<and>
     heap w3 b = Some dst \<and> heap w3 c = Some buf \<and> take (unat len) buf = msg"
proof -
  let ?f = "encode_frame (message_frame s dst msg)"
  have f: "frame = ?f"
    by (rule send_message_cases [OF send]) (use sent in auto)
  have len: "length frame = 14 + unat len" and dec: "decode_frame frame = Some
      \<lparr>ether_dhost = dst, ether_shost = hardware_address s, ether_type = of_nat (unat len), ether_payload = msg\<rparr>"
    using send_ready_frame [OF send(1)] f by simp_all
  have fr: "take 6 frame = dst" "drop 14 frame = msg" "length msg = unat len" "14 \<le> length frame"
    using dec len by (auto simp: decode_frame_def split: if_splits)
  have d: "a \<noteq> b" "a \<noteq> c" "b \<noteq> c" "length old = unat sz" using recv(1) by (auto simp: recv_ready_def)
  have fits: "length frame \<le> 14 + unat sz" using len recv(3) by simp
  have "(of_nat (length frame) - 14 :: i32) = len" by (simp add: len)
  then show ?thesis
    using run_receive_message [OF recv(1) delivered fits recv(2)] d fr recv(3)
    by (simp add: take_overwrite)
qed

section \<open>Memberships\<close>

text \<open>The memberships the program has asked for and not dropped, per descriptor.\<close>

fun member_step :: "(i32 \<times> packet_mreq) multiset \<Rightarrow> event \<Rightarrow> (i32 \<times> packet_mreq) multiset" where
  "member_step M (Ev_setsockopt fd level opt m n rc) =
     (if level \<noteq> SOL_PACKET \<or> rc = -1 then M
      else if opt = ADD_MEMBERSHIP then add_mset (fd, m) M
      else if opt = DROP_MEMBERSHIP then M - {#(fd, m)#}
      else M)"
| "member_step M _ = M"

definition memberships :: "history \<Rightarrow> (i32 \<times> packet_mreq) multiset" where
  "memberships h = foldl member_step {#} h"

lemma memberships_snoc [simp]: "memberships (h @ [e]) = member_step (memberships h) e"
  by (simp add: memberships_def)

definition membership_request :: "socket \<Rightarrow> i32 \<Rightarrow> byte list \<Rightarrow> packet_mreq" where
  "membership_request s type a =
     (if type = MULTICAST
      then \<lparr>mr_ifindex = interface_index s, mr_type = 0, mr_alen = 6, mr_address = a @ [0, 0]\<rparr>
      else \<lparr>mr_ifindex = interface_index s, mr_type = ucast type, mr_alen = 0,
            mr_address = replicate 8 0\<rparr>)"

lemma run_manage_membership:
  assumes "is_valid_membership_type type"
    and "type = MULTICAST \<Longrightarrow> mem_load (heap w) multicast_address 6 = Inr a"
  shows "run_state (manage_membership E s action type multicast_address) w =
     (let m = membership_request s type a;
          rc = os_setsockopt E (trace w) (socket_descriptor s) SOL_PACKET action m sizeof_packet_mreq;
          h = trace w @ [Ev_setsockopt (socket_descriptor s) SOL_PACKET action m sizeof_packet_mreq rc]
      in (if rc = -1 then Inl (Runtime_error (os_strerror E (os_errno E h))) else Inr (),
          w\<lparr>trace := h\<rparr>))"
proof (cases "type = MULTICAST")
  case True
  with assms have a: "mem_load (heap w) multicast_address 6 = Inr a" by simp
  have "overwrite (replicate 8 0) a = a @ [0, 0]"
    using mem_load_length [OF a] by (simp add: overwrite_def numeral_eq_Suc)
  with True assms(1) a show ?thesis
    by (simp add: manage_membership_def run_simps sys_setsockopt_def run_syscall Let_def
        membership_request_def ETHER_ADDR_LEN_def zero_packet_mreq_def MULTICAST_def)
next
  case False
  with assms(1) show ?thesis
    by (simp add: manage_membership_def run_simps sys_setsockopt_def run_syscall Let_def
        membership_request_def zero_packet_mreq_def)
qed

text \<open>
  A membership type other than the three of the enumeration is refused before any call.
\<close>

lemma membership_type_checked:
  assumes "\<not> is_valid_membership_type type"
  shows "run_state (manage_membership E s action type multicast_address) w
    = (Inl (Invalid_argument ''Invalid membership type''), w)"
  using assms by (simp add: manage_membership_def run_simps)

text \<open>
  The membership operations are undefined exactly when the type is \<open>MULTICAST\<close> and the address
  cannot be read, in particular when it is null.
\<close>

lemma manage_membership_undefined:
  "fst (run_state (manage_membership E s action type multicast_address) w) = Inl (Undefined u) \<longleftrightarrow>
     type = MULTICAST \<and> mem_load (heap w) multicast_address 6 = Inl u"
  by (auto simp: manage_membership_def run_simps sys_setsockopt_def run_syscall Let_def
       is_valid_membership_type_def ETHER_ADDR_LEN_def split: sum.splits)

lemma run_add_drop:
  assumes "is_valid_membership_type type"
    and "type = MULTICAST \<Longrightarrow> mem_load (heap w) multicast_address 6 = Inr a"
  shows "run_state (add_membership E s type multicast_address) w = (Inr (), w') \<Longrightarrow>
       memberships (trace w') = add_mset (socket_descriptor s, membership_request s type a) (memberships (trace w)) \<and>
       heap w' = heap w"
    and "run_state (drop_membership E s type multicast_address) w = (Inr (), w') \<Longrightarrow>
       memberships (trace w') = memberships (trace w) - {#(socket_descriptor s, membership_request s type a)#} \<and>
       heap w' = heap w"
  using run_manage_membership [OF assms, of E s]
  by (auto simp: add_membership_def drop_membership_def Let_def ADD_MEMBERSHIP_def DROP_MEMBERSHIP_def split: if_splits)

text \<open>
  \<open>add_membership\<close> makes one \<open>setsockopt\<close> call whose request names the interface, and the
  address for \<open>MULTICAST\<close> only; it succeeds exactly when the kernel accepts it, and then the
  requested memberships grow by that request.
\<close>

lemma add_membership_effect:
  assumes "is_valid_membership_type type"
    and "type = MULTICAST \<longrightarrow> mem_load (heap w) multicast_address 6 = Inr a"
    and "run_state (add_membership E s type multicast_address) w = (r, w')"
  shows "heap w' = heap w \<and>
    (\<exists>rc. trace w' = trace w @ [Ev_setsockopt (socket_descriptor s) SOL_PACKET ADD_MEMBERSHIP
             (membership_request s type a) sizeof_packet_mreq rc] \<and>
       r = (if rc = -1 then Inl (Runtime_error (os_strerror E (os_errno E (trace w')))) else Inr ()) \<and>
       memberships (trace w') = (if rc = -1 then memberships (trace w)
          else add_mset (socket_descriptor s, membership_request s type a) (memberships (trace w))))"
  using assms run_manage_membership [of type w multicast_address a E s ADD_MEMBERSHIP]
  by (auto simp: add_membership_def Let_def)

text \<open>
  C35. \<open>drop_membership\<close> sends the request that \<open>add_membership\<close> sent: a successful drop after a
  successful add leaves the memberships as they were.
\<close>

theorem drop_undoes_add:
  assumes "is_valid_membership_type type"
    and "type = MULTICAST \<longrightarrow> mem_load (heap w) multicast_address 6 = Inr a"
    and "run_state (add_membership E s type multicast_address) w = (Inr (), w1)"
    and "run_state (drop_membership E' s type multicast_address) w1 = (Inr (), w2)"
  shows "memberships (trace w2) = memberships (trace w) \<and> heap w2 = heap w"
proof -
  from assms(2) have a: "type = MULTICAST \<Longrightarrow> mem_load (heap w) multicast_address 6 = Inr a" by simp
  note 1 = run_add_drop(1) [OF assms(1) a assms(3)]
  have a1: "type = MULTICAST \<Longrightarrow> mem_load (heap w1) multicast_address 6 = Inr a" using a 1 by simp
  show ?thesis using 1 run_add_drop(2) [OF assms(1) a1 assms(4)] by simp
qed
section \<open>Witnesses\<close>

text \<open>
  The theorems at work on \<open>sample_env\<close>: a socket on interface 12, a world that holds an address, a
  message and three receive blocks.
\<close>

definition sample_socket :: socket where
  "sample_socket = \<lparr>device_name = ''rfm0'', socket_descriptor = 5, interface_index = 12,
     hardware_address = [0xde, 0xad, 0, 0, 0xbe, 0xef]\<rparr>"

definition sample_world :: world where
  "sample_world = \<lparr>trace = [],
     heap = [0 \<mapsto> [0xde, 0xad, 0, 0, 0xff, 0xff], 1 \<mapsto> [0x68, 0x69],
             2 \<mapsto> replicate 6 0, 3 \<mapsto> replicate 6 0, 4 \<mapsto> replicate 4 0],
     next_blk = 5\<rparr>"

lemmas sample_defs = sample_env_def sample_world_def sample_socket_def

lemma sample_send_ready:
  "send_ready sample_env sample_world sample_socket (Ptr 0 0) (Ptr 1 0) 2
     [0xde, 0xad, 0, 0, 0xff, 0xff] [0x68, 0x69]"
  by (auto simp: send_ready_def wf_mem_def wf_socket_def ETHER_ADDR_LEN_def sample_defs)

lemma sample_recv_ready: "recv_ready sample_world 2 3 4 4 (replicate 4 0)"
  by (auto simp: recv_ready_def ETHER_ADDR_LEN_def sample_defs)

lemma sample_recv:
  "os_recvmsg sample_env (trace sample_world) (socket_descriptor sample_socket)
     (recv_hdr sample_env (trace sample_world) 4) 0
   = (16, sample_frame, [0xde, 0xad, 0, 0, 0xbe, 0xef])"
  by (simp add: sample_defs recv_hdr_def sample_frame_def)

lemma sample_new:
  "fst (run_state (Socket_new sample_env ''rfm0'') empty_world) = Inr sample_socket"
  by (simp add: Socket_new_def Socket_setup_def syscall_defs run_syscall run_simps strcpy_ifr_name_def
     sample_defs empty_world_def Let_def header_consts indet_def overwrite_def load32_def)

theorem Socket_new_descriptors_witness:
  "open_fds (trace (snd (run_state (Socket_new sample_env ''rfm0'') empty_world))) = {5}"
  using Socket_new_descriptors [OF sample_env_documented(1) prod.collapse [symmetric],
      of "''rfm0''" empty_world, unfolded sample_new]
  by (simp add: empty_world_def sample_socket_def)

theorem Socket_new_success_witness:
  "\<exists>s. fst (run_state (Socket_new sample_env ''rfm0'') empty_world) = Inr s \<and>
     length (trace (snd (run_state (Socket_new sample_env ''rfm0'') empty_world))) = 6"
proof -
  obtain w' where run: "run_state (Socket_new sample_env ''rfm0'') empty_world = (Inr sample_socket, w')"
    using sample_new by (metis prod.collapse)
  from Socket_new_success [OF run] show ?thesis by (auto simp: run)
qed

theorem send_message_wire_witness:
  "heap (snd (run_state (send_message sample_env sample_socket (Ptr 0 0) (Ptr 1 0) 2) sample_world))
     = heap sample_world"
  using send_message_wire [OF sample_send_ready prod.collapse [symmetric]] by blast

theorem send_message_outcome_witness:
  "fst (run_state (send_message sample_env sample_socket (Ptr 0 0) (Ptr 1 0) 2) sample_world)
     \<in> {Inl (Runtime_error ''error''), Inl (Runtime_error ''Failed to send entire packet''), Inr 2}"
  using send_message_outcome [OF sample_send_ready sample_env_documented(2) _ prod.collapse [symmetric]]
  by (auto simp: sample_env_def split: if_splits)

theorem receive_message_spec_witness:
  "fst (run_state (receive_message sample_env sample_socket (Ptr 2 0) (Ptr 3 0) (Ptr 4 0) 4) sample_world)
     = Inr 2"
  using receive_message_spec [OF sample_env_documented(3) sample_recv_ready _ sample_recv
      prod.collapse [symmetric]]
  by (simp add: sample_frame_def)

theorem receive_message_range_witness:
  "\<exists>n. fst (run_state (receive_message sample_env sample_socket (Ptr 2 0) (Ptr 3 0) (Ptr 4 0) 4)
          sample_world) = Inr n \<and> -14 \<le> sint n \<and> sint n \<le> 4"
proof -
  obtain w' where run: "run_state (receive_message sample_env sample_socket (Ptr 2 0) (Ptr 3 0) (Ptr 4 0) 4)
      sample_world = (Inr 2, w')"
    using run_receive_message [OF sample_recv_ready, of sample_env sample_socket sample_frame]
      sample_recv by (simp add: sample_frame_def)
  from receive_message_range [OF sample_env_documented(3) sample_recv_ready _ run] show ?thesis
    by (auto simp: run)
qed

theorem loopback_witness:
  "\<exists>w3 buf. run_state (receive_message sample_env sample_socket (Ptr 2 0) (Ptr 3 0) (Ptr 4 0) 4)
       sample_world = (Inr 2, w3) \<and> heap w3 3 = Some [0xde, 0xad, 0, 0, 0xff, 0xff] \<and>
     heap w3 4 = Some buf \<and> take 2 buf = [0x68, 0x69]"
proof -
  let ?dst = "[0xde, 0xad, 0, 0, 0xff, 0xff] :: byte list" and ?msg = "[0x68, 0x69] :: byte list"
  obtain r w1 where run: "run_state (send_message sample_env sample_socket (Ptr 0 0) (Ptr 1 0) 2)
      sample_world = (r, w1)" by fastforce
  have f: "encode_frame (message_frame sample_socket ?dst ?msg) = sample_frame"
    and d: "socket_descriptor sample_socket = 5"
    by (simp_all add: encode_frame_def message_frame_def sample_socket_def sample_frame_def)
  have "\<exists>ret. Ev_sendto 5 sample_frame 16 0 (send_addr sample_socket) sizeof_sockaddr_ll ret
      \<in> set (drop (length (trace sample_world)) (trace w1))"
    by (rule send_message_cases [OF sample_send_ready run]) (auto simp: f d)
  then obtain ret where "Ev_sendto 5 sample_frame 16 0 (send_addr sample_socket) sizeof_sockaddr_ll ret
      \<in> set (drop (length (trace sample_world)) (trace w1))" ..
  from loopback [OF sample_send_ready run this sample_recv_ready] sample_recv
  show ?thesis by (simp add: sample_frame_def)
qed

lemma sample_add:
  "fst (run_state (add_membership sample_env sample_socket MULTICAST (Ptr 0 0)) w) = Inr ()"
  if "mem_load (heap w) (Ptr 0 0) 6 = Inr a"
  using that run_manage_membership [of MULTICAST w "Ptr 0 0" a sample_env sample_socket ADD_MEMBERSHIP]
  by (simp add: add_membership_def is_valid_membership_type_def Let_def sample_env_def)

theorem add_membership_effect_witness:
  "heap (snd (run_state (add_membership sample_env sample_socket MULTICAST (Ptr 0 0)) sample_world))
     = heap sample_world"
  using add_membership_effect [OF _ _ prod.collapse [symmetric], of MULTICAST sample_world "Ptr 0 0"
      "[0xde, 0xad, 0, 0, 0xff, 0xff]" sample_env sample_socket]
  by (simp add: is_valid_membership_type_def sample_world_def)


lemma sample_drop:
  "fst (run_state (drop_membership sample_env sample_socket MULTICAST (Ptr 0 0)) w) = Inr ()"
  if "mem_load (heap w) (Ptr 0 0) 6 = Inr a"
  using that run_manage_membership [of MULTICAST w "Ptr 0 0" a sample_env sample_socket DROP_MEMBERSHIP]
  by (simp add: drop_membership_def is_valid_membership_type_def Let_def sample_env_def)

theorem drop_undoes_add_witness:
  "\<exists>w1 w2. run_state (add_membership sample_env sample_socket MULTICAST (Ptr 0 0)) sample_world = (Inr (), w1) \<and>
     run_state (drop_membership sample_env sample_socket MULTICAST (Ptr 0 0)) w1 = (Inr (), w2) \<and>
     memberships (trace w2) = {#}"
proof -
  let ?a = "[0xde, 0xad, 0, 0, 0xff, 0xff] :: byte list"
  have a: "mem_load (heap sample_world) (Ptr 0 0) 6 = Inr ?a" by (simp add: sample_world_def)
  have v: "is_valid_membership_type MULTICAST" by (simp add: is_valid_membership_type_def)
  obtain w1 where r1: "run_state (add_membership sample_env sample_socket MULTICAST (Ptr 0 0)) sample_world
      = (Inr (), w1)" using sample_add [OF a] by (metis prod.collapse)
  have "heap w1 = heap sample_world" using run_add_drop(1) [OF v a r1] by simp
  with a have "mem_load (heap w1) (Ptr 0 0) 6 = Inr ?a" by simp
  from sample_drop [OF this] obtain w2 where
    r2: "run_state (drop_membership sample_env sample_socket MULTICAST (Ptr 0 0)) w1 = (Inr (), w2)"
    by (metis prod.collapse)
  from drop_undoes_add [OF v _ r1 r2] a r1 r2 show ?thesis
    by (auto simp: sample_world_def memberships_def)
qed

end
