(* ===== verification/Poller_Facts.thy ===== *)
theory Poller_Facts
  imports Poller
begin

text \<open>
  What the pollers do: the invariant that ties every live \<open>UvPoller\<close> to its libuv handle, the
  contract of the abstract class \<open>Poller\<close> with its interpretations on both implementations, and the
  dispatch of io events.  The view \<open>watching\<close> reads off the history what libuv is asked to watch;
  \<open>uv_legal\<close> says that no call used a handle before its initialisation or after \<open>uv_close\<close>.
\<close>

unbundle bit_operations_syntax

section \<open>What libuv is asked for\<close>

text \<open>
  For every open handle the mask of events libuv is asked to watch, 0 while it is stopped.  Whether libuv
  does is not seen by the program, which ignores what the calls return; an error that libuv meets
  later comes as an io event with a status.
\<close>

fun watch_step :: "(nat \<rightharpoonup> i32) \<Rightarrow> event \<Rightarrow> (nat \<rightharpoonup> i32)" where
  "watch_step m (Uv_poll_init h fd) = m(h \<mapsto> 0)"
| "watch_step m (Uv_poll_start h ev) = m(h \<mapsto> ev)"
| "watch_step m (Uv_poll_stop h) = m(h \<mapsto> 0)"
| "watch_step m (Uv_close h) = m(h := None)"
| "watch_step m _ = m"

definition watching :: "history \<Rightarrow> nat \<rightharpoonup> i32" where
  "watching h = foldl watch_step Map.empty h"

fun uv_use :: "event \<Rightarrow> nat option" where
  "uv_use (Uv_poll_start h _) = Some h"
| "uv_use (Uv_poll_stop h) = Some h"
| "uv_use (Uv_close h) = Some h"
| "uv_use _ = None"

definition uv_legal :: "history \<Rightarrow> bool" where
  "uv_legal h \<longleftrightarrow> (\<forall>i < length h. \<forall>x. uv_use (h ! i) = Some x \<longrightarrow> watching (take i h) x \<noteq> None)"

lemma watching_Nil [simp]: "watching [] = Map.empty"
  by (simp add: watching_def)

lemma watching_snoc [simp]: "watching (h @ [e]) = watch_step (watching h) e"
  by (simp add: watching_def)

lemma watching_snoc2 [simp]:
  "watching (h @ [e, f]) = watch_step (watch_step (watching h) e) f"
  by (simp add: watching_def)

lemma uv_legal_Nil [simp]: "uv_legal []"
  by (simp add: uv_legal_def)

lemma uv_legal_snoc [simp]:
  "uv_legal (h @ [e]) \<longleftrightarrow> uv_legal h \<and> (\<forall>x. uv_use e = Some x \<longrightarrow> watching h x \<noteq> None)"
  by (auto simp: uv_legal_def nth_append less_Suc_eq)

text \<open>Events that are not calls to libuv leave both views alone.\<close>

fun is_uv :: "event \<Rightarrow> bool" where
  "is_uv (Uv_poll_init _ _) = True"
| "is_uv (Uv_poll_start _ _) = True"
| "is_uv (Uv_poll_stop _) = True"
| "is_uv (Uv_close _) = True"
| "is_uv _ = False"

lemma not_uv [simp]: "\<not> is_uv e \<Longrightarrow> watch_step m e = m" "\<not> is_uv e \<Longrightarrow> uv_use e = None"
  by (cases e; simp)+

section \<open>The invariant\<close>

text \<open>
  Every live \<open>UvPoller\<close> owns an open handle that points back to it and is watched with the mask
  of \<open>current_events\<close>; every open handle belongs to a live poller; no call misused a handle;
  addresses not handed out yet are unused.
\<close>

definition owns_handle :: "'a poll_world_scheme \<Rightarrow> nat \<Rightarrow> uv_poller \<Rightarrow> bool" where
  "owns_handle w p u \<longleftrightarrow> handles w (uv_poll u) = Some p \<and>
     watching (trace w) (uv_poll u) = Some (event_mask (current_events u))"

definition poll_inv :: "'a poll_world_scheme \<Rightarrow> bool" where
  "poll_inv w \<longleftrightarrow>
     (\<forall>p u. pollers w p = Some (UvPoller u) \<longrightarrow> owns_handle w p u) \<and>
     (\<forall>h. watching (trace w) h \<noteq> None \<longrightarrow>
        (\<exists>p u. pollers w p = Some (UvPoller u) \<and> uv_poll u = h)) \<and>
     uv_legal (trace w) \<and>
     (\<forall>a \<ge> next_obj w. pollers w a = None \<and> handles w a = None \<and> watching (trace w) a = None)"

lemma poll_invD:
  assumes "poll_inv w"
  shows "pollers w p = Some (UvPoller u) \<Longrightarrow> owns_handle w p u"
    and "watching (trace w) h \<noteq> None \<Longrightarrow> \<exists>p u. pollers w p = Some (UvPoller u) \<and> uv_poll u = h"
    and "uv_legal (trace w)"
    and "next_obj w \<le> a \<Longrightarrow> pollers w a = None \<and> handles w a = None \<and> watching (trace w) a = None"
  using assms unfolding poll_inv_def by blast+

lemma poll_inv_fresh [simp]:
  "poll_inv w \<Longrightarrow> pollers w (next_obj w) = None" "poll_inv w \<Longrightarrow> handles w (next_obj w) = None"
  "poll_inv w \<Longrightarrow> pollers w (Suc (next_obj w)) = None"
  "poll_inv w \<Longrightarrow> handles w (Suc (next_obj w)) = None"
  by (simp_all add: poll_invD(4))

lemma owner_unique:
  assumes "poll_inv w" "pollers w p = Some (UvPoller u)" "pollers w q = Some (UvPoller v)"
    and "uv_poll u = uv_poll v"
  shows "p = q"
  using poll_invD(1) [OF assms(1,2)] poll_invD(1) [OF assms(1,3)] assms(4)
  by (simp add: owns_handle_def)

section \<open>Execution of the operations\<close>

lemma run_uv_member [run_simps]:
  "run_state (uv_member p) w =
     (case pollers w p of Some (UvPoller u) \<Rightarrow> (Inr u, w) | _ \<Rightarrow> (Inl (Undefined Use_after_free), w))"
  by (simp add: uv_member_def split: option.splits poller.splits)

lemma run_new_addr [run_simps]:
  "run_state new_addr w = (Inr (next_obj w), w\<lparr>next_obj := Suc (next_obj w)\<rparr>)"
  by (simp add: new_addr_def)

lemma run_UvPoller_new:
  "run_state (UvPoller_new fd r wr er d) w =
    (Inr (next_obj w),
     w\<lparr>trace := trace w @ [Uv_poll_init (Suc (next_obj w)) fd, Uv_poll_start (Suc (next_obj w)) UV_READABLE],
       pollers := (pollers w)(next_obj w \<mapsto> UvPoller
         \<lparr>read_ready_callback = r, write_ready_callback = wr, error_callback = er, external_data = d,
          uv_poll = Suc (next_obj w), current_events = READ_EVENT\<rparr>),
       handles := (handles w)(Suc (next_obj w) \<mapsto> next_obj w),
       next_obj := Suc (Suc (next_obj w))\<rparr>)"
  by (simp add: UvPoller_new_def put_handle_def put_poller_def run_simps)

lemma run_set_events_uv:
  assumes "pollers w p = Some (UvPoller u)"
  shows "run_state (set_events p e) w =
    (Inr (),
     if e = current_events u then w
     else w\<lparr>trace := trace w @ Uv_poll_stop (uv_poll u) #
              (if e = NONE_EVENT then [] else [Uv_poll_start (uv_poll u) (event_mask e)]),
            pollers := (pollers w)(p \<mapsto> UvPoller (u\<lparr>current_events := e\<rparr>))\<rparr>)"
  using assms by (simp add: set_events_def UvPoller_set_events_def put_poller_def run_simps)

lemma run_set_events_null:
  "pollers w p = Some NullPoller \<Longrightarrow> run_state (set_events p e) w = (Inr (), w)"
  by (simp add: set_events_def NullPoller_set_events_def run_simps)

lemma run_delete_poller:
  "run_state (delete_poller p) w =
    (case pollers w p of
       None \<Rightarrow> (Inl (Undefined Bad_free), w)
     | Some (UvPoller u) \<Rightarrow> (Inr (), w\<lparr>trace := trace w @ [Uv_close (uv_poll u)],
                                       pollers := (pollers w)(p := None)\<rparr>)
     | Some NullPoller \<Rightarrow> (Inr (), w\<lparr>pollers := (pollers w)(p := None)\<rparr>))"
  by (simp add: delete_poller_def UvPoller_destruct_def put_poller_def run_simps
       split: option.splits poller.splits)

lemma run_NullPoller_new:
  "run_state NullPoller_new w = (Inr (next_obj w),
     w\<lparr>pollers := (pollers w)(next_obj w \<mapsto> NullPoller), next_obj := Suc (next_obj w)\<rparr>)"
  by (simp add: NullPoller_new_def put_poller_def run_simps)

lemma run_on_close:
  "run_state (on_close h) w =
    (if handles w h = None then (Inl (Undefined Bad_free), w)
     else (Inr (), w\<lparr>handles := (handles w)(h := None)\<rparr>))"
  by (auto simp: on_close_def put_handle_def run_simps split: option.splits)

section \<open>Every operation keeps the invariant\<close>

lemma UvPoller_new_inv:
  assumes "poll_inv w"
  shows "poll_inv (snd (run_state (UvPoller_new fd r wr er d) w))"
proof -
  have "p \<noteq> Suc (next_obj w)" if "pollers w p = Some x" for p x
    using that poll_invD(4) [OF assms, of p] by (metis le_SucI option.distinct(1) order_refl)
  moreover have "uv_poll u \<noteq> Suc (next_obj w)" if "pollers w p = Some (UvPoller u)" for p u
    using poll_invD(1) [OF assms that] poll_invD(4) [OF assms, of "uv_poll u"]
    by (auto simp: owns_handle_def)
  ultimately show ?thesis
    using poll_invD [OF assms] 
    unfolding poll_inv_def run_UvPoller_new snd_conv
    apply (intro conjI)
    subgoal by (auto simp: owns_handle_def)
    subgoal by (auto) (metis option.distinct(1) poll_inv_fresh(1) assms)
    subgoal using uv_legal_snoc [of "trace w @ [Uv_poll_init (Suc (next_obj w)) fd]"
        "Uv_poll_start (Suc (next_obj w)) UV_READABLE"] by simp
    subgoal by auto
    done
qed

lemma poll_inv_rewatch:
  assumes inv: "poll_inv w" and u: "pollers w p = Some (UvPoller u)"
    and t: "watching t = (watching (trace w))(uv_poll u \<mapsto> event_mask e)" "uv_legal t"
  shows "poll_inv (w\<lparr>trace := t, pollers := (pollers w)(p \<mapsto> UvPoller (u\<lparr>current_events := e\<rparr>))\<rparr>)"
proof -
  have own: "owns_handle w p u" by (rule poll_invD(1) [OF inv u])
  have low: "p < next_obj w" "uv_poll u < next_obj w"
    using poll_invD(4) [OF inv, of p] poll_invD(4) [OF inv, of "uv_poll u"] u own
    by (auto simp: owns_handle_def not_le [symmetric])
  have other: "uv_poll v \<noteq> uv_poll u" if "pollers w q = Some (UvPoller v)" "q \<noteq> p" for q v
    using owner_unique [OF inv that(1) u] that(2) by auto
  show ?thesis
    unfolding poll_inv_def
  proof (intro conjI)
    show "\<forall>q v. pollers (w\<lparr>trace := t, pollers := (pollers w)(p \<mapsto> UvPoller (u\<lparr>current_events := e\<rparr>))\<rparr>) q
        = Some (UvPoller v) \<longrightarrow>
       owns_handle (w\<lparr>trace := t, pollers := (pollers w)(p \<mapsto> UvPoller (u\<lparr>current_events := e\<rparr>))\<rparr>) q v"
      using poll_invD(1) [OF inv] own other by (auto simp: owns_handle_def t(1))
    show "\<forall>h. watching (trace (w\<lparr>trace := t, pollers := (pollers w)(p \<mapsto> UvPoller (u\<lparr>current_events := e\<rparr>))\<rparr>)) h
        \<noteq> None \<longrightarrow> (\<exists>q v. pollers (w\<lparr>trace := t,
           pollers := (pollers w)(p \<mapsto> UvPoller (u\<lparr>current_events := e\<rparr>))\<rparr>) q = Some (UvPoller v) \<and> uv_poll v = h)"
    proof (intro allI impI)
      fix h
      assume "watching (trace (w\<lparr>trace := t, pollers := (pollers w)(p \<mapsto> UvPoller (u\<lparr>current_events := e\<rparr>))\<rparr>)) h \<noteq> None"
      then have "h = uv_poll u \<or> watching (trace w) h \<noteq> None" by (auto simp: t(1) split: if_splits)
      then obtain q v where q: "pollers w q = Some (UvPoller v)" "uv_poll v = h"
        using poll_invD(2) [OF inv] u by blast
      then show "\<exists>q v. pollers (w\<lparr>trace := t,
           pollers := (pollers w)(p \<mapsto> UvPoller (u\<lparr>current_events := e\<rparr>))\<rparr>) q = Some (UvPoller v) \<and> uv_poll v = h"
        using u by (cases "q = p") (auto intro: exI [of _ q])
    qed
  qed (use t low poll_invD(4) [OF inv] in auto)
qed

lemma set_events_inv:
  assumes "poll_inv w"
  shows "poll_inv (snd (run_state (set_events p e) w))"
proof (cases "pollers w p")
  case None
  with assms show ?thesis by (simp add: set_events_def run_simps)
next
  case (Some x)
  show ?thesis
  proof (cases x)
    case (UvPoller u)
    with Some have u: "pollers w p = Some (UvPoller u)" by simp
    have on: "watching (trace w) (uv_poll u) \<noteq> None"
      using poll_invD(1) [OF assms u] by (simp add: owns_handle_def)
    let ?t = "trace w @ Uv_poll_stop (uv_poll u) #
        (if e = NONE_EVENT then [] else [Uv_poll_start (uv_poll u) (event_mask e)])"
    have "watching ?t = (watching (trace w))(uv_poll u \<mapsto> event_mask e)"
      by simp
    moreover have "uv_legal ?t"
      using poll_invD(3) [OF assms] on
        uv_legal_snoc [of "trace w @ [Uv_poll_stop (uv_poll u)]" "Uv_poll_start (uv_poll u) (event_mask e)"]
      by auto
    ultimately have "poll_inv (w\<lparr>trace := ?t, pollers := (pollers w)(p \<mapsto> UvPoller (u\<lparr>current_events := e\<rparr>))\<rparr>)"
      by (rule poll_inv_rewatch [OF assms u])
    then show ?thesis using assms by (simp add: run_set_events_uv [OF u])
  next
    case NullPoller
    with Some assms show ?thesis by (simp add: run_set_events_null)
  qed
qed

lemma delete_poller_inv:
  assumes "poll_inv w"
  shows "poll_inv (snd (run_state (delete_poller p) w))"
proof (cases "\<exists>u. pollers w p = Some (UvPoller u)")
  case True
  then obtain u where u: "pollers w p = Some (UvPoller u)" by blast
  have own: "owns_handle w p u" by (rule poll_invD(1) [OF assms u])
  have other: "uv_poll v \<noteq> uv_poll u" if "pollers w q = Some (UvPoller v)" "q \<noteq> p" for q v
    using owner_unique [OF assms that(1) u] that(2) by auto
  have "\<exists>q v. ((pollers w)(p := None)) q = Some (UvPoller v) \<and> uv_poll v = h"
    if on: "watching (trace w) h \<noteq> None" and ne: "h \<noteq> uv_poll u" for h
  proof -
    obtain q v where q: "pollers w q = Some (UvPoller v)" "uv_poll v = h"
      using poll_invD(2) [OF assms on] by blast
    with ne u have "q \<noteq> p" by auto
    with q show ?thesis by (intro exI [of _ q] exI [of _ v]) simp
  qed
  with other own poll_invD [OF assms] show ?thesis
    unfolding poll_inv_def by (auto simp: run_delete_poller u owns_handle_def split: if_splits)
next
  case False
  have "\<exists>q v. ((pollers w)(p := None)) q = Some (UvPoller v) \<and> uv_poll v = h"
    if "watching (trace w) h \<noteq> None" for h
    using poll_invD(2) [OF assms that] False by fastforce
  with False poll_invD [OF assms] show ?thesis
    unfolding poll_inv_def
    by (auto simp: run_delete_poller owns_handle_def split: option.splits poller.splits if_splits)
qed

lemma NullPoller_new_inv:
  assumes "poll_inv w"
  shows "poll_inv (snd (run_state NullPoller_new w))"
proof -
  have "\<exists>q v. ((pollers w)(next_obj w \<mapsto> NullPoller)) q = Some (UvPoller v) \<and> uv_poll v = h"
    if on: "watching (trace w) h \<noteq> None" for h
  proof -
    obtain q v where q: "pollers w q = Some (UvPoller v)" "uv_poll v = h"
      using poll_invD(2) [OF assms on] by blast
    with poll_inv_fresh(1) [OF assms] have "q \<noteq> next_obj w" by auto
    with q show ?thesis by (intro exI [of _ q] exI [of _ v]) simp
  qed
  with poll_invD [OF assms] show ?thesis
    unfolding poll_inv_def by (auto simp: run_NullPoller_new owns_handle_def split: if_splits)
qed

text \<open>libuv makes the close callback only for a handle that was closed.\<close>

lemma on_close_inv:
  assumes "poll_inv w" and "watching (trace w) h = None"
  shows "poll_inv (snd (run_state (on_close h) w))"
  using poll_invD [OF assms(1)] assms(2)
  unfolding poll_inv_def by (auto simp: run_on_close owns_handle_def)

section \<open>Reachable worlds\<close>

text \<open>
  The life of the pollers as a transition system: the program creates, re-targets and deletes
  pollers it holds a live pointer to; libuv makes the close callback for a handle that was closed and
  whose memory is still there.
\<close>

definition poll_init :: "'a poll_world_scheme \<Rightarrow> bool" where
  "poll_init w \<longleftrightarrow> pollers w = Map.empty \<and> handles w = Map.empty \<and>
     watching (trace w) = Map.empty \<and> uv_legal (trace w)"

inductive poll_step :: "'a poll_world_scheme \<Rightarrow> 'a poll_world_scheme \<Rightarrow> bool" where
  create_uv: "poll_step w (snd (run_state (UvPoller_new fd r wr er d) w))"
| create_null: "poll_step w (snd (run_state NullPoller_new w))"
| re_target: "pollers w p \<noteq> None \<Longrightarrow> poll_step w (snd (run_state (set_events p e) w))"
| destroy: "pollers w p \<noteq> None \<Longrightarrow> poll_step w (snd (run_state (delete_poller p) w))"
| closed: "handles w h \<noteq> None \<Longrightarrow> watching (trace w) h = None \<Longrightarrow>
     poll_step w (snd (run_state (on_close h) w))"

inductive poll_reach :: "'a poll_world_scheme \<Rightarrow> bool" where
  start: "poll_init w \<Longrightarrow> poll_reach w"
| step: "poll_reach w \<Longrightarrow> poll_step w w' \<Longrightarrow> poll_reach w'"

lemma poll_init_inv: "poll_init w \<Longrightarrow> poll_inv w"
  by (simp add: poll_init_def poll_inv_def)

lemma poll_step_inv: "poll_step w w' \<Longrightarrow> poll_inv w \<Longrightarrow> poll_inv w'"
  by (induction rule: poll_step.induct)
     (simp_all add: UvPoller_new_inv NullPoller_new_inv set_events_inv delete_poller_inv on_close_inv)

lemma poll_reach_inv: "poll_reach w \<Longrightarrow> poll_inv w"
  by (induction rule: poll_reach.induct) (blast intro: poll_init_inv poll_step_inv)+

text \<open>
  C31. In every world the pollers can reach, each live \<open>UvPoller\<close> owns a handle that is open, points
  back to it and watches exactly its current events; every open handle belongs to exactly one live
  poller; and libuv was never called with a handle not yet initialised or already closed.
\<close>

theorem reachable_pollers:
  assumes "poll_reach w"
  shows "uv_legal (trace w) \<and>
    (\<forall>p u. pollers w p = Some (UvPoller u) \<longrightarrow>
       handles w (uv_poll u) = Some p \<and>
       watching (trace w) (uv_poll u) = Some (event_mask (current_events u))) \<and>
    (\<forall>h. watching (trace w) h \<noteq> None \<longrightarrow>
       (\<exists>!p. \<exists>u. pollers w p = Some (UvPoller u) \<and> uv_poll u = h))"
proof -
  note inv = poll_reach_inv [OF assms]
  have "\<exists>!p. \<exists>u. pollers w p = Some (UvPoller u) \<and> uv_poll u = h" if "watching (trace w) h \<noteq> None" for h
    using poll_invD(2) [OF inv that] owner_unique [OF inv] by (metis (no_types))
  then show ?thesis using poll_invD(1,3) [OF inv] by (simp add: owns_handle_def)
qed

section \<open>The contract of the class Poller\<close>

definition asked :: "'a poll_world_scheme \<Rightarrow> nat \<Rightarrow> i32 option" where
  "asked w p = (case pollers w p of
     Some (UvPoller u) \<Rightarrow> watching (trace w) (uv_poll u) | _ \<Rightarrow> None)"

text \<open>
  What a user of the abstract class relies on: \<open>set_events\<close> returns, keeps the poller usable, asks
  for exactly the events given (if the poller watches anything at all), and does nothing when
  they are asked for already.
\<close>

locale poller_contract =
  fixes set_ev :: "nat \<Rightarrow> poller_events \<Rightarrow> ('a poll_world_scheme, unit) prog"
    and usable :: "'a poll_world_scheme \<Rightarrow> nat \<Rightarrow> bool"
  assumes returns: "usable w p \<Longrightarrow> fst (run_state (set_ev p e) w) = Inr ()"
    and stays_usable: "usable w p \<Longrightarrow> usable (snd (run_state (set_ev p e) w)) p"
    and asks: "usable w p \<Longrightarrow>
      asked (snd (run_state (set_ev p e) w)) p = map_option (\<lambda>_. event_mask e) (asked w p)"
    and settled: "usable w p \<Longrightarrow> asked w p \<in> {None, Some (event_mask e)} \<Longrightarrow>
      snd (run_state (set_ev p e) w) = w"
begin

lemma idempotent:
  assumes "usable w p" "w' = snd (run_state (set_ev p e) w)"
  shows "run_state (set_ev p e) w' = (Inr (), w')"
proof -
  have u: "usable w' p" unfolding assms(2) by (rule stays_usable [OF assms(1)])
  have "asked w' p \<in> {None, Some (event_mask e)}"
    unfolding assms(2) asks [OF assms(1)] by (cases "asked w p") auto
  from settled [OF u this] returns [OF u, of e] show ?thesis by (metis prod.collapse)
qed

lemma last_wins:
  "usable w p \<Longrightarrow> es \<noteq> [] \<Longrightarrow>
   fst (run_state (each (set_ev p) es) w) = Inr () \<and>
   usable (snd (run_state (each (set_ev p) es) w)) p \<and>
   asked (snd (run_state (each (set_ev p) es) w)) p = map_option (\<lambda>_. event_mask (last es)) (asked w p)"
proof (induction es arbitrary: w)
  case Nil
  then show ?case by simp
next
  case (Cons e es)
  obtain w1 where run: "run_state (set_ev p e) w = (Inr (), w1)"
    using run_pair [OF returns [OF Cons.prems(1)]] by blast
  have u1: "usable w1 p" using stays_usable [OF Cons.prems(1), of e] by (simp add: run)
  have a1: "asked w1 p = map_option (\<lambda>_. event_mask e) (asked w p)"
    using asks [OF Cons.prems(1), of e] by (simp add: run)
  show ?case
  proof (cases "es = []")
    case True
    then show ?thesis using run u1 a1 by (simp add: run_after run_give)
  next
    case False
    from Cons.IH [OF u1 False] False a1 show ?thesis
      by (simp add: run_after run option.map_comp comp_def)
  qed
qed

end

text \<open>A poller that watches nothing is left alone by every call.\<close>

locale inert_poller = poller_contract +
  assumes inert: "usable w p \<Longrightarrow> asked w p = None"
begin

lemma no_effect: "usable w p \<Longrightarrow> run_state (each (set_ev p) es) w = (Inr (), w)"
proof (induction es)
  case (Cons e es)
  have "run_state (set_ev p e) w = (Inr (), w)"
    using returns [OF Cons.prems] settled [OF Cons.prems, of e] inert [OF Cons.prems]
    by (metis insertI1 prod.collapse)
  with Cons show ?case by (simp add: run_after)
qed (simp add: run_give)

end

lemma event_mask_inject [simp]: "event_mask e = event_mask f \<longleftrightarrow> e = f"
  by (cases e; cases f) (simp_all add: UV_READABLE_def UV_WRITABLE_def)

lemma event_mask_zero [simp]: "event_mask e = 0 \<longleftrightarrow> e = NONE_EVENT" "0 = event_mask e \<longleftrightarrow> e = NONE_EVENT"
  by (cases e; simp add: UV_READABLE_def UV_WRITABLE_def)+

lemma asked_uv: "poll_inv w \<Longrightarrow> pollers w p = Some (UvPoller u) \<Longrightarrow> asked w p = Some (event_mask (current_events u))"
  using poll_invD(1) [of w p u] by (simp add: asked_def owns_handle_def)

lemma asked_null: "pollers w p = Some NullPoller \<Longrightarrow> asked w p = None"
  by (simp add: asked_def)

lemma set_events_uv_view:
  assumes "poll_inv w" and u: "pollers w p = Some (UvPoller u)"
  shows "pollers (snd (run_state (set_events p e) w)) p = Some (UvPoller (u\<lparr>current_events := e\<rparr>))"
    and "watching (trace (snd (run_state (set_events p e) w)))
       = (watching (trace w))(uv_poll u \<mapsto> event_mask e)"
proof -
  have "watching (trace w) (uv_poll u) = Some (event_mask (current_events u))"
    using poll_invD(1) [OF assms] by (simp add: owns_handle_def)
  then have "(watching (trace w))(uv_poll u \<mapsto> event_mask (current_events u)) = watching (trace w)"
    by (rule fun_upd_idem)
  then show "watching (trace (snd (run_state (set_events p e) w)))
       = (watching (trace w))(uv_poll u \<mapsto> event_mask e)"
    by (auto simp: run_set_events_uv [OF u])
  show "pollers (snd (run_state (set_events p e) w)) p = Some (UvPoller (u\<lparr>current_events := e\<rparr>))"
    using u by (auto simp: run_set_events_uv [OF u])
qed

interpretation virtual: poller_contract set_events "\<lambda>w p. poll_inv w \<and> pollers w p \<noteq> None"
proof
  fix w :: "'a poll_world_scheme" and p e
  assume *: "poll_inv w \<and> pollers w p \<noteq> None"
  then obtain x where x: "pollers w p = Some x" by auto
  let ?w' = "snd (run_state (set_events p e) w)"
  have inv': "poll_inv ?w'" using * by (simp add: set_events_inv)
  show "fst (run_state (set_events p e) w) = Inr ()"
    using x by (cases x) (simp_all add: run_set_events_uv run_set_events_null)
  show "poll_inv ?w' \<and> pollers ?w' p \<noteq> None"
    using inv' x * by (cases x) (simp_all add: set_events_uv_view(1) run_set_events_null)
  show "asked ?w' p = map_option (\<lambda>_. event_mask e) (asked w p)"
    using x * by (cases x) (auto simp: asked_def set_events_uv_view run_set_events_null owns_handle_def
        dest: poll_invD(1))
  assume a: "asked w p \<in> {None, Some (event_mask e)}"
  show "?w' = w"
  proof (cases x)
    case (UvPoller u)
    with x * a show ?thesis by (simp add: asked_uv run_set_events_uv)
  next
    case NullPoller
    with x show ?thesis by (simp add: run_set_events_null)
  qed
qed

lemma set_events_dispatch:
  "pollers w p = Some (UvPoller u) \<Longrightarrow> run_state (UvPoller_set_events p e) w = run_state (set_events p e) w"
  "pollers w p = Some NullPoller \<Longrightarrow> run_state (NullPoller_set_events p e) w = run_state (set_events p e) w"
  by (simp_all add: set_events_def run_simps)

interpretation uv: poller_contract UvPoller_set_events
  "\<lambda>w p. poll_inv w \<and> (\<exists>u. pollers w p = Some (UvPoller u))"
proof
  fix w :: "'a poll_world_scheme" and p e
  assume "poll_inv w \<and> (\<exists>u. pollers w p = Some (UvPoller u))"
  then obtain u where inv: "poll_inv w" and u: "pollers w p = Some (UvPoller u)" by blast
  have v: "poll_inv w \<and> pollers w p \<noteq> None" using inv u by simp
  note eq = set_events_dispatch(1) [OF u, of e]
  show "fst (run_state (UvPoller_set_events p e) w) = Inr ()"
    unfolding eq by (rule virtual.returns [OF v])
  show "poll_inv (snd (run_state (UvPoller_set_events p e) w)) \<and>
      (\<exists>u. pollers (snd (run_state (UvPoller_set_events p e) w)) p = Some (UvPoller u))"
    unfolding eq using set_events_inv [OF inv] set_events_uv_view(1) [OF inv u] by blast
  show "asked (snd (run_state (UvPoller_set_events p e) w)) p = map_option (\<lambda>_. event_mask e) (asked w p)"
    unfolding eq by (rule virtual.asks [OF v])
  assume "asked w p \<in> {None, Some (event_mask e)}"
  then show "snd (run_state (UvPoller_set_events p e) w) = w"
    unfolding eq by (rule virtual.settled [OF v])
qed

interpretation null: inert_poller NullPoller_set_events "\<lambda>w p. pollers w p = Some NullPoller"
  by unfold_locales (auto simp: NullPoller_set_events_def run_give asked_def)

section \<open>Requests to a poller\<close>

lemma run_each_set_events:
  assumes "poll_inv w" "pollers w p = Some (UvPoller u)" "e = last (current_events u # es)"
  shows "\<exists>w'. run_state (each (set_events p) es) w = (Inr (), w') \<and> poll_inv w' \<and>
    pollers w' = (pollers w)(p \<mapsto> UvPoller (u\<lparr>current_events := e\<rparr>)) \<and> handles w' = handles w \<and>
    watching (trace w') = (watching (trace w))(uv_poll u \<mapsto> event_mask e) \<and> next_obj w' = next_obj w"
  using assms
proof (induction es arbitrary: w u)
  case Nil
  then have "owns_handle w p u" by (blast intro: poll_invD(1))
  with Nil show ?case by (simp add: run_give owns_handle_def fun_upd_idem)
next
  case (Cons f es)
  obtain w1 where run: "run_state (set_events p f) w = (Inr (), w1)"
    using Cons.prems(2) by (metis run_set_events_uv)
  have inv1: "poll_inv w1" using set_events_inv [OF Cons.prems(1), of p f] by (simp add: run)
  have p1: "pollers w1 p = Some (UvPoller (u\<lparr>current_events := f\<rparr>))"
    and t1: "watching (trace w1) = (watching (trace w))(uv_poll u \<mapsto> event_mask f)"
    using set_events_uv_view [OF Cons.prems(1,2), of f] by (simp_all add: run)
  have o1: "handles w1 = handles w" "next_obj w1 = next_obj w"
      "pollers w1 = (pollers w)(p := pollers w1 p)"
    using run Cons.prems(2) by (auto simp: run_set_events_uv split: if_splits)
  have "e = last (current_events (u\<lparr>current_events := f\<rparr>) # es)" using Cons.prems(3) by simp
  from Cons.IH [OF inv1 p1 this] obtain w2 where
    w2: "run_state (each (set_events p) es) w1 = (Inr (), w2)" "poll_inv w2"
      "pollers w2 = (pollers w1)(p \<mapsto> UvPoller (u\<lparr>current_events := e\<rparr>))" "handles w2 = handles w1"
      "watching (trace w2) = (watching (trace w1))(uv_poll u \<mapsto> event_mask e)" "next_obj w2 = next_obj w1"
    by (auto simp: fun_upd_def)
  have "pollers w2 = (pollers w)(p \<mapsto> UvPoller (u\<lparr>current_events := e\<rparr>))"
    by (subst w2(3), subst o1(3)) simp
  with w2 o1(1,2) t1 show ?case by (simp add: run_after run fun_eq_iff)
qed

text \<open>
  \<open>set_events\<close> of a live \<open>UvPoller\<close> stops the handle and starts it again with the new mask, in
  this order and on its own handle; asked for the events already watched it calls nothing, and for
  no events it only stops.
\<close>

lemma set_events_calls:
  assumes "pollers w p = Some (UvPoller u)"
  shows "\<exists>w'. run_state (set_events p e) w = (Inr (), w') \<and>
    trace w' = trace w @ (if e = current_events u then []
       else if e = NONE_EVENT then [Uv_poll_stop (uv_poll u)]
       else [Uv_poll_stop (uv_poll u), Uv_poll_start (uv_poll u) (event_mask e)]) \<and>
    pollers w' = (pollers w)(p \<mapsto> UvPoller (u\<lparr>current_events := e\<rparr>)) \<and> heap w' = heap w"
proof (cases "e = current_events u")
  case True
  then have "(pollers w)(p \<mapsto> UvPoller (u\<lparr>current_events := e\<rparr>)) = pollers w"
    using assms by (simp add: fun_upd_idem)
  with True show ?thesis by (simp add: run_set_events_uv [OF assms])
qed (simp add: run_set_events_uv [OF assms])

text \<open>
  C32. Any sequence of requests to a live poller of either kind returns, keeps the invariant and
  leaves exactly the last mask watched; a poller that watches nothing still watches nothing.
\<close>

theorem set_events_last_wins:
  assumes "poll_inv w" and "pollers w p \<noteq> None" and "es \<noteq> []"
  shows "\<exists>w'. run_state (each (set_events p) es) w = (Inr (), w') \<and> poll_inv w' \<and>
    asked w' p = map_option (\<lambda>_. event_mask (last es)) (asked w p)"
proof -
  have "poll_inv w \<and> pollers w p \<noteq> None" using assms(1,2) by simp
  from virtual.last_wins [OF this assms(3)] show ?thesis
    by (metis prod.collapse)
qed

text \<open>
  Requests to a \<open>NullPoller\<close>, however many, change nothing and call nothing.
\<close>

lemma null_poller_inert:
  assumes "pollers w p = Some NullPoller"
  shows "run_state (each (set_events p) es) w = (Inr (), w)"
proof (induction es)
  case (Cons e es)
  have "run_state (set_events p e) w = (Inr (), w)"
    using null.no_effect [OF assms, of "[e]"] set_events_dispatch(2) [OF assms, of e]
    by (simp add: run_after run_give split: prod.splits sum.splits)
  with Cons show ?case by (simp add: run_after)
qed (simp add: run_give)

text \<open>
  A poller that is created, asked for any events and deleted leaves nothing behind once
  libuv has made the close callback: no object, no handle, nothing watched.
\<close>

lemma poller_lifetime:
  assumes "poll_inv w"
  shows "\<exists>w'. run_state
      (after (UvPoller_new fd r wr er d) (\<lambda>p.
       after (each (set_events p) es) (\<lambda>_.
       after (uv_member p) (\<lambda>u.
       after (delete_poller p) (\<lambda>_. on_close (uv_poll u)))))) w = (Inr (), w') \<and>
    pollers w' = pollers w \<and> handles w' = handles w \<and>
    watching (trace w') = watching (trace w) \<and> poll_inv w'"
proof -
  let ?p = "next_obj w" and ?h = "Suc (next_obj w)"
  obtain w1 where w1: "run_state (UvPoller_new fd r wr er d) w = (Inr ?p, w1)"
    by (simp add: run_UvPoller_new)
  have inv1: "poll_inv w1" using UvPoller_new_inv [OF assms, of fd r wr er d] by (simp add: w1)
  obtain u where u: "pollers w1 = (pollers w)(?p \<mapsto> UvPoller u)" "uv_poll u = ?h"
      "handles w1 = (handles w)(?h \<mapsto> ?p)" "watching (trace w1) = (watching (trace w))(?h \<mapsto> UV_READABLE)"
    using w1 by (auto simp: run_UvPoller_new)
  have "pollers w1 ?p = Some (UvPoller u)" using u(1) by simp
  from run_each_set_events [OF inv1 this refl, of es]
  obtain w2 e where w2: "run_state (each (set_events ?p) es) w1 = (Inr (), w2)" "poll_inv w2"
      "pollers w2 = (pollers w1)(?p \<mapsto> UvPoller (u\<lparr>current_events := e\<rparr>))" "handles w2 = handles w1"
      "watching (trace w2) = (watching (trace w1))(?h \<mapsto> event_mask e)"
    using u(2) by auto
  obtain w3 where w3: "run_state (delete_poller ?p) w2 = (Inr (), w3)" "poll_inv w3"
      "pollers w3 = (pollers w2)(?p := None)" "handles w3 = handles w2"
      "watching (trace w3) = (watching (trace w2))(?h := None)"
    using delete_poller_inv [OF w2(2), of ?p] w2(3) u(2) by (simp add: run_delete_poller)
  obtain w4 where w4: "run_state (on_close ?h) w3 = (Inr (), w4)" "poll_inv w4"
      "pollers w4 = pollers w3" "handles w4 = (handles w3)(?h := None)" "trace w4 = trace w3"
    using on_close_inv [OF w3(2), of ?h] w3(4,5) w2(4) u(3) by (simp add: run_on_close)
  have "uv_poll (u\<lparr>current_events := e\<rparr>) = ?h" using u(2) by simp
  moreover have "run_state (uv_member ?p) w2 = (Inr (u\<lparr>current_events := e\<rparr>), w2)"
    by (simp add: run_uv_member w2(3))
  ultimately have "run_state
      (after (UvPoller_new fd r wr er d) (\<lambda>p.
       after (each (set_events p) es) (\<lambda>_.
       after (uv_member p) (\<lambda>u.
       after (delete_poller p) (\<lambda>_. on_close (uv_poll u)))))) w = (Inr (), w4)"
    by (simp add: run_after w1 w2(1) w3(1) w4(1) del: uv_poller.update_convs)
  moreover have "pollers w4 = pollers w"
    by (rule ext) (simp add: w4 w3 w2 u assms)
  moreover have "handles w4 = handles w" by (rule ext) (simp add: w4 w3 w2 u assms)
  moreover have "watching (trace w4) = watching (trace w)"
    using poll_invD(4) [OF assms, of ?h] by (intro ext) (simp add: w4 w3 w2 u)
  ultimately show ?thesis using w4(2) by blast
qed

section \<open>Dispatch of io events\<close>

definition keeps_poller :: "nat \<Rightarrow> 'a poll_world_scheme \<Rightarrow> 'a poll_world_scheme \<Rightarrow> bool" where
  "keeps_poller p w w' \<longleftrightarrow>
     (\<forall>u. pollers w p = Some (UvPoller u) \<longrightarrow>
        (\<exists>e. pollers w' p = Some (UvPoller (u\<lparr>current_events := e\<rparr>))))"

lemma keeps_poller_same: "pollers w' = pollers w \<Longrightarrow> keeps_poller p w w'"
  unfolding keeps_poller_def by (metis uv_poller.surjective uv_poller.update_convs(6))

definition io_calls :: "env \<Rightarrow> uv_poller \<Rightarrow> i32 \<Rightarrow> i32 \<Rightarrow> (fnptr \<times> string option) list" where
  "io_calls E u status revents =
     (if status \<noteq> 0 then [(error_callback u, Some (uv_strerror E status))]
      else (if revents AND UV_READABLE \<noteq> 0 then [(read_ready_callback u, None)] else []) @
           (if revents AND UV_WRITABLE \<noteq> 0 then [(write_ready_callback u, None)] else []))"

text \<open>
  C33. libuv's callback reaches the poller of the handle.  A nonzero status calls the error callback
  alone, with libuv's message; otherwise the read callback comes before the write callback, each
  only when its bit is set, and an error of the first keeps the second from running.  This needs
  callbacks that keep the poller (they may change the events it watches).
\<close>

theorem io_event_dispatch:
  assumes u: "handles w h = Some p" "pollers w p = Some (UvPoller u)"
    and kept: "\<And>f d msg. keeps (keeps_poller p) (call f d msg)"
  shows "run_state (io_event_wrapper E call h status revents) w =
    run_state (each (\<lambda>(f, msg). call f (external_data u) msg) (io_calls E u status revents)) w"
proof -
  have "\<exists>e. pollers (snd (run_state (call f d msg) w)) p = Some (UvPoller (u\<lparr>current_events := e\<rparr>))" for f d msg
    using keeps_snd [OF kept] u(2) unfolding keeps_poller_def by blast
  then obtain e where "pollers (snd (run_state (call (read_ready_callback u) (external_data u) None) w)) p
      = Some (UvPoller (u\<lparr>current_events := e\<rparr>))" by blast
  with u show ?thesis
    by (auto simp: io_event_wrapper_def io_event_def io_calls_def run_simps split: prod.splits sum.splits)
qed

text \<open>
  A read callback that deletes the poller while the same event reports the descriptor
  writable makes \<open>io_event\<close> read the member \<open>write_ready_callback\<close> of a deleted object.
\<close>

lemma io_event_use_after_free:
  assumes "pollers w p = Some (UvPoller u)"
    and "revents AND UV_READABLE \<noteq> 0" "revents AND UV_WRITABLE \<noteq> 0"
    and "run_state (call (read_ready_callback u) (external_data u) None) w = (Inr (), w')"
    and "pollers w' p = None"
  shows "run_state (io_event E call p 0 revents) w = (Inl (Undefined Use_after_free), w')"
  using assms by (simp add: io_event_def run_simps)

section \<open>Witnesses\<close>

text \<open>A world with one descriptor watched: the poller at 0, its handle at 1\<close>

definition sample_uv_poller :: uv_poller where
  "sample_uv_poller = \<lparr>read_ready_callback = ReadReadyCallback_ptr,
     write_ready_callback = WriteReadyCallback_ptr, error_callback = ErrorCallback_ptr,
     external_data = 7, uv_poll = 1, current_events = READ_EVENT\<rparr>"

definition empty_poll_world :: poll_world where
  "empty_poll_world = world.extend empty_world
     \<lparr>pollers = Map.empty, handles = Map.empty, next_obj = 0\<rparr>"

definition sample_poll_world :: poll_world where
  "sample_poll_world = world.extend
     (empty_world\<lparr>trace := [Uv_poll_init 1 5, Uv_poll_start 1 UV_READABLE]\<rparr>)
     \<lparr>pollers = [0 \<mapsto> UvPoller sample_uv_poller], handles = [1 \<mapsto> 0], next_obj = 2\<rparr>"

lemmas poll_sample_defs = sample_poll_world_def empty_poll_world_def
  world.defs poll_world.defs empty_world_def sample_uv_poller_def

lemma empty_poll_world_init: "poll_init empty_poll_world"
  by (simp add: poll_init_def poll_sample_defs)

lemma sample_poll_world_new:
  "run_state (UvPoller_new 5 ReadReadyCallback_ptr WriteReadyCallback_ptr ErrorCallback_ptr 7)
     empty_poll_world = (Inr 0, sample_poll_world)"
  by (simp add: run_UvPoller_new poll_sample_defs)

lemma sample_poll_world_reach: "poll_reach sample_poll_world"
  using poll_reach.step [OF poll_reach.start [OF empty_poll_world_init] poll_step.create_uv
      [of _ 5 ReadReadyCallback_ptr WriteReadyCallback_ptr ErrorCallback_ptr 7]]
  by (simp add: sample_poll_world_new)

lemma sample_poll_world_inv: "poll_inv sample_poll_world" "poll_inv empty_poll_world"
  by (rule poll_reach_inv [OF sample_poll_world_reach])
     (rule poll_init_inv [OF empty_poll_world_init])

lemma sample_poll_world_poller:
  "pollers sample_poll_world 0 = Some (UvPoller sample_uv_poller)" "handles sample_poll_world 1 = Some 0"
  by (simp_all add: poll_sample_defs)

theorem reachable_pollers_witness:
  "uv_legal (trace sample_poll_world) \<and> handles sample_poll_world 1 = Some 0"
  using reachable_pollers [OF sample_poll_world_reach] sample_poll_world_poller
  by (simp add: sample_uv_poller_def)

theorem set_events_calls_witness:
  "\<exists>w'. run_state (set_events 0 RW_EVENT) sample_poll_world = (Inr (), w') \<and>
    trace w' = [Uv_poll_init 1 5, Uv_poll_start 1 UV_READABLE, Uv_poll_stop 1, Uv_poll_start 1 3]"
  using set_events_calls [OF sample_poll_world_poller(1), of RW_EVENT]
  by (auto simp: poll_sample_defs UV_READABLE_def UV_WRITABLE_def)

theorem set_events_last_wins_witness:
  "\<exists>w'. run_state (each (set_events 0) [RW_EVENT, READ_EVENT, RW_EVENT]) sample_poll_world = (Inr (), w') \<and>
    asked w' 0 = Some 3"
  using set_events_last_wins [OF sample_poll_world_inv(1), of 0 "[RW_EVENT, READ_EVENT, RW_EVENT]"]
    asked_uv [OF sample_poll_world_inv(1) sample_poll_world_poller(1)]
  by (auto simp: sample_poll_world_poller UV_READABLE_def UV_WRITABLE_def)

lemma poller_lifetime_sample:
  "\<exists>w'. run_state
      (after (UvPoller_new 5 ReadReadyCallback_ptr WriteReadyCallback_ptr ErrorCallback_ptr 7) (\<lambda>p.
       after (each (set_events p) [RW_EVENT]) (\<lambda>_.
       after (uv_member p) (\<lambda>u.
       after (delete_poller p) (\<lambda>_. on_close (uv_poll u)))))) empty_poll_world = (Inr (), w') \<and>
    handles w' = Map.empty"
  using poller_lifetime [OF sample_poll_world_inv(2), where fd = 5 and r = ReadReadyCallback_ptr
      and wr = WriteReadyCallback_ptr and er = ErrorCallback_ptr and d = 7 and es = "[RW_EVENT]"]
  by (auto simp: poll_sample_defs)

text \<open>Callbacks that log the call\<close>

definition logging_call :: "fnptr \<Rightarrow> nat \<Rightarrow> string option \<Rightarrow> (poll_world, unit) prog" where
  "logging_call f d msg = log (Ev_js d (case msg of None \<Rightarrow> [] | Some s \<Rightarrow> [JString s]))"

lemma logging_keeps: "keeps (keeps_poller p) (logging_call f d msg)"
  by (simp add: keeps_def logging_call_def run_simps keeps_poller_same)

theorem io_event_dispatch_witness:
  "\<exists>w'. run_state (io_event_wrapper sample_env logging_call 1 0 3) sample_poll_world = (Inr (), w') \<and>
    trace w' = trace sample_poll_world @ [Ev_js 7 [], Ev_js 7 []]"
  using io_event_dispatch [OF sample_poll_world_poller(2,1), of logging_call sample_env 0 3,
      OF logging_keeps]
  by (simp add: logging_call_def run_simps io_calls_def UV_READABLE_def UV_WRITABLE_def sample_uv_poller_def)

end
