(* ===== verification/Wrapper_Facts.thy ===== *)
theory Wrapper_Facts
  imports Wrapper Socket_Facts Poller_Facts
begin

text \<open>
  What the Node object promises: argument checks, the effect of every method, ownership of
  descriptor, poller and buffers, and the invariant that every method, callback and destructor
  keeps.
\<close>

unbundle bit_operations_syntax

section \<open>What the calls of a component add to the history\<close>

text \<open>\<open>adds P\<close>: only events of kind \<open>P\<close> are added, and only \<open>trace\<close> and memory change.\<close>

definition adds :: "(event \<Rightarrow> bool) \<Rightarrow> 'a world_scheme \<Rightarrow> 'a world_scheme \<Rightarrow> bool" where
  "adds P w w' \<longleftrightarrow> (\<exists>es. trace w' = trace w @ es \<and> list_all P es) \<and> world.more w' = world.more w"

fun is_fd_event :: "event \<Rightarrow> bool" where
  "is_fd_event (Ev_socket _ _ _ _) = True"
| "is_fd_event (Ev_close _ _) = True"
| "is_fd_event _ = False"

abbreviation quiet :: "'a world_scheme \<Rightarrow> 'a world_scheme \<Rightarrow> bool" where
  "quiet \<equiv> adds (\<lambda>e. \<not> is_uv e \<and> \<not> is_fd_event e)"

abbreviation no_uv :: "'a world_scheme \<Rightarrow> 'a world_scheme \<Rightarrow> bool" where
  "no_uv \<equiv> adds (\<lambda>e. \<not> is_uv e)"

lemma adds_refl [simp]: "reflp (adds P)"
  by (rule reflpI) (auto simp: adds_def)

lemma adds_trans [simp]: "transp (adds P)"
  by (rule transpI) (auto simp: adds_def)

lemma adds_log [simp]: "adds P w (w\<lparr>trace := trace w @ [e]\<rparr>) \<longleftrightarrow> P e"
  by (auto simp: adds_def)

lemma adds_mono: "adds P w w' \<Longrightarrow> (\<And>e. P e \<Longrightarrow> Q e) \<Longrightarrow> adds Q w w'"
  unfolding adds_def by (metis list.pred_mono_strong)

lemma keeps_mono: "keeps R m \<Longrightarrow> (\<And>w w'. R w w' \<Longrightarrow> S w w') \<Longrightarrow> keeps S m"
  by (simp add: keeps_def)

lemma keeps_load_bytes [keeps_rules]: "keeps (adds P) (load_bytes p n)"
  by (simp add: keeps_def load_bytes_def adds_def)

lemma keeps_store_bytes [keeps_rules]: "keeps (adds P) (store_bytes p bs)"
  by (auto simp: keeps_def store_bytes_def adds_def split: sum.splits)

lemma keeps_memcpy [keeps_rules]: "keeps (adds P) (memcpy d s n)"
  unfolding memcpy_def by (intro keeps_rules adds_trans)

lemma keeps_log [keeps_rules]: "P e \<Longrightarrow> keeps (adds P) (log e)"
  by (simp add: keeps_def run_log)

lemma keeps_malloc [keeps_rules]: "(\<And>p. P (Ev_alloc n p)) \<Longrightarrow> keeps (adds P) (malloc E n)"
  by (auto simp: keeps_def malloc_def adds_def)

lemma keeps_new_bytes [keeps_rules]: "(\<And>p. P (Ev_alloc n p)) \<Longrightarrow> keeps (adds P) (new_bytes E n)"
  unfolding new_bytes_def by (intro keeps_rules adds_trans adds_refl)

lemma keeps_free [keeps_rules]: "P (Ev_free p) \<Longrightarrow> keeps (adds P) (free p)"
  by (auto simp: keeps_def free_def adds_def split: ptr.splits)

lemma keeps_realloc [keeps_rules]:
  "(\<And>q. P (Ev_realloc p n q)) \<Longrightarrow> (\<And>q. P (Ev_alloc n q)) \<Longrightarrow> keeps (adds P) (realloc E p n)"
  by (auto simp: keeps_def realloc_def adds_def malloc_def split: ptr.splits option.splits)

lemma keeps_fill_packet [keeps_rules]: "keeps (adds P) (fill_packet s b d m n)"
  unfolding fill_packet_def by (intro keeps_rules adds_trans)

lemma send_message_quiet [keeps_rules]: "keeps quiet (send_message E s d m n)"
  unfolding send_message_def Let_def syscall_defs
  by (intro keeps_rules keeps_syscall adds_trans adds_refl) auto

lemma receive_message_quiet [keeps_rules]: "keeps quiet (receive_message E s a d m n)"
  unfolding receive_message_def Let_def syscall_defs
  by (intro keeps_rules keeps_syscall adds_trans adds_refl) auto

lemma manage_membership_quiet [keeps_rules]: "keeps quiet (manage_membership E s a t m)"
  unfolding manage_membership_def Let_def syscall_defs
  by (intro keeps_rules keeps_syscall adds_trans adds_refl) auto

lemma Socket_new_no_uv: "keeps no_uv (Socket_new E device)"
  unfolding Socket_new_def Socket_setup_def strcpy_ifr_name_def Let_def syscall_defs
  by (intro keeps_rules keeps_syscall adds_trans adds_refl) auto

lemma ParseMembershipArguments_same: "snd (run_state (ParseMembershipArguments info out) w) = w"
  by (auto simp: ParseMembershipArguments_def run_simps split: prod.splits js_value.splits)

lemma keeps_ParseMembershipArguments [keeps_rules]:
  "reflp R \<Longrightarrow> keeps R (ParseMembershipArguments info out)"
  by (simp add: keeps_def ParseMembershipArguments_same reflpD)

lemma Receive_buffers_quiet [keeps_rules]: "keeps quiet (Receive_buffers E)"
  unfolding Receive_buffers_def by (intro keeps_rules adds_trans adds_refl) auto

lemma new_buffer_quiet [keeps_rules]: "keeps quiet (new_buffer E p n)"
  unfolding new_buffer_def by (intro keeps_rules keeps_syscall adds_trans adds_refl) auto

lemma watching_no_uv: "list_all (\<lambda>e. \<not> is_uv e) es \<Longrightarrow> watching (h @ es) = watching h"
  by (induction es rule: rev_induct) (simp_all flip: append_assoc)

lemma uv_legal_no_uv: "list_all (\<lambda>e. \<not> is_uv e) es \<Longrightarrow> uv_legal (h @ es) = uv_legal h"
  by (induction es rule: rev_induct) (simp_all flip: append_assoc)

lemma fd_step_other: "\<not> is_fd_event e \<Longrightarrow> fd_step S e = S"
  by (cases e) auto

lemma open_fds_other: "list_all (\<lambda>e. \<not> is_fd_event e) es \<Longrightarrow> open_fds (h @ es) = open_fds h"
  by (induction es rule: rev_induct) (simp_all add: fd_step_other flip: append_assoc)

lemma no_uvD:
  assumes "no_uv w w'"
  shows "watching (trace w') = watching (trace w)" "uv_legal (trace w') = uv_legal (trace w)"
    "set (trace w) \<subseteq> set (trace w')"
  using assms watching_no_uv uv_legal_no_uv by (auto simp: adds_def)

lemma more_eqD:
  assumes "world.more (w' :: 'a wrap_world_scheme) = world.more w"
  shows "pollers w' = pollers w" "handles w' = handles w" "next_obj w' = next_obj w"
    "wrappers w' = wrappers w" "wrap_world.more w' = wrap_world.more w"
  using assms by (cases w; cases w'; simp)+

lemma quietD:
  assumes "quiet (w :: 'a wrap_world_scheme) w'"
  shows "no_uv w w'" "open_fds (trace w') = open_fds (trace w)"
    "pollers w' = pollers w" "handles w' = handles w" "next_obj w' = next_obj w"
    "wrappers w' = wrappers w"
  using adds_mono [OF assms, of "\<lambda>e. \<not> is_uv e"] assms more_eqD [of w' w]
  by (auto simp: adds_def list_all_iff open_fds_other)

section \<open>The invariant\<close>

text \<open>
  Every object has its three callbacks, a socket whose descriptor is open, and a live poller of
  its own which, until \<open>Close\<close>, watches this descriptor and calls back into this object; every
  live poller and every open descriptor belongs to exactly one object.
\<close>

definition wf_wrapper :: "'a wrap_world_scheme \<Rightarrow> nat \<Rightarrow> wrapper \<Rightarrow> bool" where
  "wf_wrapper w obj W \<longleftrightarrow>
     onRecvCallback W \<noteq> None \<and> onSendCallback W \<noteq> None \<and> onErrorCallback W \<noteq> None \<and>
     wf_socket (wsocket W) \<and> pollers w (wpoller W) \<noteq> None \<and>
     (\<forall>u. pollers w (wpoller W) = Some (UvPoller u) \<longrightarrow>
        external_data u = obj \<and> read_ready_callback u = ReadReadyCallback_ptr \<and>
        write_ready_callback u = WriteReadyCallback_ptr \<and> error_callback u = ErrorCallback_ptr \<and>
        Uv_poll_init (uv_poll u) (get_descriptor (wsocket W)) \<in> set (trace w))"

definition wrap_links :: "'a wrap_world_scheme \<Rightarrow> bool" where
  "wrap_links w \<longleftrightarrow>
     (\<forall>obj W. wrappers w obj = Some W \<longrightarrow> wf_wrapper w obj W) \<and>
     (\<forall>p. pollers w p \<noteq> None \<longrightarrow> (\<exists>obj W. wrappers w obj = Some W \<and> wpoller W = p)) \<and>
     (\<forall>a b W V. wrappers w a = Some W \<and> wrappers w b = Some V \<and>
        (wpoller W = wpoller V \<or> get_descriptor (wsocket W) = get_descriptor (wsocket V)) \<longrightarrow> a = b) \<and>
     open_fds (trace w) = {get_descriptor (wsocket W) |obj W. wrappers w obj = Some W} \<and>
     (\<forall>a \<ge> next_obj w. wrappers w a = None)"

definition wrap_inv :: "'a wrap_world_scheme \<Rightarrow> bool" where
  "wrap_inv w \<longleftrightarrow> poll_inv w \<and> wrap_links w"

lemma poll_inv_cong:
  assumes "poll_inv w" "pollers w' = pollers w" "handles w' = handles w" "next_obj w' = next_obj w"
    "watching (trace w') = watching (trace w)" "uv_legal (trace w') = uv_legal (trace w)"
  shows "poll_inv w'"
  using assms unfolding poll_inv_def owns_handle_def by simp

lemma wrap_inv_quiet: "quiet w w' \<Longrightarrow> wrap_inv w \<Longrightarrow> wrap_inv w'"
  using quietD [of w w'] no_uvD [of w w'] poll_inv_cong [of w w']
  unfolding wrap_inv_def wrap_links_def wf_wrapper_def by (auto; blast)

abbreviation keeps_inv :: "('a wrap_world_scheme, 'b) prog \<Rightarrow> bool" where
  "keeps_inv \<equiv> keeps (\<lambda>w w'. wrap_inv w \<longrightarrow> wrap_inv w')"

lemma inv_rel [simp]:
  "reflp (\<lambda>w w'. wrap_inv w \<longrightarrow> wrap_inv w')" "transp (\<lambda>w w'. wrap_inv w \<longrightarrow> wrap_inv w')"
  by (auto simp: reflp_def transp_def)

lemma quiet_keeps_inv: "keeps quiet m \<Longrightarrow> keeps_inv m"
  by (erule keeps_mono) (blast intro: wrap_inv_quiet)

lemma wrap_linksD:
  assumes "wrap_links w"
  shows "wrappers w obj = Some W \<Longrightarrow> wf_wrapper w obj W"
    "pollers w p \<noteq> None \<Longrightarrow> \<exists>obj W. wrappers w obj = Some W \<and> wpoller W = p"
    "wrappers w a = Some W \<Longrightarrow> wrappers w b = Some V \<Longrightarrow>
       wpoller W = wpoller V \<or> get_descriptor (wsocket W) = get_descriptor (wsocket V) \<Longrightarrow> a = b"
    "open_fds (trace w) = {get_descriptor (wsocket W) |obj W. wrappers w obj = Some W}"
    "next_obj w \<le> a \<Longrightarrow> wrappers w a = None"
proof -
  have *: "\<forall>a b W V. wrappers w a = Some W \<and> wrappers w b = Some V \<and>
      (wpoller W = wpoller V \<or> get_descriptor (wsocket W) = get_descriptor (wsocket V)) \<longrightarrow> a = b"
    and rest: "\<forall>obj W. wrappers w obj = Some W \<longrightarrow> wf_wrapper w obj W"
      "\<forall>p. pollers w p \<noteq> None \<longrightarrow> (\<exists>obj W. wrappers w obj = Some W \<and> wpoller W = p)"
      "open_fds (trace w) = {get_descriptor (wsocket W) |obj W. wrappers w obj = Some W}"
      "\<forall>a \<ge> next_obj w. wrappers w a = None"
    using assms unfolding wrap_links_def by - (elim conjE, assumption)+
  show "wrappers w obj = Some W \<Longrightarrow> wf_wrapper w obj W" using rest(1) by blast
  show "pollers w p \<noteq> None \<Longrightarrow> \<exists>obj W. wrappers w obj = Some W \<and> wpoller W = p" using rest(2) by blast
  show "wrappers w a = Some W \<Longrightarrow> wrappers w b = Some V \<Longrightarrow>
       wpoller W = wpoller V \<or> get_descriptor (wsocket W) = get_descriptor (wsocket V) \<Longrightarrow> a = b"
    using * by blast
  show "open_fds (trace w) = {get_descriptor (wsocket W) |obj W. wrappers w obj = Some W}" by (rule rest(3))
  show "next_obj w \<le> a \<Longrightarrow> wrappers w a = None" using rest(4) by blast
qed

lemma run_unwrap [run_simps]:
  "run_state (unwrap obj) w =
     (case wrappers w obj of None \<Rightarrow> (Inl (Undefined Use_after_free), w) | Some W \<Rightarrow> (Inr W, w))"
  by (simp add: unwrap_def split: option.splits)

lemma run_put_wrapper [run_simps]:
  "run_state (put_wrapper obj x) w = (Inr (), w\<lparr>wrappers := (wrappers w)(obj := x)\<rparr>)"
  by (simp add: put_wrapper_def run_simps)

text \<open>A change of the events watched, or of the handles, does not touch the links.\<close>

lemma wrap_links_cong:
  assumes "wrap_links w" "wrappers w' = wrappers w" "next_obj w' = next_obj w"
    "open_fds (trace w') = open_fds (trace w)" "set (trace w) \<subseteq> set (trace w')"
    "\<And>p. pollers w' p = pollers w p \<or> (\<exists>u e. pollers w p = Some (UvPoller u) \<and>
       pollers w' p = Some (UvPoller (u\<lparr>current_events := e\<rparr>)))"
  shows "wrap_links w'"
proof -
  have "wf_wrapper w' obj W" if "wrappers w obj = Some W" for obj W
    using wrap_linksD(1) [OF assms(1) that] assms(6) [of "wpoller W"] assms(5)
    unfolding wf_wrapper_def by auto
  moreover have "pollers w' p \<noteq> None \<longleftrightarrow> pollers w p \<noteq> None" for p
    using assms(6) [of p] by (elim disjE exE conjE) simp_all
  ultimately show ?thesis using assms(1-4) unfolding wrap_links_def by simp
qed

lemma set_events_keeps: "keeps_inv (set_events p e :: ('a wrap_world_scheme, unit) prog)"
proof (rule keepsI, rule impI)
  fix w w' :: "'a wrap_world_scheme" and r
  assume run: "run_state (set_events p e) w = (r, w')" and inv: "wrap_inv w"
  have "poll_inv w'" using set_events_inv [of w p e] inv run by (simp add: wrap_inv_def)
  moreover have "wrap_links w'"
  proof (cases "\<exists>u. pollers w p = Some (UvPoller u)")
    case True
    then obtain u where u: "pollers w p = Some (UvPoller u)" by blast
    have p: "pollers w' q = pollers w q \<or> (\<exists>u e. pollers w q = Some (UvPoller u) \<and>
        pollers w' q = Some (UvPoller (u\<lparr>current_events := e\<rparr>)))" for q
    proof (cases "q = p \<and> e \<noteq> current_events u")
      case True
      with run u have "pollers w' q = Some (UvPoller (u\<lparr>current_events := e\<rparr>))"
        by (auto simp: run_set_events_uv [OF u])
      with True u show ?thesis by blast
    next
      case False
      with run u have "pollers w' q = pollers w q"
        by (cases "e = current_events u") (auto simp: run_set_events_uv [OF u])
      then show ?thesis ..
    qed
    define es where "es = (if e = current_events u then [] else Uv_poll_stop (uv_poll u) #
        (if e = NONE_EVENT then [] else [Uv_poll_start (uv_poll u) (event_mask e)]))"
    have "trace w' = trace w @ es" "wrappers w' = wrappers w" "next_obj w' = next_obj w"
      using run by (auto simp: run_set_events_uv [OF u] es_def)
    moreover have "list_all (\<lambda>e. \<not> is_fd_event e) es" by (simp add: es_def)
    ultimately have c: "wrappers w' = wrappers w" "next_obj w' = next_obj w"
        "open_fds (trace w') = open_fds (trace w)" "set (trace w) \<subseteq> set (trace w')"
      by (simp_all add: open_fds_other)
    have "wrap_links w" using inv by (simp add: wrap_inv_def)
    from wrap_links_cong [OF this c p] show ?thesis .
  next
    case False
    then have "w' = w"
      using run by (auto simp: set_events_def run_simps NullPoller_set_events_def
          split: option.splits poller.splits)
    with inv show ?thesis by (simp add: wrap_inv_def)
  qed
  ultimately show "wrap_inv w'" by (simp add: wrap_inv_def)
qed

lemma on_close_keeps:
  assumes "wrap_inv (w :: 'a wrap_world_scheme)" "watching (trace w) h = None"
  shows "wrap_inv (snd (run_state (on_close h) w))"
proof -
  have "wrap_links (snd (run_state (on_close h) w))"
    by (rule wrap_links_cong [of w]) (use assms in \<open>auto simp: wrap_inv_def run_on_close\<close>)
  with assms show ?thesis by (simp add: wrap_inv_def on_close_inv)
qed

definition uv_closing :: "'a wrap_world_scheme \<Rightarrow> wrapper \<Rightarrow> event list" where
  "uv_closing w W = (case pollers w (wpoller W) of Some (UvPoller u) \<Rightarrow> [Uv_close (uv_poll u)] | _ \<Rightarrow> [])"

lemma uv_closing_other: "list_all (\<lambda>e. \<not> is_fd_event e) (uv_closing w W)"
  by (auto simp: uv_closing_def split: option.splits poller.splits)

lemma run_Close:
  assumes "wrappers w obj = Some W" "pollers w (wpoller W) \<noteq> None"
  shows "run_state (Close obj) w = (Inr JUndefined,
     w\<lparr>trace := trace w @ uv_closing w W,
       pollers := (pollers w)(wpoller W := None, next_obj w \<mapsto> NullPoller),
       next_obj := Suc (next_obj w),
       wrappers := (wrappers w)(obj \<mapsto> W\<lparr>wpoller := next_obj w\<rparr>)\<rparr>)"
  using assms by (auto simp: Close_eq run_simps run_delete_poller run_NullPoller_new uv_closing_def
      split: poller.splits)

lemma Close_keeps: "keeps_inv (Close obj)"
proof (rule keepsI, rule impI)
  fix w w' :: "'a wrap_world_scheme" and r
  assume run: "run_state (Close obj) w = (r, w')" and inv: "wrap_inv w"
  note links = wrap_linksD [OF inv [unfolded wrap_inv_def, THEN conjunct2]]
  have pinv: "poll_inv w" using inv by (simp add: wrap_inv_def)
  show "wrap_inv w'"
  proof (cases "wrappers w obj")
    case None
    with run inv show ?thesis by (simp add: Close_eq run_simps)
  next
    case (Some W)
    have wf: "wf_wrapper w obj W" by (rule links(1) [OF Some])
    then have p: "pollers w (wpoller W) \<noteq> None" by (simp add: wf_wrapper_def)
    have w': "w' = w\<lparr>trace := trace w @ uv_closing w W,
       pollers := (pollers w)(wpoller W := None, next_obj w \<mapsto> NullPoller),
       next_obj := Suc (next_obj w),
       wrappers := (wrappers w)(obj \<mapsto> W\<lparr>wpoller := next_obj w\<rparr>)\<rparr>"
      using run run_Close [OF Some p] by simp
    have "poll_inv (snd (run_state NullPoller_new (snd (run_state (delete_poller (wpoller W)) w))))"
      by (intro NullPoller_new_inv delete_poller_inv pinv)
    moreover have "watching (trace w') = watching (trace (snd (run_state NullPoller_new (snd (run_state (delete_poller (wpoller W)) w)))))
        \<and> uv_legal (trace w') = uv_legal (trace (snd (run_state NullPoller_new (snd (run_state (delete_poller (wpoller W)) w)))))
        \<and> pollers w' = pollers (snd (run_state NullPoller_new (snd (run_state (delete_poller (wpoller W)) w))))
        \<and> handles w' = handles (snd (run_state NullPoller_new (snd (run_state (delete_poller (wpoller W)) w))))
        \<and> next_obj w' = next_obj (snd (run_state NullPoller_new (snd (run_state (delete_poller (wpoller W)) w))))"
      using p by (auto simp: w' run_delete_poller run_NullPoller_new uv_closing_def split: poller.splits)
    ultimately have "poll_inv w'" using poll_inv_cong by blast
    moreover have "wrap_links w'"
    proof -
      have ne: "wpoller V \<noteq> wpoller W" "wpoller V < next_obj w" if "wrappers w a = Some V" "a \<noteq> obj" for a V
      proof -
        show "wpoller V \<noteq> wpoller W" using links(3) [OF that(1) Some] that(2) by blast
        show "wpoller V < next_obj w" using links(1) [OF that(1)] poll_invD(4) [OF pinv, of "wpoller V"]
          by (auto simp: wf_wrapper_def not_le [symmetric])
      qed
      have "wf_wrapper w' a V" if "wrappers w' a = Some V" for a V
        using that links(1) [of a V] ne [of a V] wf by (auto simp: w' wf_wrapper_def split: if_splits)
      moreover have "\<exists>a V. wrappers w' a = Some V \<and> wpoller V = q" if "pollers w' q \<noteq> None" for q
      proof (cases "q = next_obj w")
        case False
        with that obtain a V where "wrappers w a = Some V" "wpoller V = q" "q \<noteq> wpoller W"
          using links(2) [of q] by (auto simp: w' split: if_splits)
        then show ?thesis using Some by (intro exI [of _ a] exI [of _ V]) (auto simp: w')
      qed (auto simp: w')
      moreover have "a = b" if "wrappers w' a = Some U" "wrappers w' b = Some V"
          "wpoller U = wpoller V \<or> get_descriptor (wsocket U) = get_descriptor (wsocket V)" for a b U V
        using that links(3) [of a _ b] links(3) [OF Some, of _ V] links(3) [OF Some, of _ U] ne [of a U] ne [of b V] Some
        by (auto simp: w' split: if_splits)
      moreover have "open_fds (trace w') = {get_descriptor (wsocket V) |a V. wrappers w' a = Some V}"
        using links(4) Some by (auto simp: w' open_fds_other uv_closing_other; metis option.inject)
      moreover have "\<forall>a \<ge> next_obj w'. wrappers w' a = None"
        using links(5) Some by (auto simp: w')
      ultimately show ?thesis unfolding wrap_links_def by blast
    qed
    ultimately show ?thesis by (simp add: wrap_inv_def)
  qed
qed

lemma upholds_unwrap [upholds_rules]: "upholds I (unwrap obj)"
  by (simp add: upholds_def run_unwrap split: option.splits)

lemma poll_wrappers_inv:
  assumes "wrap_links w" "poll_inv w"
  shows "wrappers w obj = Some W \<Longrightarrow> wpoller W < next_obj w" "pollers w p = Some (UvPoller u) \<Longrightarrow>
      uv_poll u < next_obj w \<and> p < next_obj w"
proof -
  show "wrappers w obj = Some W \<Longrightarrow> wpoller W < next_obj w"
    using wrap_linksD(1) [OF assms(1), of obj W] poll_invD(4) [OF assms(2), of "wpoller W"]
    by (auto simp: wf_wrapper_def not_le [symmetric])
  show "pollers w p = Some (UvPoller u) \<Longrightarrow> uv_poll u < next_obj w \<and> p < next_obj w"
    using poll_invD(1) [OF assms(2), of p u] poll_invD(4) [OF assms(2), of p] poll_invD(4) [OF assms(2), of "uv_poll u"]
    by (auto simp: owns_handle_def not_le [symmetric])
qed

text \<open>The destructor, run to its end\<close>

lemma run_Wrapper_delete:
  assumes "wrappers w obj = Some W" "pollers w (wpoller W) \<noteq> None"
  shows "run_state (Wrapper_delete E obj) w = (Inr (),
     w\<lparr>trace := trace w @ uv_closing w W @ [Ev_close (get_descriptor (wsocket W))
          (os_close E (trace w @ uv_closing w W) (get_descriptor (wsocket W)))],
       pollers := (pollers w)(wpoller W := None),
       wrappers := (wrappers w)(obj := None)\<rparr>)"
  using assms by (auto simp: Wrapper_delete_eq run_simps run_delete_poller Socket_delete_def sys_close_def
      run_syscall uv_closing_def get_descriptor_def split: poller.splits)

lemma Wrapper_delete_upholds: "upholds wrap_inv (Wrapper_delete E obj)"
  unfolding upholds_def
proof (intro allI impI)
  fix w w' :: "'a wrap_world_scheme" and r
  assume inv: "wrap_inv w" and run: "run_state (Wrapper_delete E obj) w = (r, w')"
    and "\<forall>u. r \<noteq> Inl (Undefined u)"
  then obtain W where W: "wrappers w obj = Some W"
    by (auto simp: Wrapper_delete_eq run_simps split: option.splits)
  have l: "wrap_links w" and pinv: "poll_inv w" using inv by (simp_all add: wrap_inv_def)
  note links = wrap_linksD [OF l]
  have p: "pollers w (wpoller W) \<noteq> None" using links(1) [OF W] by (simp add: wf_wrapper_def)
  let ?fd = "get_descriptor (wsocket W)"
  define w1 where "w1 = snd (run_state (delete_poller (wpoller W)) w)"
  have w': "w' = w\<lparr>trace := trace w @ uv_closing w W @ [Ev_close ?fd
          (os_close E (trace w @ uv_closing w W) ?fd)],
       pollers := (pollers w)(wpoller W := None), wrappers := (wrappers w)(obj := None)\<rparr>"
    using run run_Wrapper_delete [OF W p, of E] by simp
  have tr: "trace w' = (trace w @ uv_closing w W) @ [Ev_close ?fd (os_close E (trace w @ uv_closing w W) ?fd)]"
    by (simp add: w')
  have t1: "trace w1 = trace w @ uv_closing w W" "pollers w1 = pollers w'" "handles w1 = handles w'"
      "next_obj w1 = next_obj w'"
    using p by (auto simp: w1_def w' run_delete_poller uv_closing_def split: poller.splits)
  have "poll_inv w1" unfolding w1_def by (rule delete_poller_inv [OF pinv])
  moreover have "watching (trace w') = watching (trace w1)" "uv_legal (trace w') = uv_legal (trace w1)"
    unfolding tr t1 by (simp_all del: append_assoc)
  ultimately have "poll_inv w'" using poll_inv_cong [of w1 w'] by (simp add: t1)
  moreover have "wrap_links w'"
  proof -
    have ne: "wpoller V \<noteq> wpoller W" if "wrappers w a = Some V" "a \<noteq> obj" for a V
      using links(3) [OF that(1) W] that(2) by blast
    have "wf_wrapper w' a V" if "wrappers w' a = Some V" for a V
      using that links(1) [of a V] ne [of a V] by (auto simp: w' wf_wrapper_def split: if_splits)
    moreover have "\<exists>a V. wrappers w' a = Some V \<and> wpoller V = q" if "pollers w' q \<noteq> None" for q
    proof -
      from that obtain a V where "wrappers w a = Some V" "wpoller V = q" "q \<noteq> wpoller W"
        using links(2) [of q] by (auto simp: w' split: if_splits)
      then show ?thesis using W by (intro exI [of _ a] exI [of _ V]) (auto simp: w')
    qed
    moreover have "a = b" if "wrappers w' a = Some U" "wrappers w' b = Some V"
        "wpoller U = wpoller V \<or> get_descriptor (wsocket U) = get_descriptor (wsocket V)" for a b U V
      using that links(3) [of a U b V] by (auto simp: w' split: if_splits)
    moreover have "open_fds (trace w') = {get_descriptor (wsocket V) |a V. wrappers w' a = Some V}"
    proof -
      have "open_fds (trace w') = open_fds (trace w) - {?fd}"
        unfolding tr by (simp only: open_fds_snoc fd_step.simps open_fds_other [OF uv_closing_other])
      also have "\<dots> = {get_descriptor (wsocket V) |a V. wrappers w' a = Some V}"
      proof (rule set_eqI, rule iffI)
        fix x
        assume "x \<in> open_fds (trace w) - {?fd}"
        then obtain a V where V: "wrappers w a = Some V" "x = get_descriptor (wsocket V)" "x \<noteq> ?fd"
          using links(4) by auto
        with W have "a \<noteq> obj" by auto
        with V show "x \<in> {get_descriptor (wsocket V) |a V. wrappers w' a = Some V}" by (auto simp: w')
      next
        fix x
        assume "x \<in> {get_descriptor (wsocket V) |a V. wrappers w' a = Some V}"
        then obtain a V where V: "wrappers w a = Some V" "x = get_descriptor (wsocket V)" "a \<noteq> obj"
          by (auto simp: w' split: if_splits)
        then have "x \<noteq> ?fd" using links(3) [OF V(1) W] by auto
        with V show "x \<in> open_fds (trace w) - {?fd}" using links(4) by auto
      qed
      finally show ?thesis .
    qed
    moreover have "\<forall>a \<ge> next_obj w'. wrappers w' a = None"
      using links(5) by (auto simp: w')
    ultimately show ?thesis unfolding wrap_links_def by blast
  qed
  ultimately show "wrap_inv w'" by (simp add: wrap_inv_def)
qed

section \<open>Construction\<close>

definition options_ok :: "js_value \<Rightarrow> string \<Rightarrow> nat \<Rightarrow> nat \<Rightarrow> nat \<Rightarrow> bool" where
  "options_ok options device on_recv on_send on_error \<longleftrightarrow>
     get_property options ''device'' = JString device \<and>
     get_property options ''onRecv'' = JFunction on_recv \<and>
     get_property options ''onSend'' = JFunction on_send \<and>
     get_property options ''onError'' = JFunction on_error"

definition new_wrapper :: "nat \<Rightarrow> nat \<Rightarrow> nat \<Rightarrow> socket \<Rightarrow> nat \<Rightarrow> wrapper" where
  "new_wrapper on_recv on_send on_error sock p =
     \<lparr>onSendCallback = Some on_send, onRecvCallback = Some on_recv, onErrorCallback = Some on_error,
      wsocket = sock, wpoller = p\<rparr>"

definition new_uv_poller :: "nat \<Rightarrow> nat \<Rightarrow> uv_poller" where
  "new_uv_poller obj h = \<lparr>read_ready_callback = ReadReadyCallback_ptr,
     write_ready_callback = WriteReadyCallback_ptr, error_callback = ErrorCallback_ptr,
     external_data = obj, uv_poll = h, current_events = READ_EVENT\<rparr>"

lemma is_function_iff: "is_function v \<longleftrightarrow> (\<exists>f. v = JFunction f)"
  by (cases v) auto

lemma run_Wrapper_new:
  assumes "options_ok options device r s e"
  shows "run_state (Wrapper_new E options) w =
    (case run_state (Socket_new E (c_str device)) (w\<lparr>next_obj := Suc (next_obj w)\<rparr>) of
       (Inl x, w1) \<Rightarrow> (Inl x, w1)
     | (Inr sock, w1) \<Rightarrow> (Inr (next_obj w),
         w1\<lparr>trace := trace w1 @ [Uv_poll_init (Suc (next_obj w1)) (get_descriptor sock),
                                Uv_poll_start (Suc (next_obj w1)) UV_READABLE],
            pollers := (pollers w1)(next_obj w1 \<mapsto> UvPoller (new_uv_poller (next_obj w) (Suc (next_obj w1)))),
            handles := (handles w1)(Suc (next_obj w1) \<mapsto> next_obj w1),
            next_obj := Suc (Suc (next_obj w1)),
            wrappers := (wrappers w1)(next_obj w \<mapsto> new_wrapper r s e sock (next_obj w1))\<rparr>))"
  using assms
  by (simp add: Wrapper_new_eq options_ok_def run_simps run_UvPoller_new new_wrapper_def new_uv_poller_def
      split: prod.splits sum.splits)

lemma run_Wrapper_new_bad:
  assumes "\<And>device r s e. \<not> options_ok options device r s e"
  shows "\<exists>msg. run_state (Wrapper_new E options) w =
    (Inl (Invalid_argument msg), w\<lparr>next_obj := Suc (next_obj w)\<rparr>)"
  using assms by (auto simp: Wrapper_new_eq options_ok_def run_simps is_function_iff split: js_value.splits) blast

lemma wrap_links_add:
  assumes l: "wrap_links w" and p: "poll_inv w"
    and upd: "wrappers w' = (wrappers w)(obj \<mapsto> W)" "pollers w' = (pollers w)(wpoller W \<mapsto> x)"
    and new: "next_obj w \<le> obj" "next_obj w \<le> wpoller W" "obj < next_obj w'" "next_obj w \<le> next_obj w'"
    and fd: "open_fds (trace w') = insert (get_descriptor (wsocket W)) (open_fds (trace w))"
      "get_descriptor (wsocket W) \<notin> open_fds (trace w)"
    and wf: "wf_wrapper w' obj W" and t: "set (trace w) \<subseteq> set (trace w')"
  shows "wrap_links w'"
proof -
  note links = wrap_linksD [OF l]
  have none: "wrappers w obj = None" using links(5) new(1) by blast
  have ne: "wpoller V \<noteq> wpoller W \<and> get_descriptor (wsocket V) \<noteq> get_descriptor (wsocket W)"
    if "wrappers w a = Some V" for a V
  proof -
    have "wpoller V < next_obj w" by (rule poll_wrappers_inv(1) [OF l p that])
    moreover have "get_descriptor (wsocket V) \<in> open_fds (trace w)" unfolding links(4) using that by blast
    ultimately show ?thesis using new(2) fd(2) by auto
  qed
  have "wf_wrapper w' a V" if "wrappers w' a = Some V" for a V
  proof (cases "a = obj")
    case True
    with that wf show ?thesis by (simp add: upd)
  next
    case False
    with that have V: "wrappers w a = Some V" by (simp add: upd)
    with links(1) [OF V] ne [OF V] t show ?thesis by (auto simp: wf_wrapper_def upd)
  qed
  moreover have "\<exists>a V. wrappers w' a = Some V \<and> wpoller V = q" if "pollers w' q \<noteq> None" for q
  proof (cases "q = wpoller W")
    case False
    with that obtain a V where V: "wrappers w a = Some V" "wpoller V = q"
      using links(2) [of q] by (auto simp: upd)
    then show ?thesis using none by (intro exI [of _ a] exI [of _ V]) (auto simp: upd)
  qed (auto simp: upd)
  moreover have "a = b" if "wrappers w' a = Some U" "wrappers w' b = Some V"
      "wpoller U = wpoller V \<or> get_descriptor (wsocket U) = get_descriptor (wsocket V)" for a b U V
    using that links(3) [of a U b V] ne [of a U] ne [of b V] by (auto simp: upd split: if_splits)
  moreover have "open_fds (trace w') = {get_descriptor (wsocket V) |a V. wrappers w' a = Some V}"
  proof (rule set_eqI, rule iffI)
    fix y assume "y \<in> open_fds (trace w')"
    then consider "y = get_descriptor (wsocket W)" | a V where "wrappers w a = Some V" "y = get_descriptor (wsocket V)"
      using fd(1) links(4) by auto
    then show "y \<in> {get_descriptor (wsocket V) |a V. wrappers w' a = Some V}"
    proof cases
      case (2 a V)
      then have "wrappers w' a = Some V" using none by (auto simp: upd)
      with 2 show ?thesis by blast
    qed (auto simp: upd)
  next
    fix y assume "y \<in> {get_descriptor (wsocket V) |a V. wrappers w' a = Some V}"
    then show "y \<in> open_fds (trace w')" using fd(1) links(4) by (auto simp: upd split: if_splits)
  qed
  moreover have "wrappers w' a = None" if "next_obj w' \<le> a" for a
    using that links(5) [of a] new(3,4) by (auto simp: upd)
  ultimately show ?thesis unfolding wrap_links_def by blast
qed

lemma wrap_inv_later:
  assumes inv: "wrap_inv w" and eq: "trace w' = trace w" "pollers w' = pollers w" "handles w' = handles w"
    "wrappers w' = wrappers w" and n: "next_obj w \<le> next_obj w'"
  shows "wrap_inv w'"
proof -
  have p: "poll_inv w" and l: "wrap_links w" using inv by (simp_all add: wrap_inv_def)
  have st: "owns_handle w' = owns_handle w" "wf_wrapper w' = wf_wrapper w"
    by (intro ext; simp add: owns_handle_def wf_wrapper_def eq)+
  have "\<forall>a \<ge> next_obj w'. pollers w a = None \<and> handles w a = None \<and> watching (trace w) a = None"
    "\<forall>a \<ge> next_obj w'. wrappers w a = None"
    using poll_invD(4) [OF p] wrap_linksD(5) [OF l] n by simp_all
  then show ?thesis
    using p l unfolding wrap_inv_def poll_inv_def wrap_links_def eq st
    by (elim conjE, intro conjI) assumption+
qed

lemma Wrapper_new_upholds:
  assumes fresh: "fresh_fds E"
  shows "upholds wrap_inv (Wrapper_new E options)"
proof (rule upholdsI)
  fix w w' :: "'a wrap_world_scheme" and r
  assume inv: "wrap_inv w" and run: "run_state (Wrapper_new E options) w = (r, w')"
    and ok: "\<And>u. r \<noteq> Inl (Undefined u)"
  let ?w0 = "w\<lparr>next_obj := Suc (next_obj w)\<rparr>"
  have inv0: "wrap_inv ?w0" by (rule wrap_inv_later [OF inv]) simp_all
  show "wrap_inv w'"
  proof (cases "\<exists>device a b c. options_ok options device a b c")
    case False
    with run run_Wrapper_new_bad [of options E w] inv0 show ?thesis by auto
  next
    case True
    then obtain device a b c where opts: "options_ok options device a b c" by blast
    obtain q w1 where q: "run_state (Socket_new E (c_str device)) ?w0 = (q, w1)" by fastforce
    note nu = keepsD [OF Socket_new_no_uv q] and fds = Socket_new_fds [OF fresh q]
    note same = more_eqD [of w1 ?w0]
    have more: "world.more w1 = world.more ?w0" using nu by (simp add: adds_def)
    have l0: "wrap_links ?w0" and p0: "poll_inv ?w0" using inv0 by (simp_all add: wrap_inv_def)
    have p1: "poll_inv w1" by (rule poll_inv_cong [OF p0 same(1-3) [OF more] no_uvD(1,2) [OF nu]])
    show ?thesis
    proof (cases q)
      case (Inl x)
      with run q have r: "r = Inl x" "w' = w1" by (simp_all add: run_Wrapper_new [OF opts])
      then have "\<not> is_ub x" using ok by (cases x) auto
      then have "open_fds (trace w1) = open_fds (trace ?w0)" using fds Inl by simp
      then have "wrap_links w1"
        by (intro wrap_links_cong [OF l0]) (simp_all add: same [OF more] no_uvD(3) [OF nu, simplified])
      with p1 r show ?thesis by (simp add: wrap_inv_def)
    next
      case (Inr sock)
      let ?p = "next_obj w1" and ?W = "new_wrapper a b c sock (next_obj w1)"
      have w': "w' = w1\<lparr>trace := trace w1 @ [Uv_poll_init (Suc ?p) (get_descriptor sock), Uv_poll_start (Suc ?p) UV_READABLE],
            pollers := (pollers w1)(?p \<mapsto> UvPoller (new_uv_poller (next_obj w) (Suc ?p))),
            handles := (handles w1)(Suc ?p \<mapsto> ?p), next_obj := Suc (Suc ?p),
            wrappers := (wrappers w1)(next_obj w \<mapsto> ?W)\<rparr>"
        using run q Inr by (simp add: run_Wrapper_new [OF opts])
      let ?w2 = "snd (run_state (UvPoller_new (get_descriptor sock) ReadReadyCallback_ptr
         WriteReadyCallback_ptr ErrorCallback_ptr (next_obj w)) w1)"
      have "poll_inv ?w2" by (rule UvPoller_new_inv [OF p1])
      then have "poll_inv w'"
        by (rule poll_inv_cong) (simp_all add: w' run_UvPoller_new new_uv_poller_def)
      moreover have "wrap_links w'"
      proof (rule wrap_links_add [of w obj W for obj W])
        show "wrap_links w" "poll_inv w" using inv by (simp_all add: wrap_inv_def)
        show "wrappers w' = (wrappers w)(next_obj w \<mapsto> ?W)" by (simp add: w' same [OF more])
        show "pollers w' = (pollers w)(wpoller ?W \<mapsto> UvPoller (new_uv_poller (next_obj w) (Suc ?p)))"
          by (simp add: w' same [OF more] new_wrapper_def)
        show "open_fds (trace w') = insert (get_descriptor (wsocket ?W)) (open_fds (trace w))"
          "get_descriptor (wsocket ?W) \<notin> open_fds (trace w)"
          using fds Inr by (simp_all add: w' open_fds_other new_wrapper_def get_descriptor_def)
        show "wf_wrapper w' (next_obj w) ?W"
          using fds Inr by (simp add: w' wf_wrapper_def new_wrapper_def new_uv_poller_def)
        show "set (trace w) \<subseteq> set (trace w')" using no_uvD(3) [OF nu] by (auto simp: w')
      qed (simp_all add: w' same [OF more] new_wrapper_def)
      ultimately show ?thesis by (simp add: wrap_inv_def)
    qed
  qed
qed

section \<open>Every operation keeps the invariant\<close>

lemma upholds_case_js_value [upholds_rules]:
  assumes "upholds I a1" "upholds I a2" "\<And>x. upholds I (a3 x)" "\<And>x. upholds I (a4 x)" "\<And>x. upholds I (a5 x)"
    "\<And>x y. upholds I (a6 x y)" "\<And>x. upholds I (a7 x)" "\<And>x. upholds I (a8 x)" "\<And>x. upholds I (a9 x)"
    "\<And>x. upholds I (a10 x)" "\<And>x. upholds I (a11 x)" "\<And>x. upholds I (a12 x)"
  shows "upholds I (case_js_value a1 a2 a3 a4 a5 a6 a7 a8 a9 a10 a11 a12 v)"
  using assms by (cases v) simp_all

lemma upholds_gets [upholds_rules]: "upholds I (gets f)"
  by (simp add: upholds_def run_gets)

lemma upholds_uv_member [upholds_rules]: "upholds I (uv_member p)"
  by (auto simp: upholds_def run_uv_member split: option.splits poller.splits)

lemma set_events_upholds [upholds_rules]: "upholds wrap_inv (set_events p e)"
  by (rule keeps_upholds [OF set_events_keeps])

lemma Close_upholds [upholds_rules]: "upholds wrap_inv (Close obj)"
  by (rule keeps_upholds [OF Close_keeps])

lemmas quiet_parts = send_message_quiet receive_message_quiet manage_membership_quiet
  Receive_buffers_quiet new_buffer_quiet

text \<open>
  The methods that use the socket or call JavaScript change nothing but memory and the history, so
  they keep every invariant that such a change cannot break.  This is proved once, for any such \<open>I\<close>.
\<close>

locale quiet_invariant =
  fixes I :: "'a wrap_world_scheme \<Rightarrow> bool"
  assumes quiet_closed: "quiet w w' \<Longrightarrow> I w \<Longrightarrow> I w'"
begin

lemma quiet_upholds: "keeps quiet m \<Longrightarrow> upholds I m"
  by (rule keeps_upholds, erule keeps_mono) (blast intro: quiet_closed)

lemmas component_upholds [upholds_rules] = quiet_parts [THEN quiet_upholds]

lemma alloc_upholds [upholds_rules]:
  "upholds I (realloc E p n)" "upholds I (free p)" "upholds I (log (Ev_js f args))"
  "upholds I (ParseMembershipArguments info out)"
  by (intro quiet_upholds keeps_rules adds_refl; simp)+

lemma call_js_upholds [upholds_rules]:
  "(\<And>f args. upholds I (js f args)) \<Longrightarrow> upholds I (call_js js f args)"
  unfolding call_js_def by (intro upholds_rules)

lemma call_handle_upholds [upholds_rules]:
  "(\<And>f args. upholds I (js f args)) \<Longrightarrow> upholds I (call_handle js f args)"
  unfolding call_handle_def by (intro upholds_rules)

lemma Receive_upholds [upholds_rules]:
  "(\<And>f args. upholds I (js f args)) \<Longrightarrow> upholds I (Receive E js obj info)"
  unfolding Receive_eq Receive_deliver_def Let_def by (intro upholds_rules)

lemma Send_upholds [upholds_rules]:
  "(\<And>f args. upholds I (js f args)) \<Longrightarrow> upholds I (Send E js obj info)"
  unfolding Send_eq by (intro upholds_rules)

lemma membership_upholds [upholds_rules]:
  "upholds I (AddMembership E obj info)" "upholds I (DropMembership E obj info)"
  unfolding AddMembership_eq DropMembership_eq add_membership_def drop_membership_def
  by (intro upholds_rules)+

lemma call_fnptr_upholds [upholds_rules]:
  "(\<And>f args. upholds I (js f args)) \<Longrightarrow> upholds I (call_fnptr js f d msg)"
  by (cases f) (simp_all add: call_fnptr_def ReadReadyCallback_def WriteReadyCallback_def
      ErrorCallback_def upholds_rules)

lemma watcher_event_upholds [upholds_rules]:
  "(\<And>f args. upholds I (js f args)) \<Longrightarrow> upholds I (watcher_event E js h status revents)"
  unfolding watcher_event_def io_event_wrapper_def io_event_def by (intro upholds_rules)

end

interpretation wrap_quiet: quiet_invariant wrap_inv
  by unfold_locales (rule wrap_inv_quiet)

lemma sending_upholds [upholds_rules]:
  "upholds wrap_inv (PauseSending obj)" "upholds wrap_inv (ResumeSending obj)"
  unfolding PauseSending_eq ResumeSending_eq by (intro upholds_rules)+

lemma New_upholds: "fresh_fds E \<Longrightarrow> upholds wrap_inv (New E c info)"
  unfolding New_eq New_construct_eq Let_def by (intro upholds_rules Wrapper_new_upholds)

lemma call_native_upholds:
  "(\<And>f args. upholds wrap_inv (js f args)) \<Longrightarrow> fresh_fds E \<Longrightarrow> upholds wrap_inv (call_native E js f obj info)"
  by (cases f) (simp_all add: call_native_eq New_upholds upholds_rules)

lemma call_method_upholds [upholds_rules]:
  "(\<And>f args. upholds wrap_inv (js f args)) \<Longrightarrow> fresh_fds E \<Longrightarrow> upholds wrap_inv (call_method E js name obj info)"
  unfolding call_method_eq by (intro upholds_rules call_native_upholds)

section \<open>Reachable worlds\<close>

text \<open>
  One turn of the event loop: JavaScript constructs an object or calls a method of one it holds,
  libuv reports an event of an open handle or makes a close callback, the collector destroys an
  object, or something happens that neither touches the objects nor opens or closes a descriptor.
  A turn that ends in undefined behaviour has no successor.
\<close>

definition wrap_init :: "'a wrap_world_scheme \<Rightarrow> bool" where
  "wrap_init w \<longleftrightarrow> trace w = [] \<and> pollers w = Map.empty \<and> handles w = Map.empty \<and> wrappers w = Map.empty"

abbreviation defined_end :: "error + 'b \<Rightarrow> bool" where
  "defined_end r \<equiv> \<forall>u. r \<noteq> Inl (Undefined u)"

inductive wrap_step ::
  "env \<Rightarrow> 'a wrap_world_scheme js_call \<Rightarrow> 'a wrap_world_scheme \<Rightarrow> 'a wrap_world_scheme \<Rightarrow> bool"
  for E js where
  construct: "run_state (New E c info) w = (r, w') \<Longrightarrow> defined_end r \<Longrightarrow> wrap_step E js w w'"
| invoke: "wrappers w obj \<noteq> None \<Longrightarrow> run_state (call_method E js name obj info) w = (r, w') \<Longrightarrow>
     defined_end r \<Longrightarrow> wrap_step E js w w'"
| io: "watching (trace w) h \<noteq> None \<Longrightarrow> run_state (watcher_event E js h status revents) w = (s, w') \<Longrightarrow>
     defined_end s \<Longrightarrow> wrap_step E js w w'"
| collect: "wrappers w obj \<noteq> None \<Longrightarrow> run_state (Wrapper_delete E obj) w = (s, w') \<Longrightarrow>
     defined_end s \<Longrightarrow> wrap_step E js w w'"
| closed: "handles w h \<noteq> None \<Longrightarrow> watching (trace w) h = None \<Longrightarrow>
     wrap_step E js w (snd (run_state (on_close h) w))"
| elsewhere: "quiet w w' \<Longrightarrow> wrap_step E js w w'"

inductive wrap_reach :: "env \<Rightarrow> 'a wrap_world_scheme js_call \<Rightarrow> 'a wrap_world_scheme \<Rightarrow> bool" for E js where
  start: "wrap_init w \<Longrightarrow> wrap_reach E js w"
| step: "wrap_reach E js w \<Longrightarrow> wrap_step E js w w' \<Longrightarrow> wrap_reach E js w'"

inductive_cases wrap_reachE: "wrap_reach E js w"

lemma wrap_init_inv: "wrap_init w \<Longrightarrow> wrap_inv w"
  by (simp add: wrap_init_def wrap_inv_def poll_inv_def wrap_links_def)

lemma wrap_step_inv:
  assumes js: "\<And>f args. upholds wrap_inv (js f args)" and E: "fresh_fds E"
  shows "wrap_step E js w w' \<Longrightarrow> wrap_inv w \<Longrightarrow> wrap_inv w'"
proof -
  have call: "upholds wrap_inv (call_method E js name obj info)" for name obj info
    by (intro call_method_upholds js E)
  have event: "upholds wrap_inv (watcher_event E js h status revents)" for h status revents
    by (intro wrap_quiet.watcher_event_upholds js)
  show "wrap_step E js w w' \<Longrightarrow> wrap_inv w \<Longrightarrow> wrap_inv w'"
  proof (induction rule: wrap_step.induct)
  case (construct c info w r w')
  then show ?case using upholdsD [OF New_upholds [OF E]] by blast
next
  case (invoke w obj name info r w')
  then show ?case using upholdsD [OF call] by blast
next
  case (io w h status revents s w')
  then show ?case using upholdsD [OF event] by blast
next
  case (collect w obj s w')
  then show ?case using upholdsD [OF Wrapper_delete_upholds] by blast
next
  case (closed w h)
  then show ?case by (blast intro: on_close_keeps)
next
  case (elsewhere w w')
  then show ?case by (rule wrap_inv_quiet)
  qed
qed

lemma wrap_reach_inv:
  assumes "\<And>f args. upholds wrap_inv (js f args)" "fresh_fds E" "wrap_reach E js w"
  shows "wrap_inv w"
  using assms(3)
proof (induction rule: wrap_reach.induct)
  case (start w)
  then show ?case by (rule wrap_init_inv)
next
  case (step w w')
  show ?case by (rule wrap_step_inv [where js = js and E = E]) (use assms(1,2) step in auto)
qed

text \<open>
  C1. In every world the event loop can reach, when the kernel gives new descriptors numbers that are
  not in use and the JavaScript functions that are called keep \<open>wrap_inv\<close> (code that acts by the methods of
  the objects does), each live object holds an open descriptor and a live poller of its own.  As long as
  this is a \<open>UvPoller\<close>, that is until \<open>Close\<close>, libuv is asked to watch exactly that descriptor, with the
  mask the poller remembers, and the poller calls back into its object.  Nothing is leaked: every open
  descriptor and every live poller belongs to exactly one live object, and no call used a libuv handle
  out of turn.
\<close>

theorem reachable_wrappers:
  assumes js: "\<And>f args. upholds wrap_inv (js f args)" and E: "fresh_fds E" and "wrap_reach E js w"
  shows "(\<forall>obj W. wrappers w obj = Some W \<longrightarrow>
      get_descriptor (wsocket W) \<in> open_fds (trace w) \<and>
      (\<exists>x. pollers w (wpoller W) = Some x \<and>
        (\<forall>u. x = UvPoller u \<longrightarrow> external_data u = obj \<and>
           Uv_poll_init (uv_poll u) (get_descriptor (wsocket W)) \<in> set (trace w) \<and>
           watching (trace w) (uv_poll u) = Some (event_mask (current_events u))))) \<and>
    (\<forall>fd \<in> open_fds (trace w). \<exists>!obj. \<exists>W. wrappers w obj = Some W \<and> get_descriptor (wsocket W) = fd) \<and>
    (\<forall>p. pollers w p \<noteq> None \<longrightarrow> (\<exists>!obj. \<exists>W. wrappers w obj = Some W \<and> wpoller W = p)) \<and>
    uv_legal (trace w)"
proof -
  have "wrap_inv w" by (rule wrap_reach_inv [OF js E assms(3)])
  then have p: "poll_inv w" and l: "wrap_links w" by (simp_all add: wrap_inv_def)
  note links = wrap_linksD [OF l]
  show ?thesis
  proof (intro conjI allI impI ballI)
    fix obj W assume W: "wrappers w obj = Some W"
    show "get_descriptor (wsocket W) \<in> open_fds (trace w)" unfolding links(4) using W by blast
    show "\<exists>x. pollers w (wpoller W) = Some x \<and>
        (\<forall>u. x = UvPoller u \<longrightarrow> external_data u = obj \<and>
           Uv_poll_init (uv_poll u) (get_descriptor (wsocket W)) \<in> set (trace w) \<and>
           watching (trace w) (uv_poll u) = Some (event_mask (current_events u)))"
      using links(1) [OF W] poll_invD(1) [OF p] by (auto simp: wf_wrapper_def owns_handle_def)
  next
    fix fd assume "fd \<in> open_fds (trace w)"
    then show "\<exists>!obj. \<exists>W. wrappers w obj = Some W \<and> get_descriptor (wsocket W) = fd"
      unfolding links(4) using links(3) by blast
  next
    fix q assume "pollers w q \<noteq> None"
    then show "\<exists>!obj. \<exists>W. wrappers w obj = Some W \<and> wpoller W = q"
      using links(2) links(3) by metis
  next
    show "uv_legal (trace w)" by (rule poll_invD(3) [OF p])
  qed
qed

end
