(* ===== verification/Wrapper_Methods.thy ===== *)
theory Wrapper_Methods
  imports Wrapper_Facts
begin

text \<open>
  The methods of the Node object one by one: which arguments they refuse, what they ask of the
  kernel and of libuv, which memory they hand over, and the inputs on which they leave C++.
\<close>

unbundle bit_operations_syntax

section \<open>What each method does\<close>

lemma New_refuses:
  assumes "\<And>device r s e. \<not> options_ok (arg info 0) device r s e"
  shows "\<exists>x w'. run_state (New E c info) w = (Inl x, w') \<and> (\<exists>msg. x = JS_Error msg \<or> x = JS_TypeError msg) \<and>
    trace w' = trace w \<and> heap w' = heap w \<and> pollers w' = pollers w \<and> handles w' = handles w \<and>
    wrappers w' = wrappers w"
proof -
  from run_Wrapper_new_bad [of "arg info 0" E w] assms obtain msg where
    "run_state (Wrapper_new E (arg info 0)) w = (Inl (Invalid_argument msg), w\<lparr>next_obj := Suc (next_obj w)\<rparr>)"
    by blast
  moreover have "arg [arg info 0] 0 = arg info 0" by (simp add: arg_def)
  ultimately show ?thesis by (simp add: New_eq New_construct_eq Let_def run_simps)
qed

lemma call_method_simps:
  "call_method E js ''Close'' obj info = Close obj"
  "call_method E js ''AddMembership'' obj info = AddMembership E obj info"
  "call_method E js ''DropMembership'' obj info = DropMembership E obj info"
  "call_method E js ''Send'' obj info = Send E js obj info"
  "call_method E js ''Receive'' obj info = Receive E js obj info"
  "call_method E js ''PauseSending'' obj info = PauseSending obj"
  "call_method E js ''ResumeSending'' obj info = ResumeSending obj"
  by (simp_all add: call_method_eq Init_def call_native_eq)

lemma options_own:
  assumes "options_ok options device r s e"
  shows "own_property options ''device'' \<noteq> None" "own_property options ''onRecv'' \<noteq> None"
    "own_property options ''onSend'' \<noteq> None" "own_property options ''onError'' \<noteq> None"
    "options \<notin> {JUndefined, JNull}"
  using assms by (auto simp: options_ok_def get_property_def split: option.splits)

lemma run_New:
  assumes "options_ok (arg info 0) device r s e"
  shows "run_state (New E c info) w =
    run_state (catch_std (after (Wrapper_new E (arg info 0)) (\<lambda>obj. give (JWrapped obj))) (\<lambda>e. throw (JS_Error e))) w"
proof -
  have "arg [arg info 0] 0 = arg info 0" by (simp add: arg_def)
  then show ?thesis
    using options_own [OF assms] by (auto simp: New_eq New_construct_eq Let_def)
qed

lemma New_frame:
  assumes "run_state (New E c info) w = (q, w')"
  shows "wrap_world.more w' = wrap_world.more w \<and> next_obj w \<le> next_obj w' \<and>
    (case q of
       Inl _ \<Rightarrow> wrappers w' = wrappers w \<and> pollers w' = pollers w
     | Inr v \<Rightarrow> \<exists>device r s e sock p x. options_ok (arg info 0) device r s e \<and> v = JWrapped (next_obj w) \<and>
         wrappers w' = (wrappers w)(next_obj w \<mapsto> new_wrapper r s e sock p) \<and>
         pollers w' = (pollers w)(p \<mapsto> x) \<and> next_obj w < p \<and> p < next_obj w')"
proof (cases "\<exists>device r s e. options_ok (arg info 0) device r s e")
  case True
  then obtain device r s e where opts: "options_ok (arg info 0) device r s e" by blast
  obtain x w1 where x: "run_state (Socket_new E (c_str device)) (w\<lparr>next_obj := Suc (next_obj w)\<rparr>) = (x, w1)" by fastforce
  have "world.more w1 = world.more (w\<lparr>next_obj := Suc (next_obj w)\<rparr>)"
    using keepsD [OF Socket_new_no_uv x] by (simp add: adds_def)
  note same = more_eqD [OF this]
  show ?thesis
  proof (cases x)
    case (Inl err)
    have "w' = w1 \<and> (\<exists>e. q = Inl e)"
      using assms Inl by (auto simp: run_New [OF opts] run_catch_std run_after run_Wrapper_new [OF opts] run_throw x
        split: option.splits)
    then show ?thesis using same by auto
  next
    case (Inr sock)
    show ?thesis
      using assms Inr opts same
      by (auto simp: run_New [OF opts] run_catch_std run_after run_Wrapper_new [OF opts] run_give x)
         (intro exI [of _ device] exI [of _ r] exI [of _ s] exI [of _ e] conjI exI [of _ sock]
            exI [of _ "Suc (next_obj w)"], auto)
  qed
next
  case False
  then have "\<And>device r s e. \<not> options_ok (arg info 0) device r s e" by blast
  from run_Wrapper_new_bad [OF this, of E w] obtain msg where
    "run_state (Wrapper_new E (arg info 0)) w = (Inl (Invalid_argument msg), w\<lparr>next_obj := Suc (next_obj w)\<rparr>)" by blast
  moreover have "arg [arg info 0] 0 = arg info 0" by (simp add: arg_def)
  ultimately show ?thesis using assms
    by (auto simp: New_eq New_construct_eq Let_def run_simps split: if_splits)
qed

lemma New_cases:
  assumes E: "fresh_fds E" and opts: "options_ok (arg info 0) device r s e" and "length (c_str device) < IFNAMSIZ"
    and run: "run_state (New E c info) w = (q, w')"
  shows "(\<exists>obj sock p u. q = Inr (JWrapped obj) \<and>
       wrappers w' = (wrappers w)(obj \<mapsto> new_wrapper r s e sock p) \<and>
       pollers w' = (pollers w)(p \<mapsto> UvPoller u) \<and> external_data u = obj \<and>
       get_descriptor sock \<notin> open_fds (trace w) \<and> device_name sock = c_str device \<and>
       open_fds (trace w') = insert (get_descriptor sock) (open_fds (trace w)) \<and>
       watching (trace w') = (watching (trace w))(uv_poll u \<mapsto> UV_READABLE) \<and>
       Uv_poll_init (uv_poll u) (get_descriptor sock) \<in> set (trace w')) \<or>
     (\<exists>msg. q = Inl (JS_Error msg) \<and> open_fds (trace w') = open_fds (trace w) \<and>
       watching (trace w') = watching (trace w) \<and> pollers w' = pollers w \<and> handles w' = handles w \<and>
       wrappers w' = wrappers w)"
proof -
  let ?w0 = "w\<lparr>next_obj := Suc (next_obj w)\<rparr>"
  obtain x w1 where x: "run_state (Socket_new E (c_str device)) ?w0 = (x, w1)" by fastforce
  note nu = keepsD [OF Socket_new_no_uv x] and fds = Socket_new_fds [OF E x]
  have more: "world.more w1 = world.more ?w0" using nu by (simp add: adds_def)
  note same = more_eqD [OF more]
  show ?thesis
  proof (cases x)
    case (Inl err)
    have "\<exists>msg. err = Runtime_error msg"
      using x Inl assms(3)
      by (auto simp: Socket_new_def Socket_setup_def syscall_defs run_syscall run_simps strcpy_ifr_name_def
          Let_def split: prod.splits sum.splits if_splits)
    then obtain msg where msg: "err = Runtime_error msg" ..
    then have "q = Inl (JS_Error msg) \<and> w' = w1"
      using run x Inl by (simp add: run_New [OF opts] run_catch_std run_after run_Wrapper_new [OF opts] run_throw)
    with msg fds Inl same no_uvD [OF nu] show ?thesis by simp
  next
    case (Inr sock)
    let ?p = "next_obj w1"
    have w': "q = Inr (JWrapped (next_obj w))" "w' = w1\<lparr>trace := trace w1 @
              [Uv_poll_init (Suc ?p) (get_descriptor sock), Uv_poll_start (Suc ?p) UV_READABLE],
            pollers := (pollers w1)(?p \<mapsto> UvPoller (new_uv_poller (next_obj w) (Suc ?p))),
            handles := (handles w1)(Suc ?p \<mapsto> ?p), next_obj := Suc (Suc ?p),
            wrappers := (wrappers w1)(next_obj w \<mapsto> new_wrapper r s e sock ?p)\<rparr>"
      using run x Inr by (simp_all add: run_New [OF opts] run_catch_std run_after run_Wrapper_new [OF opts] run_give)
    have "device_name sock = c_str device"
      using x Inr by (auto simp: Socket_new_def run_simps sys_socket_def sys_close_def run_syscall
          dest: Socket_setup_socket split: if_splits sum.splits prod.splits)
    then show ?thesis
      using fds Inr same no_uvD [OF nu]
      by (intro disjI1 exI [of _ "next_obj w"] exI [of _ sock] exI [of _ ?p]
            exI [of _ "new_uv_poller (next_obj w) (Suc ?p)"])
         (simp add: w' new_uv_poller_def open_fds_other get_descriptor_def)
  qed
qed

text \<open>
  C11. \<open>New\<close> with valid options and a device name that fits ends in one of two ways.  It returns
  an object with the three functions, a socket on a descriptor that was not open before, and a poller
  that reports readable and calls back into the object; or it throws a JavaScript error with the
  text of the failed call, and descriptors, pollers, handles and objects are those from before.
  (\<open>Wrapper_Safety\<close> has the case that there is no memory for a poller.)
\<close>

theorem New_outcome:
  assumes E: "fresh_fds E" and opts: "options_ok (arg info 0) device r s e" and "length (c_str device) < IFNAMSIZ"
    and run: "run_state (New E c info) w = (q, w')"
  shows "(\<exists>obj sock p u. q = Inr (JWrapped obj) \<and>
       wrappers w' = (wrappers w)(obj \<mapsto> new_wrapper r s e sock p) \<and>
       pollers w' = (pollers w)(p \<mapsto> UvPoller u) \<and> external_data u = obj \<and>
       get_descriptor sock \<notin> open_fds (trace w) \<and> device_name sock = c_str device \<and>
       open_fds (trace w') = insert (get_descriptor sock) (open_fds (trace w)) \<and>
       watching (trace w') = (watching (trace w))(uv_poll u \<mapsto> UV_READABLE) \<and>
       Uv_poll_init (uv_poll u) (get_descriptor sock) \<in> set (trace w')) \<or>
     (\<exists>msg. q = Inl (JS_Error msg) \<and> open_fds (trace w') = open_fds (trace w) \<and>
       watching (trace w') = watching (trace w) \<and> pollers w' = pollers w \<and> handles w' = handles w \<and>
       wrappers w' = wrappers w)"
  by (rule New_cases [OF assms])

lemma send_arguments:
  assumes "\<And>m n a f. info \<noteq> [JBuffer m n, JBuffer a ETHER_ADDR_LEN, JFunction f]" and "length info = 3"
  shows "(\<forall>m n. info ! 0 \<noteq> JBuffer m n) \<or> (\<forall>a n. info ! 1 \<noteq> JBuffer a n) \<or>
    (\<exists>a n. info ! 1 = JBuffer a n \<and> n \<noteq> ETHER_ADDR_LEN) \<or> (\<forall>f. info ! 2 \<noteq> JFunction f)"
proof -
  obtain x y z where "info = [x, y, z]" using assms(2) by (auto simp: numeral_eq_Suc length_Suc_conv)
  with assms(1) show ?thesis by (auto simp: nth_Cons numeral_eq_Suc) blast
qed

text \<open>
  \<open>Send\<close> with anything but a Buffer, an address Buffer of exactly six bytes and a function
  throws one of its five errors and does nothing else.
\<close>

lemma Send_checks_arguments:
  assumes "wrappers w obj = Some W"
    and "\<And>m n a f. info \<noteq> [JBuffer m n, JBuffer a ETHER_ADDR_LEN, JFunction f]"
  shows "\<exists>x. run_state (Send E js obj info) w = (Inl x, w) \<and>
    (if length info \<noteq> 3 then x = JS_Error ''Three arguments required''
     else x \<in> {JS_TypeError ''Message argument has to be buffer'',
               JS_TypeError ''Address argument has to be buffer'',
               JS_TypeError ''Address argument invalid length'',
               JS_TypeError ''Callback argument has to be function''})"
proof (cases "length info = 3")
  case False
  with assms(1) show ?thesis by (simp add: Send_eq run_simps)
next
  case True
  from send_arguments [OF assms(2) True] show ?thesis
    using True assms(1) by (auto simp: Send_eq run_simps arg_def split: js_value.splits)
qed

lemma Send_cases:
  assumes W: "wrappers w obj = Some W" and n: "14 + n < 2 ^ 31"
    and ready: "send_ready E w (wsocket W) a m (of_nat n) dst msg" and doc: "sendto_documented E"
  shows "\<exists>p frame ret w1. heap w1 = heap w \<and> trace w1 = trace w @ [Ev_alloc (of_nat (14 + n)) p,
       Ev_sendto (get_descriptor (wsocket W)) frame (of_nat (14 + n)) 0 (send_addr (wsocket W)) sizeof_sockaddr_ll ret,
       Ev_free p] \<and>
     decode_frame frame = Some \<lparr>ether_dhost = dst, ether_shost = hardware_address (wsocket W),
       ether_type = of_nat n, ether_payload = msg\<rparr> \<and>
     run_state (Send E js obj [JBuffer m n, JBuffer a ETHER_ADDR_LEN, JFunction f]) w =
       (if ret = -1 then (Inl (JS_Error (os_strerror E (os_errno E (trace w1)))), w1)
        else if unat ret < 14 + n then (Inl (JS_Error ''Failed to send entire packet''), w1)
        else run_state (after (call_js js f [js_int (int n)]) (\<lambda>_. give JUndefined)) w1)"
proof -
  let ?s = "wsocket W" and ?len = "of_nat n :: i32"
  have len: "unat ?len = n" using n by (simp add: unsigned_of_nat take_bit_nat_eq_self)
  have sint: "sint ?len = int n" using n by (simp only: sint32_unat len) simp
  obtain r w1 where run: "run_state (send_message E ?s a m ?len) w = (r, w1)" by fastforce
  show ?thesis
  proof (rule send_message_cases [OF ready run], goal_cases)
    case (1 p ret)
    have "ret = -1 \<or> unat ret \<le> unat (of_nat (14 + unat ?len) :: u64)"
      using doc unfolding 1(2) sendto_documented_def Let_def by blast
    then have "ret = -1 \<or> unat ret \<le> 14 + unat ?len"
      using overall_length(2) [of ?len] n len by simp
    note whole = sent_whole [OF this, unfolded len, OF n]
    have tr: "trace w1 = trace w @ [Ev_alloc (of_nat (14 + n)) p,
        Ev_sendto (socket_descriptor ?s) (encode_frame (message_frame ?s dst msg)) (of_nat (14 + n)) 0
          (send_addr ?s) sizeof_sockaddr_ll ret, Ev_free p]" "heap w1 = heap w"
      using 1(1) len by simp_all
    have r: "r = (if ret = -1 then Inl (Runtime_error (os_strerror E (os_errno E (trace w1))))
          else if unat ret < 14 + n then Inl (Runtime_error ''Failed to send entire packet'') else Inr ?len)"
      using 1(3) whole by (auto simp: len simp del: of_nat_add)
    have "run_state (Send E js obj [JBuffer m n, JBuffer a ETHER_ADDR_LEN, JFunction f]) w =
       (if ret = -1 then (Inl (JS_Error (os_strerror E (os_errno E (trace w1)))), w1)
        else if unat ret < 14 + n then (Inl (JS_Error ''Failed to send entire packet''), w1)
        else run_state (after (call_js js f [js_int (int n)]) (\<lambda>_. give JUndefined)) w1)"
      using W r by (simp add: Send_eq arg_def run_after run_unwrap run_catch_std run run_throw sint)
    with tr send_ready_frame(1) [OF ready] show ?case
      by (intro exI [of _ p] exI [of _ "encode_frame (message_frame ?s dst msg)"] exI [of _ ret] exI [of _ w1])
         (simp add: get_descriptor_def len)
  qed
qed

text \<open>
  C10. \<open>Send\<close> of \<open>n\<close> bytes to an address hands the kernel one frame with that destination, the
  socket's own address and those bytes.  When the kernel takes all of it the callback is called
  once, with \<open>n\<close>; otherwise the method throws a JavaScript error and the callback is not called.
\<close>

theorem Send_effect:
  assumes W: "wrappers w obj = Some W" and n: "14 + n < 2 ^ 31"
    and ready: "send_ready E w (wsocket W) a m (of_nat n) dst msg" and doc: "sendto_documented E"
  shows "\<exists>p frame ret w1. heap w1 = heap w \<and> trace w1 = trace w @ [Ev_alloc (of_nat (14 + n)) p,
       Ev_sendto (get_descriptor (wsocket W)) frame (of_nat (14 + n)) 0 (send_addr (wsocket W)) sizeof_sockaddr_ll ret,
       Ev_free p] \<and>
     decode_frame frame = Some \<lparr>ether_dhost = dst, ether_shost = hardware_address (wsocket W),
       ether_type = of_nat n, ether_payload = msg\<rparr> \<and>
     run_state (Send E js obj [JBuffer m n, JBuffer a ETHER_ADDR_LEN, JFunction f]) w =
       (if ret = -1 then (Inl (JS_Error (os_strerror E (os_errno E (trace w1)))), w1)
        else if unat ret < 14 + n then (Inl (JS_Error ''Failed to send entire packet''), w1)
        else run_state (after (call_js js f [js_int (int n)]) (\<lambda>_. give JUndefined)) w1)"
  by (rule Send_cases [OF assms])

lemma run_ParseMembershipArguments_buffer:
  "ETHER_ADDR_LEN \<le> n \<Longrightarrow> run_state (ParseMembershipArguments [JBuffer p n] out) w = (Inr (fst out, p), w)"
  by (cases out) (simp add: ParseMembershipArguments_def arg_def run_simps)

lemma run_ParseMembershipArguments_number:
  "run_state (ParseMembershipArguments [JNumber x] out) w = (Inr (to_int32 x, snd out), w)"
  by (cases out) (simp add: ParseMembershipArguments_def arg_def run_simps)

text \<open>
  C34. \<open>AddMembership\<close> and \<open>DropMembership\<close> of an address Buffer, or of one of the two exported types,
  make one \<open>setsockopt\<close> call: the request names the object's interface and the address, and a failure
  becomes a JavaScript error.
\<close>

theorem membership_methods:
  assumes "wrappers w obj = Some W"
    and "(\<exists>p n. v = JBuffer p n \<and> ETHER_ADDR_LEN \<le> n \<and> mem_load (heap w) p ETHER_ADDR_LEN = Inr a \<and> type = MULTICAST) \<or>
         (\<exists>x. v = JNumber x \<and> type = to_int32 x \<and> type \<in> {PROMISCIOUS, ALL_MULTICAST})"
    and "(f, action) \<in> {(AddMembership, ADD_MEMBERSHIP), (DropMembership, DROP_MEMBERSHIP)}"
    and "run_state (f E obj [v]) w = (r, w')"
  shows "\<exists>rc. trace w' = trace w @ [Ev_setsockopt (get_descriptor (wsocket W)) SOL_PACKET action
       (membership_request (wsocket W) type a) sizeof_packet_mreq rc] \<and> heap w' = heap w \<and>
     r = (if rc = -1 then Inl (JS_Error (os_strerror E (os_errno E (trace w')))) else Inr JUndefined)"
proof -
  obtain p where parse: "run_state (ParseMembershipArguments [v] (MULTICAST, NULL)) w = (Inr (type, p), w)"
    and ok: "is_valid_membership_type type" "type = MULTICAST \<Longrightarrow> mem_load (heap w) p 6 = Inr a"
    using assms(2)
    by (auto simp: run_ParseMembershipArguments_buffer run_ParseMembershipArguments_number
        is_valid_membership_type_def membership_consts ETHER_ADDR_LEN_def)
  have "run_state (f E obj [v]) w =
      (case run_state (manage_membership E (wsocket W) action type p) w of
         (Inl e, w1) \<Rightarrow> (case what e of Some s \<Rightarrow> (Inl (JS_Error s), w1) | None \<Rightarrow> (Inl e, w1))
       | (Inr _, w1) \<Rightarrow> (Inr JUndefined, w1))"
  proof -
    consider "f = AddMembership" "action = ADD_MEMBERSHIP" | "f = DropMembership" "action = DROP_MEMBERSHIP"
      using assms(3) by blast
    then show ?thesis
      by cases (simp_all add: AddMembership_eq DropMembership_eq add_membership_def drop_membership_def
          run_after run_give run_unwrap run_catch_std run_throw parse assms(1) split: prod.splits sum.splits option.splits)
  qed
  then show ?thesis
    using assms(4) run_manage_membership [OF ok, of E "wsocket W" action]
    by (simp add: Let_def get_descriptor_def split: if_splits) auto
qed

text \<open>
  C40. A number that converts to 0 selects \<open>MULTICAST\<close> without an address: \<open>AddMembership(0)\<close>, also
  with 0.5, NaN or 2 to the 32, dereferences a null pointer.
\<close>

theorem membership_zero_undefined:
  assumes "wrappers w obj = Some W" and "to_int32 x = 0"
  shows "run_state (AddMembership E obj [JNumber x]) w = (Inl (Undefined Null_deref), w)"
  using assms
  by (simp add: AddMembership_eq add_membership_def manage_membership_def run_after run_unwrap run_catch_std
      run_ParseMembershipArguments_number is_valid_membership_type_def membership_consts run_load_bytes
      ETHER_ADDR_LEN_def Let_def)

text \<open>
  C18. \<open>Close\<close> deletes the poller and puts a \<open>NullPoller\<close> in its place: libuv no longer watches the
  handle, and any later \<open>PauseSending\<close> or \<open>ResumeSending\<close> does nothing.  The socket is not closed: the
  descriptor stays open, with the same socket in the object.
\<close>

theorem Close_effect:
  assumes inv: "wrap_inv w" and W: "wrappers w obj = Some W"
  shows "\<exists>w' p. run_state (Close obj) w = (Inr JUndefined, w') \<and> wrap_inv w' \<and>
    wrappers w' = (wrappers w)(obj \<mapsto> W\<lparr>wpoller := p\<rparr>) \<and> pollers w' p = Some NullPoller \<and>
    pollers w' (wpoller W) = None \<and> open_fds (trace w') = open_fds (trace w) \<and>
    (\<forall>u. pollers w (wpoller W) = Some (UvPoller u) \<longrightarrow> watching (trace w') (uv_poll u) = None) \<and>
    (\<forall>ms. set ms \<subseteq> {PauseSending, ResumeSending} \<longrightarrow>
       run_state (each (\<lambda>m. after (m obj) (\<lambda>_. give ())) ms) w' = (Inr (), w'))"
proof -
  have l: "wrap_links w" and pinv: "poll_inv w" using inv by (simp_all add: wrap_inv_def)
  have p: "pollers w (wpoller W) \<noteq> None" using wrap_linksD(1) [OF l W] by (simp add: wf_wrapper_def)
  note run = run_Close [OF W p]
  define w' where "w' = snd (run_state (Close obj) w)"
  have w': "w' = w\<lparr>trace := trace w @ uv_closing w W,
       pollers := (pollers w)(wpoller W := None, next_obj w \<mapsto> NullPoller),
       next_obj := Suc (next_obj w), wrappers := (wrappers w)(obj \<mapsto> W\<lparr>wpoller := next_obj w\<rparr>)\<rparr>"
    by (simp add: w'_def run)
  have ne: "wpoller W \<noteq> next_obj w" using poll_wrappers_inv(1) [OF l pinv W] by simp
  have inv': "wrap_inv w'" using upholdsD [OF Close_upholds run] inv by (simp add: w')
  have "run_state (each (\<lambda>m. after (m obj) (\<lambda>_. give ())) ms) w' = (Inr (), w')"
    if "set ms \<subseteq> {PauseSending, ResumeSending}" for ms
    using that
  proof (induction ms)
    case (Cons m ms)
    have "run_state (m obj) w' = (Inr JUndefined, w')"
      using Cons.prems by (auto simp: w' PauseSending_eq ResumeSending_eq run_after run_unwrap run_give run_set_events_null)
    with Cons show ?case by (simp add: run_after run_give)
  qed (simp add: run_give)
  moreover have "watching (trace w') (uv_poll u) = None" if "pollers w (wpoller W) = Some (UvPoller u)" for u
    using that by (simp add: w' uv_closing_def)
  ultimately show ?thesis
    using inv' ne by (intro exI [of _ w'] exI [of _ "next_obj w"])
      (auto simp: run w' open_fds_other uv_closing_other)
qed

lemma set_events_wrappers: "keeps (\<lambda>w w'. wrappers w' = wrappers w) (set_events p e)"
proof (rule keepsI)
  fix w w' :: "'a wrap_world_scheme" and r
  assume "run_state (set_events p e) w = (r, w')"
  then show "wrappers w' = wrappers w"
    by (auto simp: set_events_def UvPoller_set_events_def NullPoller_set_events_def run_simps put_poller_def
        split: option.splits poller.splits if_splits)
qed

definition pause_resume_event :: "bool \<Rightarrow> poller_events" where
  "pause_resume_event p = (if p then READ_EVENT else RW_EVENT)"

lemma run_pause_resume:
  "wrappers w obj = Some W \<Longrightarrow>
   run_state (each (\<lambda>p. after (if p then PauseSending obj else ResumeSending obj) (\<lambda>_. give ())) ps) w =
   run_state (each (set_events (wpoller W)) (map pause_resume_event ps)) w"
proof (induction ps arbitrary: w)
  case (Cons p ps)
  let ?e = "pause_resume_event p"
  obtain r w1 where run: "run_state (set_events (wpoller W) ?e) w = (r, w1)" by fastforce
  have "wrappers w1 obj = Some W" using keepsD [OF set_events_wrappers run] Cons.prems by simp
  from Cons.IH [OF this] Cons.prems run show ?case
    by (auto simp: PauseSending_eq ResumeSending_eq run_after run_unwrap run_give pause_resume_event_def
        split: sum.splits if_splits)
qed (simp add: run_give)

text \<open>
  Until \<open>Close\<close>, after any sequence of \<open>PauseSending\<close> and \<open>ResumeSending\<close> the handle watches for
  what the last call asked: readable alone after a pause, both after a resume.
\<close>

lemma pause_resume:
  fixes w :: "'a wrap_world_scheme"
  assumes inv: "wrap_inv w" and W: "wrappers w obj = Some W" and u: "pollers w (wpoller W) = Some (UvPoller u)"
    and "ps \<noteq> []"
  shows "\<exists>w'. run_state (each (\<lambda>p. after (if p then PauseSending obj else ResumeSending obj) (\<lambda>_. give ())) ps) w
      = (Inr (), w') \<and> wrap_inv w' \<and> wrappers w' = wrappers w \<and>
    watching (trace w') (uv_poll u) = Some (if last ps then UV_READABLE else UV_READABLE OR UV_WRITABLE)"
proof -
  have pinv: "poll_inv w" using inv by (simp add: wrap_inv_def)
  from run_each_set_events [OF pinv u refl, of "map pause_resume_event ps"] obtain w' where
    run: "run_state (each (set_events (wpoller W)) (map pause_resume_event ps)) w = (Inr (), w')"
    and watch: "watching (trace w') = (watching (trace w))(uv_poll u \<mapsto>
      event_mask (last (current_events u # map pause_resume_event ps)))" by blast
  have "keeps (\<lambda>w w'. wrappers w' = wrappers w) (each (set_events (wpoller W)) (map pause_resume_event ps))"
    by (intro keeps_each set_events_wrappers) (auto simp: reflp_def transp_def)
  from keepsD [OF this run] have "wrappers w' = wrappers w" .
  moreover have "keeps_inv (each (set_events (wpoller W)) (map pause_resume_event ps) :: ('a wrap_world_scheme, unit) prog)"
    by (intro keeps_each set_events_keeps inv_rel)
  from keepsD [OF this run] inv have "wrap_inv w'" by simp
  moreover have "last (current_events u # map pause_resume_event ps) = pause_resume_event (last ps)"
    using assms(4) by (simp add: last_map)
  ultimately show ?thesis
    using run watch by (simp add: run_pause_resume [OF W] pause_resume_event_def)
qed

text \<open>
  C19. The destructor gives back what the object owned and nothing else: its poller, its libuv handle
  and its descriptor, which is closed once.
\<close>

theorem collected_object_releases:
  assumes inv: "wrap_inv w" and W: "wrappers w obj = Some W"
  shows "\<exists>w'. run_state (Wrapper_delete E obj) w = (Inr (), w') \<and> wrap_inv w' \<and>
    wrappers w' = (wrappers w)(obj := None) \<and> pollers w' = (pollers w)(wpoller W := None) \<and>
    open_fds (trace w') = open_fds (trace w) - {get_descriptor (wsocket W)} \<and>
    (\<forall>u. pollers w (wpoller W) = Some (UvPoller u) \<longrightarrow> watching (trace w') = (watching (trace w))(uv_poll u := None)) \<and>
    (\<exists>rc. trace w' = trace w @ uv_closing w W @ [Ev_close (get_descriptor (wsocket W)) rc])"
proof -
  have l: "wrap_links w" using inv by (simp add: wrap_inv_def)
  have p: "pollers w (wpoller W) \<noteq> None" using wrap_linksD(1) [OF l W] by (simp add: wf_wrapper_def)
  let ?fd = "get_descriptor (wsocket W)"
  define rc where "rc = os_close E (trace w @ uv_closing w W) ?fd"
  define w' where "w' = w\<lparr>trace := trace w @ uv_closing w W @ [Ev_close ?fd rc],
       pollers := (pollers w)(wpoller W := None), wrappers := (wrappers w)(obj := None)\<rparr>"
  have run: "run_state (Wrapper_delete E obj) w = (Inr (), w')"
    by (simp add: run_Wrapper_delete [OF W p] w'_def rc_def)
  have tr: "trace w' = (trace w @ uv_closing w W) @ [Ev_close ?fd rc]" by (simp add: w'_def)
  have "open_fds (trace w') = open_fds (trace w) - {?fd}"
    unfolding tr by (simp only: open_fds_snoc fd_step.simps open_fds_other [OF uv_closing_other])
  moreover have "watching (trace w') = (watching (trace w))(uv_poll u := None)"
    if "pollers w (wpoller W) = Some (UvPoller u)" for u
    unfolding tr using that by (simp add: uv_closing_def del: append_assoc)
  moreover have "wrap_inv w'" using upholdsD [OF Wrapper_delete_upholds run inv] by simp
  ultimately show ?thesis using run by (intro exI [of _ w']) (auto simp: w'_def)
qed

text \<open>
  C15. A message handler that calls \<open>Close\<close> deletes the poller while \<open>io_event\<close> is still in it: when
  libuv reports the descriptor readable and writable at once, the next member read is from freed memory.
\<close>

theorem close_in_handler_undefined:
  assumes inv: "wrap_inv w" and W: "wrappers w obj = Some W" and u: "pollers w (wpoller W) = Some (UvPoller u)"
    and "onRecvCallback W = Some f" and "js f [] = Close obj"
    and "revents AND UV_READABLE \<noteq> 0" and "revents AND UV_WRITABLE \<noteq> 0"
  shows "fst (run_state (watcher_event E js (uv_poll u) 0 revents) w) = Inl (Undefined Use_after_free)"
proof -
  have l: "wrap_links w" and pinv: "poll_inv w" using inv by (simp_all add: wrap_inv_def)
  let ?w1 = "w\<lparr>trace := trace w @ [Ev_js f []]\<rparr>"
  have "external_data u = obj" "read_ready_callback u = ReadReadyCallback_ptr" "handles w (uv_poll u) = Some (wpoller W)"
    using wrap_linksD(1) [OF l W] u poll_invD(1) [OF pinv u] by (auto simp: wf_wrapper_def owns_handle_def)
  moreover have "run_state (Close obj) ?w1 = (Inr JUndefined,
     ?w1\<lparr>trace := trace ?w1 @ uv_closing ?w1 W,
       pollers := (pollers ?w1)(wpoller W := None, next_obj ?w1 \<mapsto> NullPoller),
       next_obj := Suc (next_obj ?w1),
       wrappers := (wrappers ?w1)(obj \<mapsto> W\<lparr>wpoller := next_obj ?w1\<rparr>)\<rparr>)"
    by (rule run_Close) (simp_all add: W u)
  moreover have "wpoller W \<noteq> next_obj w" using poll_wrappers_inv(1) [OF l pinv W] by simp
  ultimately show ?thesis
    using assms(4-7) u W
    by (simp add: watcher_event_def io_event_wrapper_def io_event_def run_after run_gets run_uv_member
        call_fnptr_def ReadReadyCallback_def run_unwrap call_handle_def call_js_def run_log run_give)
qed

section \<open>Receive\<close>

lemma receive_sizes: "unat (scast MAX_RECEIVE_BUFFER_SIZE :: u64) = 2048" "unat MAX_RECEIVE_BUFFER_SIZE = 2048"
  "unat (of_nat ETHER_ADDR_LEN :: u64) = 6"
proof -
  show u: "unat MAX_RECEIVE_BUFFER_SIZE = 2048" by (simp add: MAX_RECEIVE_BUFFER_SIZE_def)
  show "unat (scast MAX_RECEIVE_BUFFER_SIZE :: u64) = 2048"
    using u by (simp add: unat_scast_nonneg)
qed (simp add: ETHER_ADDR_LEN_def)

text \<open>The heap of \<open>Receive\<close> once its three blocks, fresh in \<open>w\<close>, are there\<close>

definition with_blocks :: "'a world_scheme \<Rightarrow> byte list \<Rightarrow> byte list \<Rightarrow> byte list \<Rightarrow> nat \<rightharpoonup> byte list" where
  "with_blocks w xs ys zs = (heap w)(next_blk w \<mapsto> xs, Suc (next_blk w) \<mapsto> ys, Suc (Suc (next_blk w)) \<mapsto> zs)"

lemma malloc_ok:
  assumes "os_alloc E (trace w) n"
  obtains w1 xs where "run_state (malloc E n) w = (Inr (Ptr (next_blk w) 0), w1)" "length xs = unat n"
    "heap w1 = (heap w)(next_blk w \<mapsto> xs)" "next_blk w1 = Suc (next_blk w)" "world.more w1 = world.more w"
proof -
  obtain w1 where w1: "run_state (malloc E n) w = (Inr (Ptr (next_blk w) 0), w1)"
    using assms by (simp add: run_malloc)
  show thesis
    by (rule that [OF w1, of "indet E (trace w) (unat n)"]) (use w1 assms in \<open>auto simp: run_malloc\<close>)
qed

lemma receive_message_blk: "keeps (\<lambda>w w'. next_blk w' = next_blk w) (receive_message E s a b c sz)"
  unfolding receive_message_def Let_def sys_recvmsg_def
  by (intro keeps_rules keeps_syscall)
     (auto simp: reflp_def transp_def keeps_def store_bytes_def split: sum.splits)

lemma Receive_buffers_cases:
  assumes "wf_mem w"
  shows "(\<exists>msg w' h n. run_state (Receive_buffers E) w = (Inl (JS_Error msg), w') \<and> heap w' = heap w \<and>
      world.more w' = world.more w \<and> unat n \<le> 2048 \<and> \<not> os_alloc E h n) \<or>
    (\<exists>w1 xs ys zs. run_state (Receive_buffers E) w =
        (Inr (Ptr (next_blk w) 0, Ptr (Suc (next_blk w)) 0, Ptr (Suc (Suc (next_blk w))) 0), w1) \<and>
       heap w1 = with_blocks w xs ys zs \<and> length xs = 6 \<and> length ys = 6 \<and> length zs = 2048 \<and>
       next_blk w1 = Suc (Suc (Suc (next_blk w))) \<and> world.more w1 = world.more w)"
proof -
  let ?b = "next_blk w"
  have none: "heap w ?b = None" "heap w (Suc ?b) = None" using assms by (simp_all add: wf_mem_def)
  have gone: "(heap w)(?b := None) = heap w" "(heap w)(?b := None, Suc ?b := None) = heap w"
    using none by (simp_all add: fun_upd_idem)
  show ?thesis
  proof (cases "os_alloc E (trace w) (of_nat ETHER_ADDR_LEN)")
    case False
    then show ?thesis
      using receive_sizes(3) by (intro disjI1) (auto simp: Receive_buffers_def run_simps intro!: exI [of _ "of_nat ETHER_ADDR_LEN"])
  next
    case True
    obtain w1 xs where w1: "run_state (malloc E (of_nat ETHER_ADDR_LEN)) w = (Inr (Ptr ?b 0), w1)"
      "next_blk w1 = Suc ?b" "world.more w1 = world.more w" and xs: "length xs = 6" "heap w1 = (heap w)(?b \<mapsto> xs)"
      by (rule malloc_ok [OF True]) (simp add: receive_sizes)
    show ?thesis
    proof (cases "os_alloc E (trace w1) (of_nat ETHER_ADDR_LEN)")
      case False
      with w1 xs gone show ?thesis
        using receive_sizes(3) by (intro disjI1) (auto simp: Receive_buffers_def run_after run_malloc run_free
            run_throw intro!: exI [of _ "of_nat ETHER_ADDR_LEN"])
    next
      case True
      obtain w2 ys where w2: "run_state (malloc E (of_nat ETHER_ADDR_LEN)) w1 = (Inr (Ptr (Suc ?b) 0), w2)"
        "length ys = 6" "heap w2 = (heap w)(?b \<mapsto> xs, Suc ?b \<mapsto> ys)" "next_blk w2 = Suc (Suc ?b)"
        "world.more w2 = world.more w"
        by (rule malloc_ok [OF True]) (use w1 xs in \<open>simp add: receive_sizes\<close>)
      show ?thesis
      proof (cases "os_alloc E (trace w2) (scast MAX_RECEIVE_BUFFER_SIZE)")
        case False
        have "(heap w2)(?b := None, Suc ?b := None) = heap w"
          using none by (intro ext) (simp add: w2)
        with False w1 w2 show ?thesis
          using receive_sizes(1) by (intro disjI1) (auto simp: Receive_buffers_def run_after run_malloc run_free
            run_throw intro!: exI [of _ "scast MAX_RECEIVE_BUFFER_SIZE"])
      next
        case True
        obtain w3 zs where w3: "run_state (malloc E (scast MAX_RECEIVE_BUFFER_SIZE)) w2 = (Inr (Ptr (Suc (Suc ?b)) 0), w3)"
          "length zs = 2048" "heap w3 = with_blocks w xs ys zs" "next_blk w3 = Suc (Suc (Suc ?b))"
          "world.more w3 = world.more w"
          by (rule malloc_ok [OF True]) (use w2 in \<open>simp add: receive_sizes with_blocks_def\<close>)
        with w1 w2 xs show ?thesis
          by (intro disjI2 exI [of _ w3] exI [of _ xs] exI [of _ ys] exI [of _ zs])
             (simp add: Receive_buffers_def run_after run_give)
      qed
    qed
  qed
qed

lemma Receive_cases:
  assumes W: "wrappers w obj = Some W" and mem: "wf_mem w" and doc: "recvmsg_documented E"
  shows "(\<exists>msg w' h n. run_state (Receive E js obj [JFunction f]) w = (Inl (JS_Error msg), w') \<and> heap w' = heap w \<and>
       world.more w' = world.more w \<and> (unat n \<le> 2048 \<and> \<not> os_alloc E h n \<or> fst (os_recvmsg E h (socket_descriptor (wsocket W))
          (recv_hdr E h MAX_RECEIVE_BUFFER_SIZE) 0) = -1)) \<or>
    (\<exists>h frame sender ys zs w1. os_recvmsg E h (socket_descriptor (wsocket W))
         (recv_hdr E h MAX_RECEIVE_BUFFER_SIZE) 0 = (of_nat (length frame), frame, sender) \<and>
       length frame \<le> 2062 \<and>
       heap w1 = with_blocks w (take 6 (overwrite (replicate 8 0) sender)) ys zs \<and>
       length ys = 6 \<and> take (min 6 (length frame)) ys = take 6 frame \<and>
       length zs = 2048 \<and> take (length frame - 14) zs = drop 14 frame \<and>
       next_blk w1 = Suc (Suc (Suc (next_blk w))) \<and> world.more w1 = world.more w \<and>
       run_state (Receive E js obj [JFunction f]) w =
       run_state (Receive_deliver E js f
         (Ptr (next_blk w) 0, Ptr (Suc (next_blk w)) 0, Ptr (Suc (Suc (next_blk w))) 0)
         (of_nat (length frame) - 14)) w1)"
  using Receive_buffers_cases [OF mem, of E]
proof (elim disjE exE conjE, goal_cases)
  case (1 msg w' h n)
  with W show ?case
    by (intro disjI1 exI [of _ msg] exI [of _ w'] exI [of _ h] exI [of _ n])
       (simp add: Receive_eq arg_def run_after run_unwrap)
next
  case (2 w1 xs ys zs)
  let ?a = "next_blk w" and ?b = "Suc (next_blk w)" and ?c = "Suc (Suc (next_blk w))"
  let ?s = "wsocket W"
  have rr: "recv_ready w1 ?a ?b ?c MAX_RECEIVE_BUFFER_SIZE zs"
    using 2 receive_sizes(2) by (simp add: recv_ready_def with_blocks_def ETHER_ADDR_LEN_def sint32_nonneg)
  have small: "14 + unat MAX_RECEIVE_BUFFER_SIZE < 2 ^ 31" by (simp add: receive_sizes)
  obtain ret frame sender where os: "os_recvmsg E (trace w1) (socket_descriptor ?s)
      (recv_hdr E (trace w1) MAX_RECEIVE_BUFFER_SIZE) 0 = (ret, frame, sender)" by (metis prod_cases3)
  obtain r w2 where run: "run_state (receive_message E ?s (Ptr ?a 0) (Ptr ?b 0) (Ptr ?c 0)
      MAX_RECEIVE_BUFFER_SIZE) w1 = (r, w2)" by fastforce
  note cases = receive_message_cases [OF doc rr small os run]
  have none: "heap w ?a = None" "heap w ?b = None" "heap w ?c = None"
    using mem by (simp_all add: wf_mem_def)
  show ?case
  proof (cases "ret = -1")
    case True
    then obtain msg where r: "r = Inl (Runtime_error msg)" and hp: "heap w2 = heap w1" using cases by simp
    have "(heap w2)(?b := None, ?a := None, ?c := None) = heap w"
      using none 2(2) hp by (intro ext) (simp add: with_blocks_def)
    moreover have "world.more w2 = world.more w"
      using keepsD [OF receive_message_quiet run] 2 by (simp add: adds_def)
    ultimately show ?thesis using 2 W r run hp os True
      by (intro disjI1 exI [of _ msg] exI [of _ "snd (run_state (Receive E js obj [JFunction f]) w)"]
            exI [of _ "trace w1"]) (auto simp: Receive_eq arg_def run_after run_unwrap run_catch_std run_free run_throw with_blocks_def)
  next
    case False
    with cases have r: "r = Inr (of_nat (length frame) - 14)" and fl: "length frame \<le> 2062"
      and hp: "heap w2 = (heap w1)(?a \<mapsto> take 6 (overwrite (replicate 8 0) sender),
          ?b \<mapsto> take 6 (overwrite (indet E (trace w1) 14) frame), ?c \<mapsto> overwrite zs (drop 14 frame))"
      by (simp_all add: receive_sizes)
    have ret: "ret = of_nat (length frame)"
      using doc os False unfolding recvmsg_documented_def by (metis (mono_tags, lifting) prod.case)
    have "quiet w1 w2" by (rule keepsD [OF receive_message_quiet run])
    then have more: "world.more w2 = world.more w" using 2 by (simp add: adds_def)
    have blk: "next_blk w2 = next_blk w1" by (rule keepsD [OF receive_message_blk run])
    have "heap w2 = with_blocks w (take 6 (overwrite (replicate 8 0) sender))
        (take 6 (overwrite (indet E (trace w1) 14) frame)) (overwrite zs (drop 14 frame))"
      by (intro ext) (simp add: hp 2 with_blocks_def)
    moreover have "take (min 6 (length frame)) (take 6 (overwrite (indet E (trace w1) 14) frame)) = take 6 frame"
      by (simp add: take_overwrite min_def)
    moreover have "take (length frame - 14) (overwrite zs (drop 14 frame)) = drop 14 frame"
      using 2 fl by (simp add: take_overwrite)
    ultimately show ?thesis
      using os ret fl more blk 2 W r run
      by (intro disjI2 exI [of _ "trace w1"] exI [of _ frame] exI [of _ sender] exI [of _ w2]
            exI [of _ "take 6 (overwrite (indet E (trace w1) 14) frame)"]
            exI [of _ "overwrite zs (drop 14 frame)"])
         (simp add: Receive_eq arg_def run_after run_unwrap run_catch_std)
  qed
qed


lemma run_new_buffer:
  "run_state (new_buffer E p n) w =
     (Inr (if nan_new_buffer E (trace w) p n then Some (JBuffer p (unat n)) else None),
      w\<lparr>trace := trace w @ [Ev_new_buffer p n (nan_new_buffer E (trace w) p n)]\<rparr>)"
  by (simp add: new_buffer_def run_after run_syscall run_give)

text \<open>The three buffers and the call, once the message block is \<open>q\<close>\<close>

lemma run_Receive_deliver:
  assumes "run_state (realloc E m (scast n)) w = (Inr t, w1)" and "\<And>h p k. nan_new_buffer E h p k"
    and "q = (if t \<noteq> NULL then t else m)"
  shows "run_state (Receive_deliver E js f (a, b, m) n) w =
    run_state (after (call_js js f [JBuffer a 6, JBuffer b 6, JBuffer q (unat n)]) (\<lambda>_. give JUndefined))
      (w1\<lparr>trace := trace w1 @ [Ev_new_buffer a 6 True, Ev_new_buffer b 6 True, Ev_new_buffer q n True]\<rparr>)"
  using assms
  by (simp add: Receive_deliver_def run_after run_new_buffer Let_def ETHER_ADDR_LEN_def)

lemma small_of_nat: "k < 2 ^ 31 \<Longrightarrow> unat (of_nat k :: i32) = k \<and> unat (scast (of_nat k :: i32) :: u64) = k"
  by (simp add: unat_scast_nonneg unsigned_of_nat take_bit_nat_eq_self)

text \<open>A \<open>realloc\<close> that does not grow the block keeps its start, moved or not.\<close>

lemma realloc_keeps_prefix:
  assumes "heap w c = Some zs" and "unat n \<le> length zs" and "0 < unat n"
  obtains t w' c' buf where "run_state (realloc E (Ptr c 0) n) w = (Inr t, w')"
    "Ptr c' 0 = (if t \<noteq> NULL then t else Ptr c 0)" "c' = c \<or> c' = next_blk w"
    "heap w' = (heap w)(c := None, c' \<mapsto> buf)" "take (unat n) buf = take (unat n) zs"
proof (cases "os_alloc E (trace w) n")
  case True
  have "n \<noteq> 0" "overwrite (indet E (trace w) (unat n)) zs = take (unat n) zs"
    using assms(2,3) by (auto simp: overwrite_def)
  with True assms that [of "Ptr (next_blk w) 0" _ "next_blk w" "overwrite (indet E (trace w) (unat n)) zs"]
  show thesis by (simp add: realloc_def)
next
  case False
  have "n \<noteq> 0" using assms(3) by auto
  with False assms that [of NULL _ c zs] show thesis
    by (simp add: realloc_def fun_upd_idem)
qed

text \<open>The same, whatever \<open>NewBuffer\<close> answers to the three calls\<close>

lemma run_Receive_deliver_any:
  assumes "run_state (realloc E m (scast n)) w = (Inr t, w1)" and "q = (if t \<noteq> NULL then t else m)"
  obtains x y z where
    "run_state (Receive_deliver E js f (a, b, m) n) w = (if x \<and> y \<and> z
      then run_state (after (call_js js f [JBuffer a 6, JBuffer b 6, JBuffer q (unat n)]) (\<lambda>_. give JUndefined))
         (w1\<lparr>trace := trace w1 @ [Ev_new_buffer a 6 x, Ev_new_buffer b 6 y, Ev_new_buffer q n z]\<rparr>)
      else (Inl (JS_Error ''Failed to create buffer object''),
         w1\<lparr>trace := trace w1 @ [Ev_new_buffer a 6 x, Ev_new_buffer b 6 y, Ev_new_buffer q n z]\<rparr>))"
    "x \<and> y \<and> z \<or> (\<exists>h p k. \<not> nan_new_buffer E h p k)"
proof -
  let ?x = "nan_new_buffer E (trace w1) a 6"
  let ?y = "nan_new_buffer E (trace w1 @ [Ev_new_buffer a 6 ?x]) b 6"
  let ?z = "nan_new_buffer E (trace w1 @ [Ev_new_buffer a 6 ?x, Ev_new_buffer b 6 ?y]) q n"
  show thesis
    by (rule that [of ?x ?y ?z])
      (use assms in \<open>auto simp: Receive_deliver_def run_after run_new_buffer Let_def ETHER_ADDR_LEN_def run_throw\<close>)
qed

text \<open>What \<open>Receive\<close> comes to, for frames with a payload\<close>

lemma Receive_outcomes:
  assumes W: "wrappers w obj = Some W" and mem: "wf_mem w" and doc: "recvmsg_documented E"
    and payload: "\<And>h. fst (os_recvmsg E h (socket_descriptor (wsocket W)) (recv_hdr E h MAX_RECEIVE_BUFFER_SIZE) 0) \<noteq> -1 \<longrightarrow>
      14 < length (fst (snd (os_recvmsg E h (socket_descriptor (wsocket W)) (recv_hdr E h MAX_RECEIVE_BUFFER_SIZE) 0)))"
  shows "(\<exists>msg w' h n. run_state (Receive E js obj [JFunction f]) w = (Inl (JS_Error msg), w') \<and> heap w' = heap w \<and>
       world.more w' = world.more w \<and> (unat n \<le> 2048 \<and> \<not> os_alloc E h n \<or> fst (os_recvmsg E h (socket_descriptor (wsocket W))
          (recv_hdr E h MAX_RECEIVE_BUFFER_SIZE) 0) = -1)) \<or>
    (\<exists>h frame sender a b c buf w1. os_recvmsg E h (socket_descriptor (wsocket W))
         (recv_hdr E h MAX_RECEIVE_BUFFER_SIZE) 0 = (of_nat (length frame), frame, sender) \<and>
       14 < length frame \<and> length frame \<le> 2062 \<and>
       {a, b, c} \<inter> dom (heap w) = {} \<and> distinct [a, b, c] \<and>
       heap w1 = (heap w)(a \<mapsto> take 6 (overwrite (replicate 8 0) sender), b \<mapsto> take 6 frame, c \<mapsto> buf) \<and>
       take (length frame - 14) buf = drop 14 frame \<and> world.more w1 = world.more w \<and>
       ((\<exists>h p k. \<not> nan_new_buffer E h p k) \<and>
          run_state (Receive E js obj [JFunction f]) w = (Inl (JS_Error ''Failed to create buffer object''), w1) \<or>
        run_state (Receive E js obj [JFunction f]) w =
        run_state (after (call_js js f [JBuffer (Ptr a 0) 6, JBuffer (Ptr b 0) 6,
          JBuffer (Ptr c 0) (length frame - 14)]) (\<lambda>_. give JUndefined)) w1))"
proof (rule disjE [OF Receive_cases [OF W mem doc, of js f]], erule disjI1, elim exE conjE, goal_cases)
  case (1 h frame sender ys zs w1)
  let ?k = "length frame - 14" and ?c = "Suc (Suc (next_blk w))"
  have k: "14 < length frame"
    using payload [of h] 1(1) 1(2) small_not_minus_one [of "length frame"] by simp
  then have n: "(of_nat (length frame) - 14 :: i32) = of_nat ?k" by (simp add: of_nat_diff)
  have u: "unat (of_nat ?k :: i32) = ?k" "unat (scast (of_nat ?k :: i32) :: u64) = ?k"
    using small_of_nat [of ?k] 1(2) by simp_all
  have ys: "ys = take 6 frame" using 1(4,5) k by simp
  define sz :: u64 where "sz = scast (of_nat ?k :: i32)"
  have "heap w1 ?c = Some zs" "unat sz \<le> length zs" "0 < unat sz"
    using 1(2,6) k u(2) by (simp_all add: 1(3) with_blocks_def sz_def)
  then obtain t w2 c buf where r: "run_state (realloc E (Ptr ?c 0) sz) w1 = (Inr t, w2)"
    and c: "Ptr c 0 = (if t \<noteq> NULL then t else Ptr ?c 0)" "c = ?c \<or> c = next_blk w1"
    and hp: "heap w2 = (heap w1)(?c := None, c \<mapsto> buf)" and pre: "take (unat sz) buf = take (unat sz) zs"
    by (rule realloc_keeps_prefix)
  have buf: "take ?k buf = drop 14 frame" and c: "Ptr c 0 = (if t \<noteq> NULL then t else Ptr ?c 0)" "c = ?c \<or> c = Suc ?c"
    using pre c 1(7,8) u(2) by (simp_all add: sz_def)
  obtain x y z where run: "run_state (Receive_deliver E js f (Ptr (next_blk w) 0, Ptr (Suc (next_blk w)) 0, Ptr ?c 0) (of_nat ?k)) w1 =
      (if x \<and> y \<and> z
      then run_state (after (call_js js f [JBuffer (Ptr (next_blk w) 0) 6, JBuffer (Ptr (Suc (next_blk w)) 0) 6,
           JBuffer (Ptr c 0) (unat (of_nat ?k :: i32))]) (\<lambda>_. give JUndefined))
         (w2\<lparr>trace := trace w2 @ [Ev_new_buffer (Ptr (next_blk w) 0) 6 x, Ev_new_buffer (Ptr (Suc (next_blk w)) 0) 6 y,
            Ev_new_buffer (Ptr c 0) (of_nat ?k) z]\<rparr>)
      else (Inl (JS_Error ''Failed to create buffer object''),
         w2\<lparr>trace := trace w2 @ [Ev_new_buffer (Ptr (next_blk w) 0) 6 x, Ev_new_buffer (Ptr (Suc (next_blk w)) 0) 6 y,
            Ev_new_buffer (Ptr c 0) (of_nat ?k) z]\<rparr>))"
    and refused: "x \<and> y \<and> z \<or> (\<exists>h p k. \<not> nan_new_buffer E h p k)"
    by (rule run_Receive_deliver_any [where js = js and f = f and a = "Ptr (next_blk w) 0" and b = "Ptr (Suc (next_blk w)) 0",
      OF r [unfolded sz_def] c(1)])
  define w3 where "w3 = w2\<lparr>trace := trace w2 @ [Ev_new_buffer (Ptr (next_blk w) 0) 6 x,
      Ev_new_buffer (Ptr (Suc (next_blk w)) 0) 6 y, Ev_new_buffer (Ptr c 0) (of_nat ?k) z]\<rparr>"
  have "(\<exists>h p k. \<not> nan_new_buffer E h p k) \<and>
       run_state (Receive E js obj [JFunction f]) w = (Inl (JS_Error ''Failed to create buffer object''), w3) \<or>
     run_state (Receive E js obj [JFunction f]) w =
      run_state (after (call_js js f [JBuffer (Ptr (next_blk w) 0) 6, JBuffer (Ptr (Suc (next_blk w)) 0) 6,
        JBuffer (Ptr c 0) ?k]) (\<lambda>_. give JUndefined)) w3"
    using refused unfolding 1(10) n run u(1) w3_def [symmetric] by (elim disjE) (simp_all split: if_split)
  moreover have "heap w3 = (heap w)(next_blk w \<mapsto> take 6 (overwrite (replicate 8 0) sender),
      Suc (next_blk w) \<mapsto> take 6 frame, c \<mapsto> buf)"
  proof -
    have "heap w ?c = None" using mem by (simp add: wf_mem_def)
    with c(2) show ?thesis by (intro ext) (auto simp: w3_def hp 1(3) with_blocks_def ys)
  qed
  moreover have "{next_blk w, Suc (next_blk w), c} \<inter> dom (heap w) = {} \<and> distinct [next_blk w, Suc (next_blk w), c]"
    using c(2) mem by (auto simp: wf_mem_def)
  moreover have "world.more w3 = world.more w"
  proof -
    have "quiet w1 w2" by (rule keepsD [OF keeps_realloc r]) simp_all
    then show ?thesis using 1(9) by (simp add: adds_def w3_def)
  qed
  ultimately show ?case
    using 1(1,2) buf k
    by (intro disjI2 exI [of _ h] exI [of _ frame] exI [of _ sender] exI [of _ "next_blk w"]
          exI [of _ "Suc (next_blk w)"] exI [of _ c] exI [of _ buf] exI [of _ w3]) (intro conjI; (assumption | simp))
qed

text \<open>
  C9. \<open>Receive\<close>, when the frames that \<open>recvmsg\<close> delivers are longer than the Ethernet header, ends in
  one of three ways.  It throws a JavaScript error because an allocation or \<open>recvmsg\<close> failed, and then has
  released all it allocated.  Or it has stored the sender's address, the destination of the frame
  and the payload in three blocks that were not live before, no other memory changed, and it calls the
  callback with three Buffers over them.  Or, with the blocks stored so, \<open>NewBuffer\<close> refused one of them
  and it throws the error for that; the blocks are not released.
\<close>

theorem Receive_effect:
  assumes W: "wrappers w obj = Some W" and mem: "wf_mem w" and doc: "recvmsg_documented E"
    and payload: "\<And>h. fst (os_recvmsg E h (socket_descriptor (wsocket W)) (recv_hdr E h MAX_RECEIVE_BUFFER_SIZE) 0) \<noteq> -1 \<longrightarrow>
      14 < length (fst (snd (os_recvmsg E h (socket_descriptor (wsocket W)) (recv_hdr E h MAX_RECEIVE_BUFFER_SIZE) 0)))"
  shows "(\<exists>msg w' h n. run_state (Receive E js obj [JFunction f]) w = (Inl (JS_Error msg), w') \<and> heap w' = heap w \<and>
       (unat n \<le> 2048 \<and> \<not> os_alloc E h n \<or> fst (os_recvmsg E h (socket_descriptor (wsocket W))
          (recv_hdr E h MAX_RECEIVE_BUFFER_SIZE) 0) = -1)) \<or>
    (\<exists>h frame sender a b c buf w1. os_recvmsg E h (socket_descriptor (wsocket W))
         (recv_hdr E h MAX_RECEIVE_BUFFER_SIZE) 0 = (of_nat (length frame), frame, sender) \<and> 14 < length frame \<and>
       {a, b, c} \<inter> dom (heap w) = {} \<and> distinct [a, b, c] \<and>
       heap w1 = (heap w)(a \<mapsto> take 6 (overwrite (replicate 8 0) sender), b \<mapsto> take 6 frame, c \<mapsto> buf) \<and>
       take (length frame - 14) buf = drop 14 frame \<and>
       ((\<exists>h p k. \<not> nan_new_buffer E h p k) \<and>
          run_state (Receive E js obj [JFunction f]) w = (Inl (JS_Error ''Failed to create buffer object''), w1) \<or>
        run_state (Receive E js obj [JFunction f]) w =
        run_state (after (call_js js f [JBuffer (Ptr a 0) 6, JBuffer (Ptr b 0) 6,
          JBuffer (Ptr c 0) (length frame - 14)]) (\<lambda>_. give JUndefined)) w1))"
  by (rule disjE [OF Receive_outcomes [OF assms, of js f]])
     ((rule disjI1, elim exE conjE, intro exI conjI; assumption) | (rule disjI2, elim exE conjE, intro exI conjI; assumption))+

text \<open>
  C26. A frame with no payload, 14 bytes long, makes \<open>realloc(message_buffer, 0)\<close> free the block and
  return null; the old pointer is kept, and the Buffer handed to JavaScript is built over the freed
  block, which its collection frees again.
\<close>

theorem Receive_empty_payload:
  assumes W: "wrappers w obj = Some W" and mem: "wf_mem w" and doc: "recvmsg_documented E"
    and nan: "\<And>h p k. nan_new_buffer E h p k" and alloc: "\<And>h n. unat n \<le> 2048 \<Longrightarrow> os_alloc E h n"
    and header: "\<And>h. fst (os_recvmsg E h (socket_descriptor (wsocket W)) (recv_hdr E h MAX_RECEIVE_BUFFER_SIZE) 0) \<noteq> -1"
      "\<And>h. length (fst (snd (os_recvmsg E h (socket_descriptor (wsocket W)) (recv_hdr E h MAX_RECEIVE_BUFFER_SIZE) 0))) = 14"
  shows "\<exists>a b c w1. run_state (Receive E js obj [JFunction f]) w =
      run_state (after (call_js js f [JBuffer a 6, JBuffer b 6, JBuffer (Ptr c 0) 0]) (\<lambda>_. give JUndefined)) w1 \<and>
    Ev_new_buffer (Ptr c 0) 0 True \<in> set (trace w1) \<and> heap w1 c = None \<and>
    fst (run_state (free (Ptr c 0)) w1) = Inl (Undefined Bad_free)"
  using Receive_cases [OF W mem doc, of js f]
proof (elim disjE exE conjE, goal_cases)
  case (1 msg w' h n) then show ?case using alloc by blast
next
  case (2 msg w' h n) then show ?case using header(1) by blast
next
  case (3 h frame sender ys zs w1)
  let ?c = "Suc (Suc (next_blk w))"
  have n: "(of_nat (length frame) - 14 :: i32) = 0"
    using header(2) [of h] 3(1) by simp
  have r: "run_state (realloc E (Ptr ?c 0) (scast (0 :: i32))) w1 =
      (Inr NULL, w1\<lparr>trace := trace w1 @ [Ev_realloc (Ptr ?c 0) 0 NULL], heap := (heap w1)(?c := None)\<rparr>)"
    using 3(3) by (simp add: realloc_def with_blocks_def)
  define w2 where "w2 = w1\<lparr>trace := trace w1 @ [Ev_realloc (Ptr ?c 0) 0 NULL], heap := (heap w1)(?c := None)\<rparr>"
  define w3 where "w3 = w2\<lparr>trace := trace w2 @ [Ev_new_buffer (Ptr (next_blk w) 0) 6 True,
      Ev_new_buffer (Ptr (Suc (next_blk w)) 0) 6 True, Ev_new_buffer (Ptr ?c 0) 0 True]\<rparr>"
  have "run_state (Receive E js obj [JFunction f]) w = run_state (after (call_js js f
      [JBuffer (Ptr (next_blk w) 0) 6, JBuffer (Ptr (Suc (next_blk w)) 0) 6, JBuffer (Ptr ?c 0) 0])
      (\<lambda>_. give JUndefined)) w3"
    unfolding 3(10) n w3_def by (subst run_Receive_deliver [OF r [folded w2_def] nan refl]) simp
  moreover have "heap w3 ?c = None" "Ev_new_buffer (Ptr ?c 0) 0 True \<in> set (trace w3)"
    by (simp_all add: w3_def w2_def)
  ultimately show ?case by (intro exI conjI) (assumption | simp add: run_free)+
qed

lemma short_length:
  assumes "k < 14"
  shows "unat (of_nat k - 14 :: i32) = 2 ^ 32 - (14 - k)"
    and "unat (scast (of_nat k - 14 :: i32) :: u64) = 2 ^ 64 - (14 - k)"
proof -
  have neg: "(int k - 14) mod 2 ^ m = 2 ^ m - (14 - int k)" if "(4 :: nat) \<le> m" for m
  proof -
    have "(2 :: int) ^ 4 \<le> 2 ^ m" using that by (intro power_increasing) simp_all
    then have "(int k - 14 + 2 ^ m) mod 2 ^ m = 2 ^ m - (14 - int k)"
      using assms by (subst mod_pos_pos_trivial) simp_all
    then show ?thesis by simp
  qed
  have lift: "unat y = 2 ^ m - (14 - k)" if "uint (y :: 'l::len word) = 2 ^ m - (14 - int k)" "4 \<le> m" for y m
  proof -
    have "(2 :: nat) ^ 4 \<le> 2 ^ m" using that(2) by (intro power_increasing) simp_all
    then have "int (2 ^ m - (14 - k)) = 2 ^ m - (14 - int k)" using assms by (simp add: of_nat_diff)
    with that(1) have "int (unat y) = int (2 ^ m - (14 - k))" by simp
    then show ?thesis by (simp only: of_nat_eq_iff)
  qed
  have "uint (word_of_int (int k - 14) :: i32) = 2 ^ 32 - (14 - int k)"
    using neg [of 32] by (simp only: uint_word_of_int take_bit_eq_mod) simp
  then show "unat (of_nat k - 14 :: i32) = 2 ^ 32 - (14 - k)"
    by (intro lift) simp_all
  have "(scast (of_nat k - 14 :: i32) :: u64) = word_of_int (int k - 14)"
  proof -
    have "sint (of_nat k - 14 :: i32) = int k - 14" using assms by (intro sint_length_minus_14) simp
    then show ?thesis by (simp only: scast_eq)
  qed
  moreover have "uint (word_of_int (int k - 14) :: u64) = 2 ^ 64 - (14 - int k)"
    using neg [of 64] by (simp only: uint_word_of_int take_bit_eq_mod) simp
  ultimately show "unat (scast (of_nat k - 14 :: i32) :: u64) = 2 ^ 64 - (14 - k)"
    by (intro lift) simp_all
qed

text \<open>
  C27. A frame shorter than the Ethernet header, which nothing rejects, makes the length negative:
  \<open>Receive\<close> asks \<open>NewBuffer\<close> for a Buffer whose length, read as unsigned, is less than 14 bytes below
  4 GB, over a block of 2048.  It depends on \<open>NewBuffer\<close> alone what follows: a JavaScript error when it
  refuses, and when it agrees a callback that is handed this Buffer.
\<close>

theorem Receive_short_frame:
  assumes W: "wrappers w obj = Some W" and mem: "wf_mem w" and doc: "recvmsg_documented E"
    and alloc: "\<And>h n. os_alloc E h n \<longleftrightarrow> unat n < 2 ^ 47"
    and short: "\<And>h. fst (os_recvmsg E h (socket_descriptor (wsocket W)) (recv_hdr E h MAX_RECEIVE_BUFFER_SIZE) 0) \<noteq> -1"
      "\<And>h. length (fst (snd (os_recvmsg E h (socket_descriptor (wsocket W)) (recv_hdr E h MAX_RECEIVE_BUFFER_SIZE) 0))) = k" "k < 14"
  shows "\<exists>a b c n ok zs w1. last (trace w1) = Ev_new_buffer (Ptr c 0) n ok \<and> unat n = 2 ^ 32 - (14 - k) \<and>
    heap w1 c = Some zs \<and> length zs = 2048 \<and>
    ((\<exists>h p k. \<not> nan_new_buffer E h p k) \<and>
       run_state (Receive E js obj [JFunction f]) w = (Inl (JS_Error ''Failed to create buffer object''), w1) \<or>
     ok \<and> run_state (Receive E js obj [JFunction f]) w =
      run_state (after (call_js js f [JBuffer a 6, JBuffer b 6, JBuffer (Ptr c 0) (unat n)]) (\<lambda>_. give JUndefined)) w1)"
  using Receive_cases [OF W mem doc, of js f]
proof (elim disjE exE conjE, goal_cases)
  case (1 msg w' h n)
  then show ?case using alloc [of h n] by simp
next
  case (2 msg w' h n) then show ?case using short(1) by blast
next
  case (3 h frame sender ys zs w1)
  let ?c = "Suc (Suc (next_blk w))" and ?n = "of_nat k - 14 :: i32"
  have k: "length frame = k" using short(2) [of h] 3(1) by simp
  have un: "unat ?n = 2 ^ 32 - (14 - k)" by (rule short_length(1) [OF short(3)])
  have big: "\<not> unat (scast ?n :: u64) < 2 ^ 47" using short_length(2) [OF short(3)] by simp
  then have "(scast ?n :: u64) \<noteq> 0" by auto
  with big have r: "run_state (realloc E (Ptr ?c 0) (scast ?n)) w1 =
      (Inr NULL, w1\<lparr>trace := trace w1 @ [Ev_realloc (Ptr ?c 0) (scast ?n) NULL]\<rparr>)"
    using 3(3) alloc by (simp add: realloc_def with_blocks_def)
  define w2 where "w2 = w1\<lparr>trace := trace w1 @ [Ev_realloc (Ptr ?c 0) (scast ?n) NULL]\<rparr>"
  have q: "Ptr ?c 0 = (if NULL \<noteq> NULL then NULL else Ptr ?c 0)" by simp
  obtain x y z where run: "run_state (Receive_deliver E js f (Ptr (next_blk w) 0, Ptr (Suc (next_blk w)) 0, Ptr ?c 0) ?n) w1 =
      (if x \<and> y \<and> z
      then run_state (after (call_js js f [JBuffer (Ptr (next_blk w) 0) 6, JBuffer (Ptr (Suc (next_blk w)) 0) 6,
           JBuffer (Ptr ?c 0) (unat ?n)]) (\<lambda>_. give JUndefined))
         (w2\<lparr>trace := trace w2 @ [Ev_new_buffer (Ptr (next_blk w) 0) 6 x, Ev_new_buffer (Ptr (Suc (next_blk w)) 0) 6 y,
            Ev_new_buffer (Ptr ?c 0) ?n z]\<rparr>)
      else (Inl (JS_Error ''Failed to create buffer object''),
         w2\<lparr>trace := trace w2 @ [Ev_new_buffer (Ptr (next_blk w) 0) 6 x, Ev_new_buffer (Ptr (Suc (next_blk w)) 0) 6 y,
            Ev_new_buffer (Ptr ?c 0) ?n z]\<rparr>))"
    and refused: "x \<and> y \<and> z \<or> (\<exists>h p k. \<not> nan_new_buffer E h p k)"
    by (rule run_Receive_deliver_any [where js = js and f = f and a = "Ptr (next_blk w) 0" and b = "Ptr (Suc (next_blk w)) 0",
      OF r [folded w2_def] q])
  define w3 where "w3 = w2\<lparr>trace := trace w2 @ [Ev_new_buffer (Ptr (next_blk w) 0) 6 x,
      Ev_new_buffer (Ptr (Suc (next_blk w)) 0) 6 y, Ev_new_buffer (Ptr ?c 0) ?n z]\<rparr>"
  have "last (trace w3) = Ev_new_buffer (Ptr ?c 0) ?n z" "heap w3 ?c = Some zs"
    by (simp_all add: w3_def w2_def 3(3) with_blocks_def)
  moreover have "(\<exists>h p k. \<not> nan_new_buffer E h p k) \<and>
       run_state (Receive E js obj [JFunction f]) w = (Inl (JS_Error ''Failed to create buffer object''), w3) \<or>
     z \<and> run_state (Receive E js obj [JFunction f]) w =
      run_state (after (call_js js f [JBuffer (Ptr (next_blk w) 0) 6, JBuffer (Ptr (Suc (next_blk w)) 0) 6,
        JBuffer (Ptr ?c 0) (unat ?n)]) (\<lambda>_. give JUndefined)) w3"
    using refused unfolding 3(10) k run w3_def [symmetric] by (elim disjE) (simp_all split: if_split)
  ultimately show ?case using un 3(6)
    by (intro exI [of _ "Ptr (next_blk w) 0"] exI [of _ "Ptr (Suc (next_blk w)) 0"] exI [of _ ?c] exI [of _ ?n] exI [of _ z]
        exI [of _ zs] exI [of _ w3] conjI) simp_all
qed

section \<open>Witnesses\<close>

text \<open>An object made by \<open>New\<close> in an empty world: the object at 0, its poller at 1, its handle at 2\<close>

definition sample_options :: js_value where
  "sample_options = JObject [(''device'', JString ''rfm0''), (''onRecv'', JFunction 1),
     (''onSend'', JFunction 2), (''onError'', JFunction 3)]"

definition empty_wrap_world :: wrap_world where
  "empty_wrap_world = poll_world.extend empty_poll_world \<lparr>wrappers = Map.empty\<rparr>"

definition sample_wrap_world :: wrap_world where
  "sample_wrap_world = snd (run_state (New sample_env True [sample_options]) empty_wrap_world)"

definition sample_wrapper :: wrapper where
  "sample_wrapper = new_wrapper 1 2 3 sample_socket 1"

definition js_idle :: "wrap_world js_call" where
  "js_idle f args = give JUndefined"

lemma empty_wrap_world_simps [simp]:
  "trace empty_wrap_world = []" "heap empty_wrap_world = Map.empty" "next_blk empty_wrap_world = 0"
  "pollers empty_wrap_world = Map.empty" "handles empty_wrap_world = Map.empty"
  "next_obj empty_wrap_world = 0" "wrappers empty_wrap_world = Map.empty"
  by (simp_all add: empty_wrap_world_def empty_poll_world_def poll_world.defs world.defs empty_world_def wrap_world.defs)

lemma sample_options_ok: "options_ok (arg [sample_options] 0) ''rfm0'' 1 2 3"
  by (simp add: options_ok_def arg_def sample_options_def get_property_def)

lemma sample_Socket_new:
  assumes "trace w = []"
  shows "\<exists>t. run_state (Socket_new sample_env ''rfm0'') w = (Inr sample_socket, w\<lparr>trace := t\<rparr>)"
  using assms
  by (simp add: Socket_new_def Socket_setup_def syscall_defs run_syscall run_simps strcpy_ifr_name_def
     sample_env_def sample_socket_def Let_def header_consts indet_def overwrite_def load32_def) blast

lemma sample_wrap:
  "run_state (New sample_env True [sample_options]) empty_wrap_world = (Inr (JWrapped 0), sample_wrap_world)"
  "wrappers sample_wrap_world = [0 \<mapsto> sample_wrapper]"
  "pollers sample_wrap_world = [1 \<mapsto> UvPoller (new_uv_poller 0 2)]"
  "heap sample_wrap_world = Map.empty"
  "next_blk sample_wrap_world = 0"
proof -
  have c: "c_str ''rfm0'' = ''rfm0''" by (simp add: c_str_def)
  obtain t where "run_state (Socket_new sample_env ''rfm0'') (empty_wrap_world\<lparr>next_obj := 1\<rparr>) =
     (Inr sample_socket, empty_wrap_world\<lparr>next_obj := 1, trace := t\<rparr>)"
    using sample_Socket_new [of "empty_wrap_world\<lparr>next_obj := 1\<rparr>"] by auto
  then have r: "run_state (New sample_env True [sample_options]) empty_wrap_world = (Inr (JWrapped 0),
      empty_wrap_world\<lparr>trace := t @ [Uv_poll_init 2 5, Uv_poll_start 2 UV_READABLE],
        pollers := [1 \<mapsto> UvPoller (new_uv_poller 0 2)], handles := [2 \<mapsto> 1], next_obj := 3,
        wrappers := [0 \<mapsto> sample_wrapper]\<rparr>)"
    by (simp add: run_New [OF sample_options_ok] run_catch_std run_after run_Wrapper_new [OF sample_options_ok] c
        run_give numeral_eq_Suc get_descriptor_def sample_socket_def sample_wrapper_def)
  then show "run_state (New sample_env True [sample_options]) empty_wrap_world = (Inr (JWrapped 0), sample_wrap_world)"
    by (simp add: sample_wrap_world_def)
  show "wrappers sample_wrap_world = [0 \<mapsto> sample_wrapper]"
    "pollers sample_wrap_world = [1 \<mapsto> UvPoller (new_uv_poller 0 2)]"
    "heap sample_wrap_world = Map.empty" "next_blk sample_wrap_world = 0"
    by (simp_all add: sample_wrap_world_def r)
qed

lemma sample_wrap_simps [simp]:
  "wrappers sample_wrap_world 0 = Some sample_wrapper" "wpoller sample_wrapper = 1"
  "wsocket sample_wrapper = sample_socket" "pollers sample_wrap_world 1 = Some (UvPoller (new_uv_poller 0 2))"
  "uv_poll (new_uv_poller 0 2) = 2" "get_descriptor sample_socket = 5" "onRecvCallback sample_wrapper = Some 1"
  by (simp_all add: sample_wrap sample_wrapper_def new_wrapper_def new_uv_poller_def get_descriptor_def sample_socket_def)

lemma js_idle_upholds: "upholds wrap_inv (js_idle f args)"
  by (simp add: js_idle_def upholds_give)

lemma sample_reach: "wrap_reach sample_env js_idle sample_wrap_world"
proof -
  have "wrap_step sample_env js_idle empty_wrap_world sample_wrap_world"
    by (rule wrap_step.construct [OF sample_wrap(1)]) simp
  then show ?thesis
    by (rule wrap_reach.step [rotated]) (rule wrap_reach.start, simp add: wrap_init_def)
qed

lemma sample_inv: "wrap_inv sample_wrap_world"
  by (rule wrap_reach_inv [OF js_idle_upholds sample_env_documented(1) sample_reach])

theorem reachable_wrappers_witness:
  "5 \<in> open_fds (trace sample_wrap_world) \<and> uv_legal (trace sample_wrap_world)"
  using reachable_wrappers [OF js_idle_upholds sample_env_documented(1) sample_reach]
  by (auto dest: spec [of _ 0])

theorem New_outcome_witness:
  "\<exists>p. pollers sample_wrap_world p \<noteq> None \<and> open_fds (trace sample_wrap_world) = {5}"
  using New_outcome [OF sample_env_documented(1) sample_options_ok _ sample_wrap(1)]
  by (auto simp: IFNAMSIZ_def c_str_def sample_wrap(2) sample_wrapper_def new_wrapper_def
      get_descriptor_def sample_socket_def fun_upd_def fun_eq_iff split: if_splits)

theorem Send_checks_arguments_witness:
  "fst (run_state (Send sample_env js_idle 0 []) sample_wrap_world) = Inl (JS_Error ''Three arguments required'')"
  using Send_checks_arguments [of sample_wrap_world 0 sample_wrapper "[]" sample_env js_idle] by auto

text \<open>The same object with the operands of \<open>Send\<close> in memory\<close>

definition sending_world :: wrap_world where
  "sending_world = sample_wrap_world\<lparr>heap := heap sample_world, next_blk := 5\<rparr>"

lemma sending_ready:
  "send_ready sample_env sending_world (wsocket sample_wrapper) (Ptr 0 0) (Ptr 1 0) (of_nat 2)
     [0xde, 0xad, 0, 0, 0xff, 0xff] [0x68, 0x69]"
  by (auto simp: send_ready_def wf_mem_def wf_socket_def ETHER_ADDR_LEN_def sample_defs sending_world_def
      sample_wrapper_def new_wrapper_def)

theorem Send_effect_witness:
  "\<exists>w1. trace w1 \<noteq> trace sending_world \<and>
     run_state (Send sample_env js_idle 0 [JBuffer (Ptr 1 0) 2, JBuffer (Ptr 0 0) 6, JFunction 9]) sending_world
     \<in> {(Inl (JS_Error ''error''), w1), (Inl (JS_Error ''Failed to send entire packet''), w1),
        run_state (after (call_js js_idle 9 [js_int 2]) (\<lambda>_. give JUndefined)) w1}"
proof -
  have "wrappers sending_world 0 = Some sample_wrapper" by (simp add: sending_world_def)
  from Send_effect [OF this _ sending_ready sample_env_documented(2), of js_idle 9] show ?thesis
  proof (elim exE conjE meta_impE, goal_cases)
    case (2 p frame ret w1)
    then show ?case
      by (intro exI [of _ w1]) (simp add: sample_env_def ETHER_ADDR_LEN_def del: One_nat_def)
  qed simp
qed

theorem membership_methods_witness:
  "\<exists>rc. trace (snd (run_state (AddMembership sample_env 0 [js_int 1]) sample_wrap_world)) =
     trace sample_wrap_world @ [Ev_setsockopt 5 SOL_PACKET 1 (membership_request sample_socket 1 []) 16 rc]"
  using membership_methods [of sample_wrap_world 0 sample_wrapper "js_int 1" "[]" 1 AddMembership
      ADD_MEMBERSHIP sample_env, OF _ _ _ prod.collapse [symmetric]]
  by (auto simp: PROMISCIOUS_def ADD_MEMBERSHIP_def sizeof_packet_mreq_def)

theorem membership_zero_undefined_witness:
  "run_state (AddMembership sample_env 0 [js_int 0]) sample_wrap_world = (Inl (Undefined Null_deref), sample_wrap_world)"
  by (rule membership_zero_undefined) simp_all

theorem Close_effect_witness:
  "\<exists>w'. run_state (Close 0) sample_wrap_world = (Inr JUndefined, w') \<and>
     open_fds (trace w') = open_fds (trace sample_wrap_world)"
  using Close_effect [OF sample_inv, of 0 sample_wrapper] by auto

lemma pause_resume_sample:
  "\<exists>w'. run_state (each (\<lambda>p. after (if p then PauseSending 0 else ResumeSending 0) (\<lambda>_. give ())) [True, False])
      sample_wrap_world = (Inr (), w') \<and> watching (trace w') 2 = Some 3"
  using pause_resume [OF sample_inv, of 0 sample_wrapper "new_uv_poller 0 2" "[True, False]"]
  by (auto simp: UV_READABLE_def UV_WRITABLE_def simp del: One_nat_def)

theorem collected_object_releases_witness:
  "\<exists>w'. run_state (Wrapper_delete sample_env 0) sample_wrap_world = (Inr (), w') \<and> 5 \<notin> open_fds (trace w')"
  using collected_object_releases [OF sample_inv, of 0 sample_wrapper sample_env] by auto

definition js_closing :: "wrap_world js_call" where
  "js_closing f args = Close 0"

theorem close_in_handler_undefined_witness:
  "fst (run_state (watcher_event sample_env js_closing 2 0 3) sample_wrap_world) = Inl (Undefined Use_after_free)"
  using close_in_handler_undefined [OF sample_inv, of 0 sample_wrapper "new_uv_poller 0 2" 1 js_closing 3 sample_env]
  by (simp add: js_closing_def UV_READABLE_def UV_WRITABLE_def del: One_nat_def)

text \<open>A kernel whose \<open>recvmsg\<close> delivers one frame when it fits, and an allocator with a limit\<close>

definition delivering :: "byte list \<Rightarrow> env" where
  "delivering frame = sample_env\<lparr>os_alloc := (\<lambda>h n. unat n < 2 ^ 47),
     os_recvmsg := (\<lambda>h fd m fl. if length frame \<le> sum_list (map unat (msg_iov_lens m))
        then (of_nat (length frame), frame, []) else (-1, frame, []))\<rparr>"

lemma delivering:
  "recvmsg_documented (delivering frame)" "nan_new_buffer (delivering frame) h p k"
  "os_alloc (delivering frame) h n \<longleftrightarrow> unat n < 2 ^ 47"
  "length (fst (snd (os_recvmsg (delivering frame) h fd m fl))) = length frame"
  by (auto simp: delivering_def recvmsg_documented_def sample_env_def)

lemma delivering_ok:
  assumes "length frame \<le> 2062"
  shows "fst (os_recvmsg (delivering frame) h fd (recv_hdr (delivering frame) h MAX_RECEIVE_BUFFER_SIZE) 0) \<noteq> -1"
proof -
  have "sum_list (map unat (msg_iov_lens (recv_hdr (delivering frame) h MAX_RECEIVE_BUFFER_SIZE))) = 2062"
    using recv_hdr_room [of MAX_RECEIVE_BUFFER_SIZE] receive_sizes by (simp add: sint32_nonneg)
  moreover have "(of_nat (length frame) :: i64) \<noteq> -1" using assms by (intro small_not_minus_one) simp
  ultimately show ?thesis using assms by (simp add: delivering_def)
qed

lemma sample_wf_mem: "wf_mem sample_wrap_world"
  by (simp add: wf_mem_def sample_wrap(4))

theorem Receive_effect_witness:
  "\<exists>a b c w1. run_state (Receive (delivering sample_frame) js_idle 0 [JFunction 9]) sample_wrap_world =
     run_state (after (call_js js_idle 9 [JBuffer (Ptr a 0) 6, JBuffer (Ptr b 0) 6, JBuffer (Ptr c 0) 2])
       (\<lambda>_. give JUndefined)) w1 \<and> heap w1 b = Some [0xde, 0xad, 0, 0, 0xff, 0xff]"
proof -
  have len: "length sample_frame = 16" by (simp add: sample_frame_def)
  note frame = delivering(4) [of sample_frame, unfolded len]
  from Receive_effect [of sample_wrap_world 0 sample_wrapper "delivering sample_frame" js_idle 9,
     OF _ sample_wf_mem delivering(1)]
  show ?thesis
  proof (elim disjE exE conjE meta_impE, goal_cases)
    case (3 msg w' h n)
    then show ?case by (simp add: delivering(3))
  next
    case (4 msg w' h n)
    moreover have "fst (os_recvmsg (delivering sample_frame) h (socket_descriptor sample_socket)
        (recv_hdr (delivering sample_frame) h MAX_RECEIVE_BUFFER_SIZE) 0) \<noteq> -1"
      by (rule delivering_ok) (simp add: len)
    ultimately show ?case by simp
  next
    case (5 h fr sender a b c buf w1 h' p k)
    then show ?case by (simp add: delivering(2))
  next
    case (6 h fr sender a b c buf w1)
    then have "fr = sample_frame" by (simp add: delivering_def split: if_splits)
    with 6 show ?case
      by (intro exI [of _ a] exI [of _ b] exI [of _ c] exI [of _ w1]) (simp add: len, simp add: sample_frame_def)
  qed (simp_all add: frame)
qed

theorem Receive_empty_payload_witness:
  "\<exists>a b c w1. run_state (Receive (delivering (take 14 sample_frame)) js_idle 0 [JFunction 9]) sample_wrap_world =
     run_state (after (call_js js_idle 9 [JBuffer a 6, JBuffer b 6, JBuffer (Ptr c 0) 0]) (\<lambda>_. give JUndefined)) w1 \<and>
     heap w1 c = None"
proof -
  have len: "length sample_frame = 16" by (simp add: sample_frame_def)
  from Receive_empty_payload [OF sample_wrap_simps(1) sample_wf_mem delivering(1,2), of "take 14 sample_frame" js_idle 9]
  show ?thesis using delivering_ok [of "take 14 sample_frame"] by (auto simp: len delivering(3,4))
qed

theorem Receive_short_frame_witness:
  "\<exists>a b c n zs w1. run_state (Receive (delivering (take 12 sample_frame)) js_idle 0 [JFunction 9]) sample_wrap_world =
     run_state (after (call_js js_idle 9 [JBuffer a 6, JBuffer b 6, JBuffer (Ptr c 0) (unat n)]) (\<lambda>_. give JUndefined)) w1 \<and>
     unat (n :: u32) = 4294967294 \<and> heap w1 c = Some zs \<and> length zs = 2048"
proof -
  have len: "length (take 12 sample_frame) = 12" by (simp add: sample_frame_def)
  have ok: "length (take 12 sample_frame) \<le> 2062" "length (take 12 sample_frame) < 14" by (simp_all add: len)
  from Receive_short_frame [OF sample_wrap_simps(1) sample_wf_mem delivering(1,3)
      delivering_ok [OF ok(1)] delivering(4) ok(2), of js_idle 9, unfolded len]
  show ?thesis
  proof (elim exE conjE disjE, goal_cases)
    case 1 then show ?case by (simp add: delivering(2))
  next
    case (2 a b c n ok zs w1)
    then show ?case
      by (intro exI [of _ a] exI [of _ b] exI [of _ c] exI [of _ n] exI [of _ zs] exI [of _ w1]) simp
  qed
qed

section \<open>What a user of the object sees\<close>

text \<open>
  Abstractly an object is closed, or open and then reporting writable or not; it is what the
  JavaScript side of the program drives.  \<open>conn_of\<close> reads this state off libuv's side of the model.
\<close>

datatype conn = Conn_closed | Conn_open bool

datatype conn_op = Op_close | Op_pause | Op_resume

fun conn_step :: "conn \<Rightarrow> conn_op \<Rightarrow> conn" where
  "conn_step c Op_close = Conn_closed"
| "conn_step Conn_closed _ = Conn_closed"
| "conn_step (Conn_open _) Op_pause = Conn_open False"
| "conn_step (Conn_open _) Op_resume = Conn_open True"

fun run_op :: "nat \<Rightarrow> conn_op \<Rightarrow> ('a wrap_world_scheme, unit) prog" where
  "run_op obj Op_close = after (Close obj) (\<lambda>_. give ())"
| "run_op obj Op_pause = after (PauseSending obj) (\<lambda>_. give ())"
| "run_op obj Op_resume = after (ResumeSending obj) (\<lambda>_. give ())"

definition conn_of :: "'a wrap_world_scheme \<Rightarrow> nat \<Rightarrow> conn option" where
  "conn_of w obj =
     (case wrappers w obj of
        None \<Rightarrow> None
      | Some W \<Rightarrow>
          (case pollers w (wpoller W) of
             None \<Rightarrow> None
           | Some NullPoller \<Rightarrow> Some Conn_closed
           | Some (UvPoller u) \<Rightarrow>
               (case watching (trace w) (uv_poll u) of
                  None \<Rightarrow> None
                | Some m \<Rightarrow> Some (Conn_open (m AND UV_WRITABLE \<noteq> 0)))))"

lemma writable_masks: "event_mask RW_EVENT AND UV_WRITABLE \<noteq> 0" "event_mask READ_EVENT AND UV_WRITABLE = 0"
  by (simp_all add: UV_READABLE_def UV_WRITABLE_def)

lemma run_op_conn:
  assumes inv: "wrap_inv w" and W: "wrappers w obj = Some W"
  shows "\<exists>w' W' c. run_state (run_op obj op) w = (Inr (), w') \<and> wrap_inv w' \<and> wrappers w' obj = Some W' \<and>
    wsocket W' = wsocket W \<and> open_fds (trace w') = open_fds (trace w) \<and>
    conn_of w obj = Some c \<and> conn_of w' obj = Some (conn_step c op)"
proof -
  have l: "wrap_links w" and pinv: "poll_inv w" using inv by (simp_all add: wrap_inv_def)
  have "pollers w (wpoller W) \<noteq> None" using wrap_linksD(1) [OF l W] by (simp add: wf_wrapper_def)
  then obtain x where x: "pollers w (wpoller W) = Some x" by blast
  define e where "e = (if op = Op_pause then READ_EVENT else RW_EVENT)"
  show ?thesis
  proof (cases "op = Op_close")
    case True
    have p: "pollers w (wpoller W) \<noteq> None" using x by simp
    note run = run_Close [OF W p]
    have "wrap_inv (snd (run_state (Close obj) w))" using upholdsD [OF Close_upholds run inv] by (simp add: run)
    moreover obtain c where "conn_of w obj = Some c"
      using x W poll_invD(1) [OF pinv] by (cases x) (auto simp: conn_of_def owns_handle_def)
    ultimately show ?thesis
      using True by (simp add: run_after run run_give conn_of_def open_fds_other uv_closing_other)
  next
    case False
    have step: "run_state (run_op obj op) w = (case run_state (set_events (wpoller W) e) w of
        (Inl y, w') \<Rightarrow> (Inl y, w') | (Inr _, w') \<Rightarrow> (Inr (), w'))"
      using False W by (cases op) (simp_all add: PauseSending_eq ResumeSending_eq run_after run_unwrap run_give e_def
          split: prod.splits sum.splits)
    show ?thesis
    proof (cases x)
      case NullPoller
      with x have run: "run_state (set_events (wpoller W) e) w = (Inr (), w)" by (simp add: run_set_events_null)
      moreover have "conn_of w obj = Some Conn_closed" using NullPoller x W by (simp add: conn_of_def)
      moreover have "conn_step Conn_closed op = Conn_closed" by (cases op) simp_all
      ultimately show ?thesis using inv W by (simp add: step del: run_op.simps)
    next
      case (UvPoller u)
      then have u: "pollers w (wpoller W) = Some (UvPoller u)" using x by simp
      from run_each_set_events [OF pinv u refl, of "[e]"] obtain w' where
        run1: "run_state (each (set_events (wpoller W)) [e]) w = (Inr (), w')"
        and w': "pollers w' = (pollers w)(wpoller W \<mapsto> UvPoller (u\<lparr>current_events := e\<rparr>))"
          "watching (trace w') = (watching (trace w))(uv_poll u \<mapsto> event_mask e)" by auto
      then have run: "run_state (set_events (wpoller W) e) w = (Inr (), w')"
        by (auto simp: run_after run_give split: prod.splits sum.splits)
      have ws: "wrappers w' = wrappers w" by (rule keepsD [OF set_events_wrappers run])
      have inv': "wrap_inv w'" using keepsD [OF set_events_keeps run] inv by blast
      have "open_fds (trace w') = open_fds (trace w)"
        using wrap_linksD(4) [of w] wrap_linksD(4) [of w'] inv inv' ws by (simp add: wrap_inv_def)
      moreover have "conn_of w obj = Some (Conn_open (event_mask (current_events u) AND UV_WRITABLE \<noteq> 0))"
        using W u poll_invD(1) [OF pinv u] by (simp add: conn_of_def owns_handle_def)
      moreover have "conn_of w' obj = Some (Conn_open (event_mask e AND UV_WRITABLE \<noteq> 0))"
        using W ws by (simp add: conn_of_def w')
      moreover have "conn_step (Conn_open b) op = Conn_open (event_mask e AND UV_WRITABLE \<noteq> 0)" for b
        using False writable_masks by (cases op) (simp_all add: e_def)
      ultimately show ?thesis using inv' ws W by (simp add: step run del: run_op.simps conn_step.simps)
    qed
  qed
qed

text \<open>
  C14. The object refines this state machine: after any sequence of \<open>Close\<close>, \<open>PauseSending\<close> and
  \<open>ResumeSending\<close>, all of which return, what libuv is asked to report is the state reached by the
  abstract steps; a closed object stays closed, and its descriptor stays open throughout.
\<close>

theorem conn_refinement:
  assumes "wrap_inv w" and "wrappers w obj \<noteq> None"
  shows "\<exists>w' c. run_state (each (run_op obj) ops) w = (Inr (), w') \<and> wrap_inv w' \<and>
    conn_of w obj = Some c \<and> conn_of w' obj = Some (foldl conn_step c ops) \<and>
    open_fds (trace w') = open_fds (trace w)"
  using assms
proof (induction ops arbitrary: w)
  case Nil
  then obtain W where "wrappers w obj = Some W" by blast
  from run_op_conn [OF Nil(1) this, of Op_pause] Nil(1) show ?case by (auto simp: run_give)
next
  case (Cons op ops)
  then obtain W where "wrappers w obj = Some W" by blast
  from run_op_conn [OF Cons.prems(1) this, of op] obtain w1 W1 c where
    1: "run_state (run_op obj op) w = (Inr (), w1)" "wrap_inv w1" "wrappers w1 obj = Some W1"
      "open_fds (trace w1) = open_fds (trace w)" "conn_of w obj = Some c" "conn_of w1 obj = Some (conn_step c op)"
    by blast
  have "wrappers w1 obj \<noteq> None" using 1(3) by simp
  from Cons.IH [OF 1(2) this] 1 show ?case by (auto simp: run_after)
qed

theorem conn_refinement_witness:
  "\<exists>w'. run_state (each (run_op 0) [Op_resume, Op_pause, Op_resume]) sample_wrap_world = (Inr (), w') \<and>
     conn_of w' 0 = Some (Conn_open True)"
proof -
  obtain c where c: "conn_of sample_wrap_world 0 = Some c" "c \<noteq> Conn_closed"
    using run_op_conn [OF sample_inv sample_wrap_simps(1), of Op_pause] 
    by (auto simp: conn_of_def split: option.splits poller.splits simp del: One_nat_def)
  then have "foldl conn_step c [Op_resume, Op_pause, Op_resume] = Conn_open True" by (cases c) simp_all
  with conn_refinement [OF sample_inv, of 0 "[Op_resume, Op_pause, Op_resume]"] c show ?thesis
    by (auto simp del: each.simps)
qed

end
