(* ===== verification/Js_Socket_Facts.thy ===== *)
theory Js_Socket_Facts
  imports Js_Socket Wrapper_Methods
begin

text \<open>
  What holds of the JavaScript side in every world it can reach.  First the text form of an address
  and its way back; then the invariant \<open>js_inv\<close>: on top of the one of the Node objects, every socket is
  served by its own Node object, and a queued request means that the poller waits for writability.
  Every method, handler and callback keeps it, for any user code that does; the steps of the event
  loop and the worlds they reach close the theory.
\<close>

section \<open>Addresses\<close>

lemma hex_char_code: "d < 16 \<Longrightarrow> of_char (hex_char d) = (if d < 10 then 48 + d else 87 + d)"
  by (simp add: hex_char_def)

lemma hex_char:
  assumes "d < 16"
  shows "hex_digit (hex_char d) = Some d" "\<not> is_space (hex_char d)" "hex_char d \<noteq> CHR '':''"
    "hex_char d \<noteq> CHR ''-''" "hex_char d \<noteq> CHR ''+''" "hex_char d \<noteq> CHR ''x''" "hex_char d \<noteq> CHR ''X''"
proof -
  note c = hex_char_code [OF assms]
  show "hex_digit (hex_char d) = Some d" "\<not> is_space (hex_char d)"
    using assms by (auto simp: hex_digit_def is_space_def c Let_def)
  have "hex_char d = x \<Longrightarrow> of_char x = (if d < 10 then 48 + d else 87 + d)" for x using c by simp
  from this [of "CHR '':''"] this [of "CHR ''-''"] this [of "CHR ''+''"] this [of "CHR ''x''"] this [of "CHR ''X''"]
  show "hex_char d \<noteq> CHR '':''" "hex_char d \<noteq> CHR ''-''" "hex_char d \<noteq> CHR ''+''" "hex_char d \<noteq> CHR ''x''"
    "hex_char d \<noteq> CHR ''X''"
    using assms by (auto split: if_splits)
qed

definition hex_pair :: "byte \<Rightarrow> string" where
  "hex_pair b = [hex_char (unat b div 16), hex_char (unat b mod 16)]"

lemma byte_less: "unat (b :: byte) < 256"
  by (rule order_less_le_trans [OF unsigned_less]) simp

lemma nibbles: "unat (b :: byte) div 16 < 16" "unat b mod 16 < 16"
  using byte_less [of b] by simp_all

lemma to_hex_simps [simp]: "to_hex [] = []" "to_hex (b # bs) = hex_pair b @ to_hex bs"
  by (simp_all add: to_hex_def hex_pair_def)

lemma length_to_hex [simp]: "length (to_hex bs) = 2 * length bs"
  by (induction bs) (simp_all add: hex_pair_def)

lemma insert_colons_to_hex:
  "insert_colons (to_hex (b # bs)) = (if bs = [] then hex_pair b else hex_pair b @ CHR '':'' # insert_colons (to_hex bs))"
  by (cases bs) (simp_all add: hex_pair_def)

lemma split_colon_append:
  "CHR '':'' \<notin> set p \<Longrightarrow> split_colon (p @ CHR '':'' # s) = p # split_colon s"
  by (induction p) auto

lemma split_colon_plain: "CHR '':'' \<notin> set p \<Longrightarrow> split_colon p = [p]"
  by (induction p) auto

lemma hex_pair_plain: "CHR '':'' \<notin> set (hex_pair b)"
  by (simp add: hex_pair_def hex_char(3) [OF nibbles(1)] hex_char(3) [OF nibbles(2)] not_sym)

lemma split_address: "bs \<noteq> [] \<Longrightarrow> split_colon (insert_colons (to_hex bs)) = map hex_pair bs"
proof (induction bs)
  case (Cons b bs)
  show ?case
  proof (cases "bs = []")
    case True
    then show ?thesis unfolding True insert_colons_to_hex by (simp add: split_colon_plain hex_pair_plain)
  next
    case False
    with Cons.IH show ?thesis unfolding insert_colons_to_hex by (simp add: split_colon_append hex_pair_plain)
  qed
qed simp

lemma parse_hex_pair: "parseInt16 (hex_pair b) = JFinite (int (unat b)) 0"
proof -
  note h = hex_char [OF nibbles(1) [of b]] and l = hex_char [OF nibbles(2) [of b]]
  have "16 * (unat b div 16) + unat b mod 16 = unat b" by simp
  moreover have "unat b < 2 ^ 53" using byte_less [of b] by simp
  ultimately show ?thesis
    by (simp add: parseInt16_def parse_hex_digits_def hex_pair_def h l double_of_nat_def Let_def)
qed

lemma octet_parsed: "octet X (JNumber (parseInt16 (hex_pair b))) = b"
  unfolding octet_def parse_hex_pair by (simp, rule bit_word_eqI) (auto simp: bit_simps)

lemma colon_in_address: "2 \<le> length bs \<Longrightarrow> CHR '':'' \<in> set (insert_colons (to_hex bs))"
  by (cases bs) (auto simp: insert_colons_to_hex simp del: to_hex_simps)

lemma address_text_parses:
  assumes "2 \<le> length bs"
  shows "run_state (addressToBuffer X (JString (insert_colons (to_hex bs)))) w =
     (Inr (JBuffer (Ptr (next_blk w) 0) (length bs)),
      w\<lparr>heap := (heap w)(next_blk w \<mapsto> bs), next_blk := Suc (next_blk w)\<rparr>)"
proof -
  have "bs \<noteq> []" using assms by auto
  then have "map (\<lambda>v. octet X (JNumber (parseInt16 v))) (split_colon (insert_colons (to_hex bs))) = bs"
    by (simp add: split_address octet_parsed comp_def)
  then show ?thesis
    by (simp add: addressToBuffer_def colon_in_address [OF assms] new_Buffer_def)
qed

section \<open>JavaScript errors and objects\<close>

lemma run_catch_js [run_simps]:
  "run_state (catch_js m h) w =
     (case run_state m w of
        (Inl (JS_Error e), w') \<Rightarrow> run_state (h (JS_Error e)) w'
      | (Inl (JS_TypeError e), w') \<Rightarrow> run_state (h (JS_TypeError e)) w'
      | r \<Rightarrow> r)"
  by (simp add: catch_js_def)

lemma upholds_catch_js [upholds_rules]:
  assumes m: "upholds I m" and h: "\<And>e. upholds I (h e)"
  shows "upholds I (catch_js m h)"
proof (rule upholdsI)
  fix w r w'
  assume *: "I w" "run_state (catch_js m h) w = (r, w')" "\<And>u. r \<noteq> Inl (Undefined u)"
  obtain q v where q: "run_state m w = (q, v)" by fastforce
  show "I w'"
  proof (cases "\<exists>e. q = Inl (JS_Error e) \<or> q = Inl (JS_TypeError e)")
    case True
    then have "I v" using upholdsD [OF m q *(1)] by auto
    moreover obtain e where "run_state (h e) v = (r, w')"
      using True *(2) q by (auto simp: run_catch_js)
    ultimately show ?thesis using upholdsD [OF h] *(3) by blast
  next
    case False
    then have "r = q \<and> w' = v" using *(2) q by (auto simp: run_catch_js split: sum.splits error.splits)
    with upholdsD [OF m q *(1)] *(3) show ?thesis by blast
  qed
qed

lemma run_new_function [run_simps]:
  "run_state (new_function c) w =
     (Inr (next_fn w), w\<lparr>fn_objects := (fn_objects w)(next_fn w \<mapsto> c), next_fn := Suc (next_fn w)\<rparr>)"
  by (simp add: new_function_def)

lemma run_get_socket [run_simps]:
  "run_state (get_socket s) w =
     (case js_sockets w s of None \<Rightarrow> (Inl (JS_TypeError ''not an object''), w) | Some S \<Rightarrow> (Inr S, w))"
  by (simp add: get_socket_def split: option.splits)

lemma run_put_socket [run_simps]:
  "run_state (put_socket s S) w = (Inr (), w\<lparr>js_sockets := (js_sockets w)(s \<mapsto> S)\<rparr>)"
  by (simp add: put_socket_def run_simps)

section \<open>The invariant\<close>

text \<open>The Node object calls back into this socket; its poller, until it is closed, waits for writability.\<close>

definition serves :: "js_world \<Rightarrow> nat \<Rightarrow> wrapper \<Rightarrow> bool" where
  "serves w s W \<longleftrightarrow> (\<exists>r n e.
     onRecvCallback W = Some r \<and> fn_objects w r = Some (OnRecv s) \<and>
     onSendCallback W = Some n \<and> fn_objects w n = Some (OnSend s) \<and>
     onErrorCallback W = Some e \<and> fn_objects w e = Some (OnError s))"

definition awaits_writing :: "'a poll_world_scheme \<Rightarrow> wrapper \<Rightarrow> bool" where
  "awaits_writing w W \<longleftrightarrow> (\<forall>u. pollers w (wpoller W) = Some (UvPoller u) \<longrightarrow> current_events u = RW_EVENT)"

definition linked :: "js_world \<Rightarrow> nat \<Rightarrow> js_socket \<Rightarrow> bool" where
  "linked w s S \<longleftrightarrow> (\<forall>obj. wrap S = Some obj \<longrightarrow>
     (\<exists>W. wrappers w obj = Some W \<and> serves w s W \<and> (requests S \<noteq> [] \<longrightarrow> awaits_writing w W)))"

definition js_links :: "js_world \<Rightarrow> bool" where
  "js_links w \<longleftrightarrow> (\<forall>s S. js_sockets w s = Some S \<longrightarrow> s < next_obj w \<and> linked w s S) \<and>
     (\<forall>f. fn_objects w f \<noteq> None \<longrightarrow> f < next_fn w)"

definition js_inv :: "js_world \<Rightarrow> bool" where
  "js_inv w \<longleftrightarrow> wrap_inv w \<and> js_links w"

lemma js_more_eqD:
  assumes "wrap_world.more (w' :: js_world) = wrap_world.more w"
  shows "js_sockets w' = js_sockets w" "fn_objects w' = fn_objects w" "next_fn w' = next_fn w"
  using assms by (cases w; cases w'; simp)+

lemma js_linksD:
  assumes "js_links w" "js_sockets w s = Some S"
  shows "s < next_obj w" "wrap S = Some obj \<Longrightarrow> \<exists>W. wrappers w obj = Some W \<and> serves w s W \<and>
    (requests S \<noteq> [] \<longrightarrow> awaits_writing w W)"
  using assms by (auto simp: js_links_def linked_def)

text \<open>Changes of the C++ objects that keep the callbacks and the watched events the queue needs\<close>

lemma js_links_frame:
  assumes l: "js_links w" and more: "wrap_world.more w' = wrap_world.more w" and "next_obj w \<le> next_obj w'"
    and W: "\<And>s S obj W. js_sockets w s = Some S \<Longrightarrow> wrap S = Some obj \<Longrightarrow> wrappers w obj = Some W \<Longrightarrow>
      \<exists>W'. wrappers w' obj = Some W' \<and> onRecvCallback W' = onRecvCallback W \<and> onSendCallback W' = onSendCallback W \<and>
        onErrorCallback W' = onErrorCallback W \<and>
        (requests S \<noteq> [] \<longrightarrow> awaits_writing w W \<longrightarrow> awaits_writing w' W')"
  shows "js_links w'"
proof -
  note same = js_more_eqD [OF more]
  have "s < next_obj w' \<and> linked w' s S" if S: "js_sockets w s = Some S" for s S
  proof
    show "s < next_obj w'" using js_linksD(1) [OF l S] assms(3) by simp
    show "linked w' s S" unfolding linked_def
    proof (intro allI impI)
      fix obj assume obj: "wrap S = Some obj"
      then obtain V where V: "wrappers w obj = Some V" "serves w s V" "requests S \<noteq> [] \<longrightarrow> awaits_writing w V"
        using js_linksD(2) [OF l S] by blast
      obtain V' where V': "wrappers w' obj = Some V'" "onRecvCallback V' = onRecvCallback V"
        "onSendCallback V' = onSendCallback V" "onErrorCallback V' = onErrorCallback V"
        "requests S \<noteq> [] \<longrightarrow> awaits_writing w V \<longrightarrow> awaits_writing w' V'"
        using W [OF S obj V(1)] by blast
      have "serves w' s V'" using V(2) unfolding serves_def V' same .
      with V(3) V' show "\<exists>W. wrappers w' obj = Some W \<and> serves w' s W \<and> (requests S \<noteq> [] \<longrightarrow> awaits_writing w' W)"
        by blast
    qed
  qed
  then show ?thesis using l unfolding js_links_def same by blast
qed

lemma js_inv_quiet: "quiet w w' \<Longrightarrow> js_inv w \<Longrightarrow> js_inv w'"
proof -
  assume q: "quiet w w'" and i: "js_inv w"
  have "world.more w' = world.more w" using q by (simp add: adds_def)
  note same = more_eqD [OF this]
  have "js_links w'"
  proof (rule js_links_frame [of w])
    show "js_links w" using i by (simp add: js_inv_def)
    show "wrap_world.more w' = wrap_world.more w" by (rule same(5))
    show "next_obj w \<le> next_obj w'" unfolding same(3) by (rule order_refl)
    show "\<exists>W'. wrappers w' obj = Some W' \<and> onRecvCallback W' = onRecvCallback W \<and> onSendCallback W' = onSendCallback W \<and>
        onErrorCallback W' = onErrorCallback W \<and> (requests S \<noteq> [] \<longrightarrow> awaits_writing w W \<longrightarrow> awaits_writing w' W')"
      if "wrappers w obj = Some W" for S :: js_socket and obj W
      using that unfolding awaits_writing_def same(1,4) by blast
  qed
  with i wrap_inv_quiet [OF q] show ?thesis by (simp add: js_inv_def)
qed

interpretation js_quiet: quiet_invariant js_inv
  by unfold_locales (rule js_inv_quiet)

lemma wrap_inv_js [simp]:
  fixes w :: js_world
  shows "wrap_inv (w\<lparr>js_sockets := a\<rparr>) = wrap_inv w" "wrap_inv (w\<lparr>fn_objects := b, next_fn := c\<rparr>) = wrap_inv w"
  by (simp_all add: wrap_inv_def poll_inv_def owns_handle_def wrap_links_def wf_wrapper_def)

lemma put_socket_inv:
  assumes "js_inv w" "s < next_obj w" "linked w s S"
  shows "js_inv (w\<lparr>js_sockets := (js_sockets w)(s \<mapsto> S)\<rparr>)"
proof -
  have "linked (w\<lparr>js_sockets := x\<rparr>) t T = linked w t T" for x t T
    by (simp add: linked_def serves_def awaits_writing_def)
  with assms show ?thesis by (auto simp: js_inv_def js_links_def)
qed

lemma new_function_inv:
  assumes "js_inv w"
  shows "js_inv (w\<lparr>fn_objects := (fn_objects w)(next_fn w \<mapsto> c), next_fn := Suc (next_fn w)\<rparr>)" (is "js_inv ?w")
proof -
  have l: "js_links w" and new: "fn_objects w (next_fn w) = None"
    using assms by (auto simp: js_inv_def js_links_def)
  have "fn_objects w f = Some d \<Longrightarrow> fn_objects ?w f = Some d" for f d using new by auto
  then have "serves w s W \<Longrightarrow> serves ?w s W" for s W unfolding serves_def by meson
  moreover have "awaits_writing ?w = awaits_writing w" by (simp add: awaits_writing_def fun_eq_iff)
  ultimately have "linked w s S \<Longrightarrow> linked ?w s S" for s S unfolding linked_def by fastforce
  with l have "js_links ?w" by (auto simp: js_links_def less_Suc_eq)
  with assms show ?thesis by (simp add: js_inv_def)
qed

lemma js_base_upholds [upholds_rules]:
  "upholds js_inv (new_function c)" "upholds I (get_socket s)"
  by (auto simp: upholds_def run_new_function new_function_inv run_get_socket split: option.splits)

lemma js_inv_socket: "js_inv w \<Longrightarrow> js_sockets w s = Some S \<Longrightarrow> s < next_obj w \<and> linked w s S"
  by (simp add: js_inv_def js_links_def)

lemma on_upholds: "upholds js_inv (on s event f)"
  by (auto simp: upholds_def on_def run_simps linked_def split: option.splits
      intro!: put_socket_inv dest: js_inv_socket)

section \<open>The methods of the addon keep the invariant\<close>

lemma set_events_js:
  assumes "js_inv w" "run_state (set_events p e) w = (r, w')"
    "\<And>s S obj W. js_sockets w s = Some S \<Longrightarrow> wrap S = Some obj \<Longrightarrow> wrappers w obj = Some W \<Longrightarrow>
       wpoller W = p \<Longrightarrow> requests S \<noteq> [] \<Longrightarrow> e = RW_EVENT"
  shows "js_inv w'"
proof -
  have i: "wrap_inv w" "js_links w" using assms(1) by (simp_all add: js_inv_def)
  have wi: "wrap_inv w'" using keepsD [OF set_events_keeps assms(2)] i(1) by simp
  show ?thesis
  proof (cases "\<exists>u. pollers w p = Some (UvPoller u)")
    case False
    then have "w' = w" using assms(2)
      by (auto simp: set_events_def run_simps NullPoller_set_events_def split: option.splits poller.splits)
    with assms(1) show ?thesis by simp
  next
    case True
    then obtain u where u: "pollers w p = Some (UvPoller u)" ..
    have same: "wrap_world.more w' = wrap_world.more w" "next_obj w' = next_obj w" "wrappers w' = wrappers w"
      and p: "pollers w' q = (if q = p then Some (UvPoller (u\<lparr>current_events := e\<rparr>)) else pollers w q)" for q
      using assms(2) u by (auto simp: run_set_events_uv [OF u] split: if_splits)
    have "js_links w'"
    proof (rule js_links_frame [OF i(2) same(1)])
      fix s S obj W
      assume *: "js_sockets w s = Some S" "wrap S = Some obj" "wrappers w obj = Some W"
      have "awaits_writing w' W" if "requests S \<noteq> []" "awaits_writing w W"
        using that(2) assms(3) [OF * _ that(1)] unfolding awaits_writing_def p by auto
      with * show "\<exists>W'. wrappers w' obj = Some W' \<and> onRecvCallback W' = onRecvCallback W \<and>
          onSendCallback W' = onSendCallback W \<and> onErrorCallback W' = onErrorCallback W \<and>
          (requests S \<noteq> [] \<longrightarrow> awaits_writing w W \<longrightarrow> awaits_writing w' W')"
        unfolding same(3) by blast
    qed (simp add: same)
    with wi show ?thesis by (simp add: js_inv_def)
  qed
qed

lemma ResumeSending_js [upholds_rules]: "upholds js_inv (ResumeSending obj)"
  unfolding ResumeSending_eq
  by (intro upholds_rules) (auto simp: upholds_def intro: set_events_js)

lemma Close_js [upholds_rules]: "upholds js_inv (Close obj)"
proof (rule upholdsI)
  fix w w' r
  assume i: "js_inv w" and run: "run_state (Close obj) w = (r, w')" and "\<And>u. r \<noteq> Inl (Undefined u)"
  then have wi: "wrap_inv w" "wrap_inv w'" and l: "js_links w"
    using upholdsD [OF Close_upholds run] by (simp_all add: js_inv_def)
  show "js_inv w'"
  proof (cases "wrappers w obj")
    case None
    with run i show ?thesis by (simp add: Close_eq run_simps)
  next
    case (Some W)
    have lk: "wrap_links w" using wi(1) by (simp add: wrap_inv_def)
    note links = wrap_linksD [OF lk]
    have pw: "wpoller V < next_obj w" if "wrappers w a = Some V" for a V
      using poll_wrappers_inv(1) [OF lk _ that] wi(1) by (simp add: wrap_inv_def)
    have "pollers w (wpoller W) \<noteq> None" using links(1) [OF Some] by (simp add: wf_wrapper_def)
    then have w': "w' = w\<lparr>trace := trace w @ uv_closing w W,
       pollers := (pollers w)(wpoller W := None, next_obj w \<mapsto> NullPoller),
       next_obj := Suc (next_obj w),
       wrappers := (wrappers w)(obj \<mapsto> W\<lparr>wpoller := next_obj w\<rparr>)\<rparr>"
      using run run_Close [OF Some] by simp
    have "js_links w'"
    proof (rule js_links_frame [OF l])
      fix s S a V
      assume V: "wrappers w a = Some V"
      show "\<exists>W'. wrappers w' a = Some W' \<and> onRecvCallback W' = onRecvCallback V \<and>
          onSendCallback W' = onSendCallback V \<and> onErrorCallback W' = onErrorCallback V \<and>
          (requests S \<noteq> [] \<longrightarrow> awaits_writing w V \<longrightarrow> awaits_writing w' W')" for S
      proof (cases "a = obj")
        case True
        with V Some show ?thesis by (simp add: w' awaits_writing_def)
      next
        case False
        then have "wpoller V \<noteq> wpoller W" using links(3) [OF V Some] by blast
        with False V pw [OF V] show ?thesis by (simp add: w' awaits_writing_def)
      qed
    qed (simp_all add: w')
    with wi(2) show ?thesis by (simp add: js_inv_def)
  qed
qed

section \<open>The methods of the socket keep the invariant\<close>

definition user_keeps :: "(js_world \<Rightarrow> bool) \<Rightarrow> js_env \<Rightarrow> bool" where
  "user_keeps I X \<longleftrightarrow> (\<forall>u this args. upholds I (user_code X u this args))"

abbreviation user_upholds :: "js_env \<Rightarrow> bool" where
  "user_upholds \<equiv> user_keeps js_inv"

lemma user_keepsD [upholds_rules]: "user_keeps I X \<Longrightarrow> upholds I (user_code X u this args)"
  by (simp add: user_keeps_def)

lemma upholds_each [upholds_rules]: "(\<And>x. upholds I (f x)) \<Longrightarrow> upholds I (each f xs)"
  by (induction xs) (simp_all add: upholds_rules)

lemma upholds_case_closure [upholds_rules]:
  assumes "\<And>x. upholds I (a1 x)" "\<And>x. upholds I (a2 x)" "\<And>x. upholds I (a3 x)" "\<And>x. upholds I (a4 x)"
    "\<And>x. upholds I (a5 x)" "\<And>x y. upholds I (a6 x y)"
  shows "upholds I (case_closure a1 a2 a3 a4 a5 a6 c)"
  using assms by (cases c) simp_all

lemma upholds_case_list [upholds_rules]:
  "upholds I m \<Longrightarrow> (\<And>x xs. upholds I (f x xs)) \<Longrightarrow> upholds I (case ys of [] \<Rightarrow> m | x # xs \<Rightarrow> f x xs)"
  by (cases ys) simp_all

text \<open>
  The methods and handlers other than \<open>send\<close> and \<open>onSend\<close> keep every invariant that memory and the
  history, a new callback, \<open>Close\<close> and \<open>ResumeSending\<close> cannot break.
\<close>

locale js_invariant = quiet_invariant I for I :: "js_world \<Rightarrow> bool" +
  assumes callback_kept: "upholds I (new_function (RecvCallback s))" "upholds I (new_function (SendCallback s req))"
    and native_kept: "upholds I (Close obj)" "upholds I (ResumeSending obj)"
begin

lemmas kept [upholds_rules] = callback_kept native_kept

lemma call_value_upholds [upholds_rules]: "user_keeps I X \<Longrightarrow> upholds I (call_value X v this args)"
  unfolding call_value_def by (intro upholds_rules)

lemma emit_upholds [upholds_rules]: "user_keeps I X \<Longrightarrow> upholds I (emit X s event args)"
  unfolding emit_def Let_def by (intro upholds_rules)

lemma new_Buffer_upholds [upholds_rules]: "upholds I (new_Buffer bs)"
  by (rule quiet_upholds) (simp add: keeps_def new_Buffer_def adds_def)

lemma load_bytes_upholds [upholds_rules]: "upholds I (load_bytes p n)"
  by (intro quiet_upholds keeps_load_bytes)

lemma buffer_to_hex_upholds [upholds_rules]: "upholds I (buffer_to_hex v)"
  unfolding buffer_to_hex_def by (intro upholds_rules)

lemma upholds_case_sum [upholds_rules]:
  "(\<And>x. upholds I (f x)) \<Longrightarrow> (\<And>y. upholds I (g y)) \<Longrightarrow> upholds I (case z of Inl x \<Rightarrow> f x | Inr y \<Rightarrow> g y)"
  by (cases z) simp_all

lemma addressToBuffer_upholds [upholds_rules]: "upholds I (addressToBuffer X v)"
  unfolding addressToBuffer_def by (intro upholds_rules)

lemma js_callbacks_upholds [upholds_rules]: "user_keeps I X \<Longrightarrow> upholds I (js_callbacks X f args)"
  unfolding js_callbacks_def recv_callback_def send_callback_def by (intro upholds_rules)

lemma call_wrap_rule:
  "(\<And>obj. upholds I (call_method E (js_callbacks X) name obj args)) \<Longrightarrow> upholds I (call_wrap E X me name args)"
  unfolding call_wrap_def by (intro upholds_rules)

lemma call_wrap_upholds [upholds_rules]:
  assumes "user_keeps I X"
  shows "upholds I (call_wrap E X me ''Receive'' args)" "upholds I (call_wrap E X me ''Send'' args)"
    "upholds I (call_wrap E X me ''Close'' args)" "upholds I (call_wrap E X me ''AddMembership'' args)"
    "upholds I (call_wrap E X me ''DropMembership'' args)" "upholds I (call_wrap E X me ''ResumeSending'' args)"
  by (rule call_wrap_rule, unfold call_method_simps, intro upholds_rules assms)+

lemma onRecv_upholds [upholds_rules]: "user_keeps I X \<Longrightarrow> upholds I (onRecv E X me)"
  unfolding onRecv_def by (intro upholds_rules)

lemma onError_upholds [upholds_rules]: "user_keeps I X \<Longrightarrow> upholds I (onError X me args)"
  unfolding onError_def by (intro upholds_rules)

lemma close_upholds: "user_keeps I X \<Longrightarrow> upholds I (close E X s)"
  unfolding close_def by (intro upholds_rules)

lemma membership_change_upholds:
  "user_keeps I X \<Longrightarrow> upholds I (joinMC E X s a)" "user_keeps I X \<Longrightarrow> upholds I (leaveMC E X s a)"
  unfolding joinMC_def leaveMC_def change_membership_def by (intro upholds_rules; assumption)+

text \<open>What \<open>onSend\<close> does with a request it has taken out\<close>

lemma serve_upholds [upholds_rules]:
  assumes "user_keeps I X"
  shows "upholds I (catch_js
           (after (new_function (SendCallback me req)) (\<lambda>f.
            after (call_wrap E X me ''Send'' [buffer req, address req, JFunction f]) (\<lambda>_. give JUndefined)))
           (\<lambda>error. after (call_value X (afterCallback req) (JInstance me) [JError error, js_int 0]) (\<lambda>_.
                    give JUndefined)))"
  by (intro upholds_rules assms)

end

interpretation js_kept: js_invariant js_inv
  by unfold_locales (rule js_inv_quiet js_base_upholds ResumeSending_js Close_js, assumption?)+

lemma linkedD: "linked w s S \<Longrightarrow> wrap S = Some obj \<Longrightarrow> \<exists>W. wrappers w obj = Some W \<and> serves w s W \<and>
    (requests S \<noteq> [] \<longrightarrow> awaits_writing w W)"
  by (simp add: linked_def)

lemma linked_fewer: "linked w s S \<Longrightarrow> requests S \<noteq> [] \<Longrightarrow> linked w s (S\<lparr>requests := rs\<rparr>)"
  unfolding linked_def by simp blast

lemma js_owner:
  assumes "js_inv w" "js_sockets w s = Some S" "wrap S = Some obj" "js_sockets w t = Some T" "wrap T = Some obj"
  shows "s = t"
proof -
  obtain W where "wrappers w obj = Some W" "serves w s W" using assms js_inv_socket linkedD by blast
  moreover obtain V where "wrappers w obj = Some V" "serves w t V" using assms js_inv_socket linkedD by blast
  ultimately show ?thesis by (auto simp: serves_def)
qed

text \<open>\<open>onSend\<close> takes a request out before it is sent, and stops watching only when none is left.\<close>

lemma onSend_js [upholds_rules]:
  assumes X: "user_upholds X"
  shows "upholds js_inv (onSend E X me)"
proof (rule upholdsI)
  fix w r w'
  assume i: "js_inv w" and run: "run_state (onSend E X me) w = (r, w')" and ok: "\<And>u. r \<noteq> Inl (Undefined u)"
  show "js_inv w'"
  proof (cases "js_sockets w me")
    case None
    with run i show ?thesis by (simp add: onSend_def run_simps)
  next
    case (Some S)
    note s = js_inv_socket [OF i Some]
    show ?thesis
    proof (cases "requests S")
      case Nil
      have "run_state (after (call_wrap E X me ''PauseSending'' []) (\<lambda>_. give JUndefined)) w = (r, w')"
        using run Some Nil by (simp add: onSend_def run_simps)
      then obtain q where q: "run_state (call_wrap E X me ''PauseSending'' []) w = (q, w')" "r = Inl u \<Longrightarrow> q = Inl u" for u
        by (auto simp: run_simps split: prod.splits sum.splits)
      show ?thesis
      proof (cases "wrap S")
        case None
        with q Some i show ?thesis by (simp add: call_wrap_def run_simps)
      next
        case w: (Some obj)
        then obtain W where W: "wrappers w obj = Some W" using s linkedD by blast
        obtain q' where "run_state (set_events (wpoller W) READ_EVENT) w = (q', w')"
          using q Some w W by (auto simp: call_wrap_def run_simps call_method_simps PauseSending_eq split: prod.splits sum.splits)
        then show ?thesis
        proof (rule set_events_js [OF i])
          fix t T obj' V
          assume *: "js_sockets w t = Some T" "wrap T = Some obj'" "wrappers w obj' = Some V" "wpoller V = wpoller W"
            "requests T \<noteq> []"
          have "wrap_links w" using i by (simp add: js_inv_def wrap_inv_def)
          from wrap_linksD(3) [OF this *(3) W] *(4) have "obj' = obj" by simp
          then have "t = me" using js_owner [OF i *(1,2) Some] w by simp
          with * Some Nil show "READ_EVENT = RW_EVENT" by simp
        qed
      qed
    next
      case (Cons req rest)
      let ?w = "w\<lparr>js_sockets := (js_sockets w)(me \<mapsto> S\<lparr>requests := rest\<rparr>)\<rparr>"
      have 1: "js_inv ?w"
        using s Cons by (intro put_socket_inv [OF i] linked_fewer) simp_all
      have 2: "run_state (catch_js
           (after (new_function (SendCallback me req)) (\<lambda>f.
            after (call_wrap E X me ''Send'' [buffer req, address req, JFunction f]) (\<lambda>_. give JUndefined)))
           (\<lambda>error. after (call_value X (afterCallback req) (JInstance me) [JError error, js_int 0]) (\<lambda>_.
                    give JUndefined))) ?w = (r, w')"
        using run Some Cons by (simp add: onSend_def run_after run_get_socket run_put_socket)
      show ?thesis by (rule upholdsD [OF js_kept.serve_upholds [OF X] 2 1 ok])
    qed
  qed
qed

lemma js_handlers_upholds: "user_upholds X \<Longrightarrow> upholds js_inv (js_handlers E X f args)"
  unfolding js_handlers_def by (intro upholds_rules)

lemma addressToBuffer_quiet: "keeps quiet (addressToBuffer X v)"
  unfolding addressToBuffer_def new_Buffer_def
  by (auto simp: keeps_def run_simps adds_def split: js_value.splits sum.splits)

lemma addressToBuffer_same:
  assumes "run_state (addressToBuffer X v) w = (r, w')"
  shows "world.more w' = world.more w" "trace w' = trace w"
  using assms by (auto simp: addressToBuffer_def new_Buffer_def run_simps split: js_value.splits if_splits sum.splits)

text \<open>Appending a request breaks the invariant until \<open>ResumeSending\<close> has run.\<close>

lemma resume_restores:
  assumes i: "js_inv w" and S: "js_sockets w s = Some S" "wrap S = Some obj" and W: "wrappers w obj = Some W"
    and run: "run_state (set_events (wpoller W) RW_EVENT) (w\<lparr>js_sockets := (js_sockets w)(s \<mapsto> S\<lparr>requests := rs\<rparr>)\<rparr>) = (r, w')"
  shows "js_inv w'"
proof -
  let ?v = "w\<lparr>js_sockets := (js_sockets w)(s \<mapsto> S\<lparr>requests := rs\<rparr>)\<rparr>"
  have wi: "wrap_inv ?v" using i by (simp add: js_inv_def)
  then have wi': "wrap_inv w'" using keepsD [OF set_events_keeps run] by simp
  have awaits: "awaits_writing w' W"
    using run by (auto simp: awaits_writing_def set_events_def run_simps UvPoller_set_events_def NullPoller_set_events_def
      put_poller_def split: option.splits poller.splits if_splits)
  have same: "wrap_world.more w' = wrap_world.more ?v" "next_obj w' = next_obj w" "wrappers w' = wrappers w"
    "awaits_writing w V \<Longrightarrow> awaits_writing w' V" for V
    using run by (auto simp: awaits_writing_def set_events_def run_simps UvPoller_set_events_def NullPoller_set_events_def
      put_poller_def split: option.splits poller.splits if_splits)
  note js = js_more_eqD [OF same(1)]
  have "t < next_obj w' \<and> linked w' t T" if T: "js_sockets w' t = Some T" for t T
  proof (cases "t = s")
    case True
    have "serves w s W" using js_inv_socket [OF i S(1)] linkedD [of w s S obj] S(2) W by auto
    then have "serves w' s W" unfolding serves_def js by simp
    moreover have "T = S\<lparr>requests := rs\<rparr>" using T True js by simp
    ultimately show ?thesis using js_inv_socket [OF i S(1)] S(2) W awaits same True
      by (simp add: linked_def)
  next
    case False
    then have t: "js_sockets w t = Some T" using T js by simp
    note l = js_inv_socket [OF i t]
    have "serves w' a V = serves w a V" for a V unfolding serves_def js by simp
    then show ?thesis using l same(2-4) unfolding linked_def by metis
  qed
  moreover have "\<forall>f. fn_objects w' f \<noteq> None \<longrightarrow> f < next_fn w'"
    using i js by (simp add: js_inv_def js_links_def)
  ultimately show ?thesis using wi' by (simp add: js_inv_def js_links_def)
qed

lemma send_upholds: "upholds js_inv (send E X s buf addr cb)"
proof (rule upholdsI)
  fix w r w'
  assume i: "js_inv w" and run: "run_state (send E X s buf addr cb) w = (r, w')" and ok: "\<And>u. r \<noteq> Inl (Undefined u)"
  obtain q w1 where q: "run_state (addressToBuffer X addr) w = (q, w1)" by fastforce
  have i1: "js_inv w1" using keepsD [OF addressToBuffer_quiet q] i js_inv_quiet by blast
  show "js_inv w'"
  proof (cases q)
    case (Inl e)
    with run q i1 show ?thesis by (simp add: send_def run_after)
  next
    case (Inr a)
    show ?thesis
    proof (cases "js_sockets w1 s")
      case None
      with run q Inr i1 show ?thesis by (simp add: send_def run_simps)
    next
      case (Some S)
      let ?rs = "requests S @ [\<lparr>buffer = buf, address = a, afterCallback = cb\<rparr>]"
      let ?v = "w1\<lparr>js_sockets := (js_sockets w1)(s \<mapsto> S\<lparr>requests := ?rs\<rparr>)\<rparr>"
      note l = js_inv_socket [OF i1 Some]
      show ?thesis
      proof (cases "wrap S")
        case None
        have "w' = ?v" using run q Inr Some None by (simp add: send_def run_simps call_wrap_def)
        moreover have "linked w1 s (S\<lparr>requests := ?rs\<rparr>)" using None by (simp add: linked_def)
        ultimately show ?thesis using put_socket_inv [OF i1] l by blast
      next
        case wr: (Some obj)
        then obtain W where W: "wrappers w1 obj = Some W" using l linkedD by blast
        have "\<exists>q'. run_state (set_events (wpoller W) RW_EVENT) ?v = (q', w')"
          using run q Inr Some wr W
          by (auto simp: send_def run_simps call_wrap_def call_method_simps ResumeSending_eq split: prod.splits sum.splits)
        then show ?thesis using resume_restores [OF i1 Some wr W] by blast
      qed
    qed
  qed
qed

section \<open>Opening a socket\<close>

lemma New_js:
  assumes "fresh_fds E"
  shows "upholds js_inv (New E c info)"
proof (rule upholdsI)
  fix w w' q
  assume i: "js_inv w" and run: "run_state (New E c info) w = (q, w')" and ok: "\<And>u. q \<noteq> Inl (Undefined u)"
  then have wi: "wrap_inv w" "wrap_inv w'" and l: "js_links w"
    using upholdsD [OF New_upholds [OF assms] run] by (simp_all add: js_inv_def)
  note f = New_frame [OF run]
  have lk: "wrap_links w" using wi(1) by (simp add: wrap_inv_def)
  have "js_links w'"
  proof (rule js_links_frame [OF l])
    fix s S a V
    assume V: "wrappers w a = Some V"
    have p: "wpoller V < next_obj w"
      using poll_wrappers_inv(1) [OF lk _ V] wi(1) by (simp add: wrap_inv_def)
    have a: "a \<noteq> next_obj w" using wrap_linksD(5) [OF lk, of a] V by auto
    have "wrappers w' a = Some V \<and> pollers w' (wpoller V) = pollers w (wpoller V)"
      using f V p a by (auto split: sum.splits)
    then show "\<exists>W'. wrappers w' a = Some W' \<and> onRecvCallback W' = onRecvCallback V \<and>
        onSendCallback W' = onSendCallback V \<and> onErrorCallback W' = onErrorCallback V \<and>
        (requests S \<noteq> [] \<longrightarrow> awaits_writing w V \<longrightarrow> awaits_writing w' W')"
      by (simp add: awaits_writing_def)
  qed (use f in simp_all)
  with wi(2) show "js_inv w'" by (simp add: js_inv_def)
qed

text \<open>The world in which the constructor calls the addon, and what it hands over\<close>

definition constructing :: "js_world \<Rightarrow> js_world" where
  "constructing w = w\<lparr>next_obj := Suc (next_obj w),
     js_sockets := (js_sockets w)(next_obj w \<mapsto> \<lparr>requests = [], wrap = None, listeners = []\<rparr>),
     fn_objects := (fn_objects w)(next_fn w \<mapsto> OnRecv (next_obj w), Suc (next_fn w) \<mapsto> OnSend (next_obj w),
       Suc (Suc (next_fn w)) \<mapsto> OnError (next_obj w)),
     next_fn := Suc (Suc (Suc (next_fn w)))\<rparr>"

definition binding_options :: "js_world \<Rightarrow> js_value \<Rightarrow> js_value" where
  "binding_options w options = JObject
     [(''device'', get_property options ''device''), (''onRecv'', JFunction (next_fn w)),
      (''onSend'', JFunction (Suc (next_fn w))), (''onError'', JFunction (Suc (Suc (next_fn w))))]"

lemma binding_options_ok:
  "options_ok (binding_options w options) d r s e \<longleftrightarrow> get_property options ''device'' = JString d \<and>
     r = next_fn w \<and> s = Suc (next_fn w) \<and> e = Suc (Suc (next_fn w))"
  by (auto simp: options_ok_def binding_options_def get_property_def)

text \<open>No listener exists yet, so what the addon throws leaves the constructor.\<close>

lemma run_Socket_construct:
  "run_state (Socket_construct E X options) w =
     (case run_state (New E True [binding_options w options]) (constructing w) of
        (Inl x, w1) \<Rightarrow> (Inl x, w1)
      | (Inr v, w1) \<Rightarrow> (Inr (next_obj w), w1\<lparr>js_sockets := (js_sockets w1)(next_obj w \<mapsto>
          \<lparr>requests = [], wrap = (case v of JWrapped obj \<Rightarrow> Some obj | _ \<Rightarrow> None), listeners = []\<rparr>)\<rparr>))"
proof -
  obtain q w1 where q: "run_state (New E True [binding_options w options]) (constructing w) = (q, w1)" by fastforce
  have "js_sockets w1 (next_obj w) = Some \<lparr>requests = [], wrap = None, listeners = []\<rparr>"
    using New_frame [OF q] js_more_eqD(1) [of w1 "constructing w"] by (simp add: constructing_def)
  with q show ?thesis
    by (auto simp: Socket_construct_def run_simps constructing_def binding_options_def Let_def emit_def arg_def
        split: sum.splits error.splits)
qed

lemma constructing_inv: "js_inv w \<Longrightarrow> js_inv (constructing w)"
proof -
  assume i: "js_inv w"
  let ?w1 = "w\<lparr>next_obj := Suc (next_obj w)\<rparr>"
  have "wrap_inv ?w1" using wrap_inv_later [of w ?w1] i by (simp add: js_inv_def)
  moreover have "js_links ?w1"
    by (rule js_links_frame [of w]) (use i in \<open>simp_all add: js_inv_def awaits_writing_def\<close>)
  ultimately have 1: "js_inv ?w1" by (simp add: js_inv_def)
  have "js_inv (?w1\<lparr>js_sockets := (js_sockets ?w1)(next_obj w \<mapsto> \<lparr>requests = [], wrap = None, listeners = []\<rparr>)\<rparr>)"
    by (rule put_socket_inv [OF 1]) (simp_all add: linked_def)
  from new_function_inv [OF new_function_inv [OF new_function_inv [OF this, of "OnRecv (next_obj w)"],
      of "OnSend (next_obj w)"], of "OnError (next_obj w)"]
  show "js_inv (constructing w)" by (simp add: constructing_def)
qed

lemma Socket_construct_cases:
  assumes E: "fresh_fds E" and i: "js_inv w" and run: "run_state (Socket_construct E X options) w = (q, w')"
    and ok: "\<And>u. q \<noteq> Inl (Undefined u)"
  shows "js_inv w' \<and>
    (case q of
       Inl e \<Rightarrow> run_state (New E True [binding_options w options]) (constructing w) = (Inl e, w')
     | Inr s \<Rightarrow> s = next_obj w \<and> (\<exists>obj w1 W. run_state (New E True [binding_options w options]) (constructing w) = (Inr (JWrapped obj), w1) \<and>
          w' = w1\<lparr>js_sockets := (js_sockets w1)(s \<mapsto> \<lparr>requests = [], wrap = Some obj, listeners = []\<rparr>)\<rparr> \<and>
          wrappers w' obj = Some W \<and> serves w' s W))"
proof -
  obtain q1 w1 where q: "run_state (New E True [binding_options w options]) (constructing w) = (q1, w1)" by fastforce
  note f = New_frame [OF q]
  have ok1: "\<And>u. q1 \<noteq> Inl (Undefined u)" using run ok by (auto simp: run_Socket_construct q split: sum.splits)
  have i1: "js_inv w1" by (rule upholdsD [OF New_js [OF E] q constructing_inv [OF i] ok1])
  show ?thesis
  proof (cases q1)
    case (Inl e)
    with run i1 q show ?thesis by (auto simp: run_Socket_construct)
  next
    case (Inr v)
    have b: "arg [binding_options w options] 0 = binding_options w options" by (simp add: arg_def)
    obtain sock p where v: "v = JWrapped (next_obj (constructing w))"
      and W: "wrappers w1 (next_obj (constructing w)) =
        Some (new_wrapper (next_fn w) (Suc (next_fn w)) (Suc (Suc (next_fn w))) sock p)"
      using f Inr by (auto simp: b binding_options_ok)
    let ?W = "new_wrapper (next_fn w) (Suc (next_fn w)) (Suc (Suc (next_fn w))) sock p"
    let ?S = "\<lparr>requests = [], wrap = Some (next_obj (constructing w)), listeners = []\<rparr> :: js_socket"
    have fn: "fn_objects w1 = fn_objects (constructing w)" using f js_more_eqD(2) by blast
    have serves: "serves w1 (next_obj w) ?W"
      by (simp add: serves_def new_wrapper_def fn constructing_def)
    have n: "next_obj w < next_obj w1" using f by (simp add: constructing_def)
    have "linked w1 (next_obj w) ?S" using W serves by (simp add: linked_def)
    note put_socket_inv [OF i1 n this]
    moreover have "serves (w1\<lparr>js_sockets := x\<rparr>) (next_obj w) ?W" for x using serves by (simp add: serves_def)
    moreover have "q = Inr (next_obj w)" "w' = w1\<lparr>js_sockets := (js_sockets w1)(next_obj w \<mapsto> ?S)\<rparr>"
      using run Inr v by (simp_all add: run_Socket_construct q)
    ultimately show ?thesis using q Inr v W by simp
  qed
qed

lemma openSocket_upholds:
  assumes "fresh_fds E"
  shows "upholds js_inv (openSocket E X options)"
  unfolding openSocket_def using Socket_construct_cases [OF assms]
  by (intro upholds_after upholdsI) (auto simp: run_simps)

section \<open>Reachable worlds\<close>

text \<open>
  What the collector must keep: the functions in the persistent handles of the Node objects are roots;
  a handler keeps the socket of its scope, a socket keeps its \<open>wrap\<close>.
\<close>

inductive retained :: "js_world \<Rightarrow> js_value \<Rightarrow> bool" for w where
  root: "wrappers w obj = Some W \<Longrightarrow> Some f \<in> {onRecvCallback W, onSendCallback W, onErrorCallback W} \<Longrightarrow>
     retained w (JFunction f)"
| scope: "retained w (JFunction f) \<Longrightarrow> fn_objects w f = Some c \<Longrightarrow> c \<in> {OnRecv s, OnSend s, OnError s} \<Longrightarrow>
     retained w (JInstance s)"
| property: "retained w (JInstance s) \<Longrightarrow> js_sockets w s = Some S \<Longrightarrow> wrap S = Some obj \<Longrightarrow>
     retained w (JWrapped obj)"

lemma socket_retained:
  assumes "js_inv w" "js_sockets w s = Some S" "wrap S = Some obj"
  shows "retained w (JWrapped obj)"
proof -
  obtain W where "wrappers w obj = Some W" "serves w s W"
    using assms js_inv_socket linkedD by blast
  then obtain r where r: "onRecvCallback W = Some r" "fn_objects w r = Some (OnRecv s)"
    unfolding serves_def by blast
  have "retained w (JFunction r)" by (rule retained.root [OF \<open>wrappers w obj = Some W\<close>]) (simp add: r(1))
  then have "retained w (JInstance s)" using r(2) by (rule retained.scope) simp
  then show ?thesis using assms(2,3) by (rule retained.property)
qed

datatype js_op = Send_op js_value js_value js_value | Close_op | Join_op js_value | Leave_op js_value | On_op string nat

fun run_js_op :: "env \<Rightarrow> js_env \<Rightarrow> nat \<Rightarrow> js_op \<Rightarrow> (js_world, js_value) prog" where
  "run_js_op E X s (Send_op buf addr cb) = send E X s buf addr cb"
| "run_js_op E X s Close_op = close E X s"
| "run_js_op E X s (Join_op a) = joinMC E X s a"
| "run_js_op E X s (Leave_op a) = leaveMC E X s a"
| "run_js_op E X s (On_op event f) = on s event f"

inductive js_step :: "env \<Rightarrow> js_env \<Rightarrow> js_world \<Rightarrow> js_world \<Rightarrow> bool" for E X where
  opened: "run_state (openSocket E X options) w = (r, w') \<Longrightarrow> defined_end r \<Longrightarrow> js_step E X w w'"
| called: "run_state (run_js_op E X s op) w = (r, w') \<Longrightarrow> defined_end r \<Longrightarrow> js_step E X w w'"
| io: "watching (trace w) h \<noteq> None \<Longrightarrow> run_state (watcher_event E (js_handlers E X) h status revents) w = (q, w') \<Longrightarrow>
     defined_end q \<Longrightarrow> js_step E X w w'"
| collected: "wrappers w obj \<noteq> None \<Longrightarrow> \<not> retained w (JWrapped obj) \<Longrightarrow>
     run_state (Wrapper_delete E obj) w = (q, w') \<Longrightarrow> defined_end q \<Longrightarrow> js_step E X w w'"
| released: "handles w h \<noteq> None \<Longrightarrow> watching (trace w) h = None \<Longrightarrow> js_step E X w (snd (run_state (on_close h) w))"
| elsewhere: "quiet w w' \<Longrightarrow> js_step E X w w'"

definition js_init :: "js_world \<Rightarrow> bool" where
  "js_init w \<longleftrightarrow> wrap_init w \<and> js_sockets w = Map.empty \<and> (\<forall>f. fn_objects w f \<noteq> None \<longrightarrow> f < next_fn w)"

inductive js_reach :: "env \<Rightarrow> js_env \<Rightarrow> js_world \<Rightarrow> bool" for E X where
  start: "js_init w \<Longrightarrow> js_reach E X w"
| step: "js_reach E X w \<Longrightarrow> js_step E X w w' \<Longrightarrow> js_reach E X w'"

lemma Wrapper_delete_js:
  assumes i: "js_inv w" and W: "wrappers w obj = Some W" and free: "\<not> retained w (JWrapped obj)"
    and run: "run_state (Wrapper_delete E obj) w = (q, w')" and ok: "defined_end q"
  shows "js_inv w'"
proof -
  have wi: "wrap_inv w" "wrap_inv w'" and l: "js_links w"
    using upholdsD [OF Wrapper_delete_upholds run] i ok by (simp_all add: js_inv_def)
  have lk: "wrap_links w" using wi(1) by (simp add: wrap_inv_def)
  have "pollers w (wpoller W) \<noteq> None" using wrap_linksD(1) [OF lk W] by (simp add: wf_wrapper_def)
  note w' = run [unfolded run_Wrapper_delete [OF W this]]
  have "js_links w'"
  proof (rule js_links_frame [OF l])
    fix s S a V
    assume *: "js_sockets w s = Some S" "wrap S = Some a" and V: "wrappers w a = Some V"
    have "a \<noteq> obj" using socket_retained [OF i *] free by auto
    then have "wpoller V \<noteq> wpoller W" using wrap_linksD(3) [OF lk V W] by blast
    then show "\<exists>W'. wrappers w' a = Some W' \<and> onRecvCallback W' = onRecvCallback V \<and>
        onSendCallback W' = onSendCallback V \<and> onErrorCallback W' = onErrorCallback V \<and>
        (requests S \<noteq> [] \<longrightarrow> awaits_writing w V \<longrightarrow> awaits_writing w' W')"
      using V \<open>a \<noteq> obj\<close> w' by (auto simp: awaits_writing_def)
  qed (use w' in auto)
  with wi(2) show ?thesis by (simp add: js_inv_def)
qed

lemma on_close_js:
  assumes i: "js_inv w" and h: "handles w h \<noteq> None" "watching (trace w) h = None"
  shows "js_inv (snd (run_state (on_close h) w))" (is "js_inv ?w")
proof -
  have "wrap_inv ?w" using on_close_keeps [of w h] h(2) i by (simp add: js_inv_def)
  moreover have "js_links ?w"
    by (rule js_links_frame [of w]) (use i h in \<open>auto simp: js_inv_def run_on_close awaits_writing_def\<close>)
  ultimately show ?thesis by (simp add: js_inv_def)
qed

lemma run_js_op_upholds: "user_upholds X \<Longrightarrow> upholds js_inv (run_js_op E X s op)"
  by (cases op) (simp_all add: send_upholds js_kept.close_upholds js_kept.membership_change_upholds on_upholds)

lemma js_step_inv:
  assumes X: "user_upholds X" and E: "fresh_fds E"
  shows "js_step E X w w' \<Longrightarrow> js_inv w \<Longrightarrow> js_inv w'"
proof (induction rule: js_step.induct)
  case (opened options w r w')
  then show ?case using upholdsD [OF openSocket_upholds [OF E]] by blast
next
  case (called s op w r w')
  then show ?case using upholdsD [OF run_js_op_upholds [OF X]] by blast
next
  case (io w h status revents q w')
  have "upholds js_inv (watcher_event E (js_handlers E X) h status revents)"
    by (rule js_quiet.watcher_event_upholds) (rule js_handlers_upholds [OF X])
  from upholdsD [OF this io(2) io(4)] io(3) show ?case by blast
next
  case (collected w obj q w')
  then show ?case using Wrapper_delete_js by blast
next
  case (released w h)
  then show ?case by (blast intro: on_close_js)
next
  case (elsewhere w w')
  then show ?case by (rule js_inv_quiet)
qed

lemma js_reach_inv:
  assumes "user_upholds X" "fresh_fds E" "js_reach E X w"
  shows "js_inv w"
  using assms(3)
proof (induction rule: js_reach.induct)
  case (start w)
  then show ?case using wrap_init_inv by (auto simp: js_init_def js_inv_def js_links_def)
next
  case (step w w')
  show ?case by (rule js_step_inv [OF assms(1,2) step.hyps(2) step.IH])
qed

lemma reach_served:
  assumes "user_upholds X" and "fresh_fds E" and "js_reach E X w"
    and S: "js_sockets w s = Some S" "wrap S = Some obj"
  shows "\<exists>W x. wrappers w obj = Some W \<and> serves w s W \<and> retained w (JWrapped obj) \<and>
    get_descriptor (wsocket W) \<in> open_fds (trace w) \<and> pollers w (wpoller W) = Some x \<and>
    (\<forall>u. x = UvPoller u \<longrightarrow> requests S \<noteq> [] \<longrightarrow>
       watching (trace w) (uv_poll u) = Some (UV_READABLE OR UV_WRITABLE))"
proof -
  have i: "js_inv w" by (rule js_reach_inv [OF assms(1-3)])
  then have l: "wrap_links w" and p: "poll_inv w" by (simp_all add: js_inv_def wrap_inv_def)
  obtain W where W: "wrappers w obj = Some W" "serves w s W" "requests S \<noteq> [] \<longrightarrow> awaits_writing w W"
    using js_inv_socket [OF i S(1)] linkedD S(2) by blast
  obtain x where x: "pollers w (wpoller W) = Some x"
    using wrap_linksD(1) [OF l W(1)] by (auto simp: wf_wrapper_def)
  have "watching (trace w) (uv_poll u) = Some (UV_READABLE OR UV_WRITABLE)"
    if u: "x = UvPoller u" "requests S \<noteq> []" for u
  proof -
    have "pollers w (wpoller W) = Some (UvPoller u)" using x u(1) by simp
    moreover from this have "current_events u = RW_EVENT" using W(3) u(2) by (auto simp: awaits_writing_def)
    ultimately show ?thesis using poll_invD(1) [OF p] by (auto simp: owns_handle_def)
  qed
  moreover have "get_descriptor (wsocket W) \<in> open_fds (trace w)" unfolding wrap_linksD(4) [OF l] using W(1) by blast
  ultimately show ?thesis using W x socket_retained [OF i S] by blast
qed

end
