(* ===== verification/Js_Socket_Methods.thy ===== *)
theory Js_Socket_Methods
  imports Js_Socket_Facts
begin

text \<open>
  What opening, sending and receiving do, seen from JavaScript: the outcome of the constructor, the
  way of a queued request through the addon to its callback, the \<open>'message'\<close> event, and callbacks that
  throw or are missing.  The properties and their witnesses are at the end.
\<close>

section \<open>What the methods do\<close>


section \<open>The queue\<close>

text \<open>The handle of a socket leads to its handlers, and an event of the handle reaches them.\<close>

lemma served_handle:
  assumes i: "js_inv w" and S: "js_sockets w s = Some S" "wrap S = Some obj" and W: "wrappers w obj = Some W"
    and u: "pollers w (wpoller W) = Some (UvPoller u)"
  shows "\<exists>n. onRecvCallback W = Some n \<and> fn_objects w n = Some (OnRecv s)"
    "\<exists>n. onSendCallback W = Some n \<and> fn_objects w n = Some (OnSend s)"
    "external_data u = obj" "read_ready_callback u = ReadReadyCallback_ptr" "write_ready_callback u = WriteReadyCallback_ptr"
    "handles w (uv_poll u) = Some (wpoller W)" "watching (trace w) (uv_poll u) = Some (event_mask (current_events u))"
proof -
  have l: "wrap_links w" and p: "poll_inv w" using i by (simp_all add: js_inv_def wrap_inv_def)
  show "\<exists>n. onRecvCallback W = Some n \<and> fn_objects w n = Some (OnRecv s)"
    "\<exists>n. onSendCallback W = Some n \<and> fn_objects w n = Some (OnSend s)"
    using js_inv_socket [OF i S(1)] linkedD [of w s S obj] S(2) W by (auto simp: serves_def)
  show "external_data u = obj" "read_ready_callback u = ReadReadyCallback_ptr" "write_ready_callback u = WriteReadyCallback_ptr"
    using wrap_linksD(1) [OF l W] u by (simp_all add: wf_wrapper_def)
  show "handles w (uv_poll u) = Some (wpoller W)" "watching (trace w) (uv_poll u) = Some (event_mask (current_events u))"
    using poll_invD(1) [OF p u] by (simp_all add: owns_handle_def)
qed

lemmas watcher_event_run = watcher_event_def io_event_wrapper_def io_event_def run_after run_gets run_uv_member call_fnptr_def
  ReadReadyCallback_def WriteReadyCallback_def run_unwrap call_handle_def call_js_def run_log js_handlers_def run_give

lemma watched_bits:
  "UV_WRITABLE AND UV_READABLE = 0" "UV_READABLE AND UV_WRITABLE = 0"
  "UV_WRITABLE \<noteq> 0" "UV_READABLE \<noteq> 0"
  by (simp_all add: UV_WRITABLE_def UV_READABLE_def)

lemma write_event:
  assumes "js_inv w" and "js_sockets w s = Some S" "wrap S = Some obj" and W: "wrappers w obj = Some W"
    and u: "pollers w (wpoller W) = Some (UvPoller u)"
  obtains n where "fn_objects w n = Some (OnSend s)"
    "run_state (watcher_event E (js_handlers E X) (uv_poll u) 0 UV_WRITABLE) w =
     run_state (after (onSend E X s) (\<lambda>_. give ())) (w\<lparr>trace := trace w @ [Ev_js n []]\<rparr>)"
proof -
  note h = served_handle [OF assms]
  obtain n where n: "onSendCallback W = Some n" "fn_objects w n = Some (OnSend s)" using h(2) by blast
  have "run_state (watcher_event E (js_handlers E X) (uv_poll u) 0 UV_WRITABLE) w =
     run_state (after (onSend E X s) (\<lambda>_. give ())) (w\<lparr>trace := trace w @ [Ev_js n []]\<rparr>)"
    using h(3-6) W n u by (simp add: watcher_event_run watched_bits split: prod.splits sum.splits)
  with n(2) show thesis by (rule that)
qed

lemma read_event:
  assumes "js_inv w" and "js_sockets w s = Some S" "wrap S = Some obj" and W: "wrappers w obj = Some W"
    and u: "pollers w (wpoller W) = Some (UvPoller u)"
  obtains n where "fn_objects w n = Some (OnRecv s)"
    "run_state (watcher_event E (js_handlers E X) (uv_poll u) 0 UV_READABLE) w =
     run_state (after (onRecv E X s) (\<lambda>_. give ())) (w\<lparr>trace := trace w @ [Ev_js n []]\<rparr>)"
proof -
  note h = served_handle [OF assms]
  obtain n where n: "onRecvCallback W = Some n" "fn_objects w n = Some (OnRecv s)" using h(1) by blast
  have "run_state (watcher_event E (js_handlers E X) (uv_poll u) 0 UV_READABLE) w =
     run_state (after (onRecv E X s) (\<lambda>_. give ())) (w\<lparr>trace := trace w @ [Ev_js n []]\<rparr>)"
    using h(3-6) W n u by (simp add: watcher_event_run watched_bits split: prod.splits sum.splits)
  with n(2) show thesis by (rule that)
qed

text \<open>An error of the watcher reaches \<open>onError\<close>.\<close>

lemma error_event:
  assumes i: "js_inv w" and S: "js_sockets w s = Some S" "wrap S = Some obj" and W: "wrappers w obj = Some W"
    and u: "pollers w (wpoller W) = Some (UvPoller u)" and "status \<noteq> 0"
  obtains n where "fn_objects w n = Some (OnError s)"
    "run_state (watcher_event E (js_handlers E X) (uv_poll u) status revents) w =
     run_state (after (emit X s ''error'' [JString (uv_strerror E status)]) (\<lambda>_. give ()))
       (w\<lparr>trace := trace w @ [Ev_js n [JString (uv_strerror E status)]]\<rparr>)"
proof -
  note h = served_handle [OF i S W u]
  have "wrap_links w" using i by (simp add: js_inv_def wrap_inv_def)
  then have e: "error_callback u = ErrorCallback_ptr" using wrap_linksD(1) W u by (fastforce simp: wf_wrapper_def)
  obtain n where n: "onErrorCallback W = Some n" "fn_objects w n = Some (OnError s)"
    using js_inv_socket [OF i S(1)] linkedD [of w s S obj] S(2) W by (auto simp: serves_def)
  have "run_state (watcher_event E (js_handlers E X) (uv_poll u) status revents) w =
     run_state (after (emit X s ''error'' [JString (uv_strerror E status)]) (\<lambda>_. give ()))
       (w\<lparr>trace := trace w @ [Ev_js n [JString (uv_strerror E status)]]\<rparr>)"
    using h(3,6) e W n u assms(6)
    by (simp add: watcher_event_run ErrorCallback_def onError_def arg_def split: prod.splits sum.splits)
  with n(2) show thesis by (rule that)
qed

lemma emit_unhandled:
  assumes "js_sockets w s = Some S" "''error'' \<notin> fst ` set (listeners S)"
  shows "run_state (emit X s ''error'' [v]) w = (Inl (case v of JError e \<Rightarrow> e | v \<Rightarrow> JS_Error (unhandled_text X v)), w)"
proof -
  have "filter (\<lambda>l. fst l = ''error'') (listeners S) = []" using assms(2) by (force simp: filter_empty_conv)
  then show ?thesis using assms(1) by (simp add: emit_def run_simps arg_def)
qed

text \<open>The calls of the user's functions in a history, with their arguments\<close>

definition is_user :: "(nat \<rightharpoonup> closure) \<Rightarrow> nat \<Rightarrow> bool" where
  "is_user fns f \<longleftrightarrow> (case fns f of Some (User _) \<Rightarrow> True | _ \<Rightarrow> False)"

lemma is_user_simps [simp]:
  "fns f = Some (User u) \<Longrightarrow> is_user fns f" "fns f = Some (OnSend s) \<Longrightarrow> \<not> is_user fns f"
  "fns f = None \<Longrightarrow> \<not> is_user fns f"
  by (simp_all add: is_user_def)

lemma is_user_other: "fns f = None \<Longrightarrow> (\<And>u. c \<noteq> User u) \<Longrightarrow> is_user (fns(f \<mapsto> c)) = is_user fns"
  by (auto simp: is_user_def fun_eq_iff split: closure.splits)

definition calls_of :: "(nat \<Rightarrow> bool) \<Rightarrow> history \<Rightarrow> (nat \<times> js_value list) list" where
  "calls_of P h = List.map_filter (\<lambda>ev. case ev of Ev_js f args \<Rightarrow> (if P f then Some (f, args) else None) | _ \<Rightarrow> None) h"

definition user_calls :: "(nat \<rightharpoonup> closure) \<Rightarrow> history \<Rightarrow> (nat \<times> js_value list) list" where
  "user_calls fns h = calls_of (is_user fns) h"

lemma user_calls_append [simp]: "user_calls fns (xs @ ys) = user_calls fns xs @ user_calls fns ys"
  by (simp add: user_calls_def calls_of_def List.map_filter_def)

fun is_js_call :: "event \<Rightarrow> bool" where
  "is_js_call (Ev_js _ _) = True"
| "is_js_call _ = False"

lemma user_calls_none: "list_all (\<lambda>e. \<not> is_js_call e) es \<Longrightarrow> user_calls fns es = []"
  by (induction es) (auto simp: user_calls_def calls_of_def List.map_filter_def split: event.splits)

lemma user_calls_js [simp]: "user_calls fns [Ev_js f args] = (if is_user fns f then [(f, args)] else [])"
  by (simp add: user_calls_def calls_of_def List.map_filter_def)

lemma user_calls_other: "fns f = None \<Longrightarrow> (\<And>u. c \<noteq> User u) \<Longrightarrow> user_calls (fns(f \<mapsto> c)) es = user_calls fns es"
  by (simp add: user_calls_def is_user_other)

text \<open>The frames handed to the kernel in a history, and the frame a request stands for\<close>

fun frame_sent :: "event \<Rightarrow> byte list option" where
  "frame_sent (Ev_sendto fd frame n fl ad k ret) = Some frame"
| "frame_sent _ = None"

definition sent_frames :: "history \<Rightarrow> byte list list" where
  "sent_frames h = List.map_filter frame_sent h"

lemma sent_frames_simps [simp]:
  "sent_frames [] = []" "sent_frames (xs @ ys) = sent_frames xs @ sent_frames ys"
  "sent_frames (e # es) = (case frame_sent e of Some frame \<Rightarrow> frame # sent_frames es | None \<Rightarrow> sent_frames es)"
  by (simp_all add: sent_frames_def List.map_filter_def split: option.split)

definition message_frames :: "(nat \<rightharpoonup> byte list) \<Rightarrow> socket \<Rightarrow> js_value \<Rightarrow> js_value \<Rightarrow> byte list list" where
  "message_frames h s message destination = (case (message, destination) of
     (JBuffer m n, JBuffer a k) \<Rightarrow> (if k \<noteq> ETHER_ADDR_LEN then [] else
        (case (mem_load h a k, mem_load h m n) of
          (Inr dst, Inr msg) \<Rightarrow> [encode_frame (message_frame s dst msg)]
        | _ \<Rightarrow> []))
   | _ \<Rightarrow> [])"

text \<open>A Buffer that JavaScript holds has its memory, and not more than a Buffer can have.\<close>

definition sound_value :: "'a world_scheme \<Rightarrow> js_value \<Rightarrow> bool" where
  "sound_value w v \<longleftrightarrow> (\<forall>p n. v = JBuffer p n \<longrightarrow> n < 2 ^ 30 \<and> (\<exists>bs. mem_load (heap w) p n = Inr bs))"

lemma sound_send_ready:
  assumes "wf_mem w" "wf_socket s" "\<And>h n. os_alloc E h n" "sound_value w (JBuffer m n)" "sound_value w (JBuffer a ETHER_ADDR_LEN)"
  shows "\<exists>dst msg. send_ready E w s a m (of_nat n) dst msg"
proof -
  have n: "n < 2 ^ 30" using assms(4) by (simp add: sound_value_def)
  then have u: "unat (of_nat n :: i32) = n" by (simp add: unsigned_of_nat take_bit_nat_eq_self)
  then have "0 \<le> sint (of_nat n :: i32)" using n by (simp add: sint32_nonneg)
  then show ?thesis using assms u by (simp add: send_ready_def sound_value_def)
qed

lemma Send_outcome:
  assumes W: "wrappers w obj = Some W" and wf: "wf_mem w" "wf_socket (wsocket W)" and alloc: "\<And>h n. os_alloc E h n"
    and sound: "sound_value w b" "sound_value w a"
  obtains es k where "list_all (\<lambda>e. \<not> is_js_call e) es" "next_blk w \<le> k"
    "sent_frames es = message_frames (heap w) (wsocket W) b a"
    "(\<exists>e. run_state (Send E js obj [b, a, JFunction f]) w = (Inl (JS_Error e), w\<lparr>trace := trace w @ es, next_blk := k\<rparr>) \<or>
        run_state (Send E js obj [b, a, JFunction f]) w = (Inl (JS_TypeError e), w\<lparr>trace := trace w @ es, next_blk := k\<rparr>)) \<or>
     (\<exists>n. run_state (Send E js obj [b, a, JFunction f]) w =
        run_state (after (call_js js f [js_int n]) (\<lambda>_. give JUndefined)) (w\<lparr>trace := trace w @ es, next_blk := k\<rparr>))"
proof (cases "\<exists>m n p. b = JBuffer m n \<and> a = JBuffer p ETHER_ADDR_LEN")
  case True
  then obtain m n p where v: "b = JBuffer m n" "a = JBuffer p ETHER_ADDR_LEN" by blast
  obtain dst msg where ready: "send_ready E w (wsocket W) p m (of_nat n) dst msg"
    using sound_send_ready [OF wf alloc sound [unfolded v]] by blast
  obtain r w1 where run: "run_state (send_message E (wsocket W) p m (of_nat n)) w = (r, w1)" by fastforce
  show thesis
  proof (rule send_message_cases [OF ready run], goal_cases)
    case (1 q ret)
    let ?es = "[Ev_alloc (of_nat (14 + unat (of_nat n :: i32))) q,
        Ev_sendto (socket_descriptor (wsocket W)) (encode_frame (message_frame (wsocket W) dst msg))
          (of_nat (14 + unat (of_nat n :: i32))) 0 (send_addr (wsocket W)) sizeof_sockaddr_ll ret, Ev_free q]"
    have w1: "w1 = w\<lparr>trace := trace w @ ?es, next_blk := Suc (next_blk w)\<rparr>" by (rule 1(1))
    have "list_all (\<lambda>e. \<not> is_js_call e) ?es" by simp
    moreover have "sent_frames ?es = message_frames (heap w) (wsocket W) b a"
      using ready sound by (simp add: v message_frames_def send_ready_def sound_value_def unsigned_of_nat take_bit_nat_eq_self)
    moreover have "r = Inr (of_nat n) \<or> (\<exists>e. r = Inl (Runtime_error e))" using 1(3) by auto
    then have "(\<exists>e. run_state (Send E js obj [b, a, JFunction f]) w = (Inl (JS_Error e), w1)) \<or>
        (\<exists>k. run_state (Send E js obj [b, a, JFunction f]) w = run_state (after (call_js js f [js_int k]) (\<lambda>_. give JUndefined)) w1)"
      using W run by (auto simp: Send_eq arg_def v run_after run_unwrap run_catch_std run_throw)
    ultimately show thesis using that [of ?es "Suc (next_blk w)"] unfolding w1 by (metis le_SucI order_refl)
  qed
next
  case False
  then have "\<exists>e. run_state (Send E js obj [b, a, JFunction f]) w = (Inl (JS_TypeError e), w)"
    using W by (cases b; cases a) (auto simp: Send_eq arg_def run_simps)
  moreover have "message_frames (heap w) (wsocket W) b a = []"
    using False by (auto simp: message_frames_def split: js_value.splits)
  ultimately show thesis using that [of "[]" "next_blk w"] by auto
qed

text \<open>User code that returns and leaves the program alone\<close>

definition idle_user :: "js_env \<Rightarrow> bool" where
  "idle_user X \<longleftrightarrow> (\<forall>u this args w. \<exists>v. run_state (user_code X u this args) w = (Inr v, w))"

text \<open>What a callback of \<open>send\<close> is told: \<open>null\<close> and the byte count, or an error and 0\<close>

definition is_answer :: "js_value list \<Rightarrow> bool" where
  "is_answer args \<longleftrightarrow> (\<exists>n. args = [JNull, js_int n]) \<or> (\<exists>e. args = [JError e, js_int 0])"

definition served :: "js_world \<Rightarrow> nat \<Rightarrow> js_socket \<Rightarrow> request \<Rightarrow> history \<Rightarrow> nat \<Rightarrow> js_world" where
  "served w s S req es k = w\<lparr>trace := trace w @ es, next_blk := k, js_sockets := (js_sockets w)(s \<mapsto> S),
     fn_objects := (fn_objects w)(next_fn w \<mapsto> SendCallback s req), next_fn := Suc (next_fn w)\<rparr>"

lemma call_value_idle:
  assumes "idle_user X" "fn_objects w g = Some (User u)"
  shows "\<exists>v. run_state (call_value X (JFunction g) this args) w = (Inr v, w\<lparr>trace := trace w @ [Ev_js g args]\<rparr>)"
  using assms by (auto simp: call_value_def run_simps idle_user_def)

lemma onSend_serves:
  assumes i: "js_inv w" and S: "js_sockets w s = Some S" "wrap S = Some obj" "requests S = req # rest"
    and W: "wrappers w obj = Some W" and mem: "wf_mem w" and alloc: "\<And>h n. os_alloc E h n"
    and sound: "sound_value w (buffer req)" "sound_value w (address req)"
    and cb: "afterCallback req = JFunction g" "fn_objects w g = Some (User u)" and X: "idle_user X"
  shows "\<exists>es k args. run_state (onSend E X s) w = (Inr JUndefined, served w s (S\<lparr>requests := rest\<rparr>) req es k) \<and>
    next_blk w \<le> k \<and> user_calls (fn_objects w) es = [(g, args)] \<and> is_answer args \<and>
    sent_frames es = message_frames (heap w) (wsocket W) (buffer req) (address req)"
proof -
  have wfs: "wf_socket (wsocket W)"
    using i wrap_linksD(1) [OF _ W] by (simp add: js_inv_def wrap_inv_def wf_wrapper_def)
  have g: "g \<noteq> next_fn w" "fn_objects w (next_fn w) = None"
    using i cb(2) by (auto simp: js_inv_def js_links_def)
  let ?w1 = "w\<lparr>js_sockets := (js_sockets w)(s \<mapsto> S\<lparr>requests := rest\<rparr>),
     fn_objects := (fn_objects w)(next_fn w \<mapsto> SendCallback s req), next_fn := Suc (next_fn w)\<rparr>"
  let ?send = "Send E (js_callbacks X) obj [buffer req, address req, JFunction (next_fn w)]"
  let ?answer = "\<lambda>error. after (call_value X (afterCallback req) (JInstance s) [JError error, js_int 0]) (\<lambda>_. give JUndefined)"
  have "wrappers ?w1 obj = Some W" "wf_mem ?w1" "sound_value ?w1 (buffer req)" "sound_value ?w1 (address req)"
    using W mem sound by (simp_all add: wf_mem_def sound_value_def)
  note pre = this
  have run: "run_state (onSend E X s) w = (case run_state ?send ?w1 of
      (Inl (JS_Error e), v) \<Rightarrow> run_state (?answer (JS_Error e)) v
    | (Inl (JS_TypeError e), v) \<Rightarrow> run_state (?answer (JS_TypeError e)) v
    | (Inl e, v) \<Rightarrow> (Inl e, v)
    | (Inr _, v) \<Rightarrow> (Inr JUndefined, v))"
    using S W by (auto simp: onSend_def run_simps call_wrap_def call_method_simps split: prod.splits sum.splits error.splits)
  show ?thesis
  proof (rule Send_outcome [OF pre(1,2) wfs alloc pre(3,4), of "js_callbacks X" "next_fn w"], goal_cases)
    case (1 es k)
    let ?v = "?w1\<lparr>trace := trace w @ es, next_blk := k\<rparr>"
    have fn: "fn_objects (?v\<lparr>trace := t\<rparr>) g = Some (User u)" "fn_objects ?v g = Some (User u)" for t using g cb(2) by simp_all
    have es: "user_calls (fn_objects w) es = []" using 1(1) by (rule user_calls_none)
    have sent: "sent_frames es = message_frames (heap w) (wsocket W) (buffer req) (address req)" using 1(3) by simp
    show ?case
    proof (cases "\<exists>n. run_state ?send ?w1 = run_state (after (call_js (js_callbacks X) (next_fn w) [js_int n]) (\<lambda>_. give JUndefined)) ?v")
      case True
      then obtain n where n: "run_state ?send ?w1 =
        run_state (after (call_js (js_callbacks X) (next_fn w) [js_int n]) (\<lambda>_. give JUndefined)) ?v" ..
      let ?es = "es @ [Ev_js (next_fn w) [js_int n], Ev_js g [JNull, js_int n]]"
      obtain x where x: "run_state (call_value X (JFunction g) (JInstance s) [JNull, js_int n]) (?v\<lparr>trace := trace w @ es @ [Ev_js (next_fn w) [js_int n]]\<rparr>) =
        (Inr x, ?v\<lparr>trace := trace w @ ?es\<rparr>)"
        using call_value_idle [OF X fn(1) [of "trace w @ es @ [Ev_js (next_fn w) [js_int n]]"], of "JInstance s" "[JNull, js_int n]"] by auto
      have "run_state ?send ?w1 = (Inr JUndefined, ?v\<lparr>trace := trace w @ ?es\<rparr>)"
        using x unfolding n by (simp add: call_js_def run_simps js_callbacks_def send_callback_def cb(1) arg_def)
      then have "run_state (onSend E X s) w = (Inr JUndefined, served w s (S\<lparr>requests := rest\<rparr>) req ?es k)"
        by (simp add: run served_def)
      moreover have "user_calls (fn_objects w) ?es = [(g, [JNull, js_int n])]"
        using g cb(2) es user_calls_append [of _ "[Ev_js (next_fn w) [js_int n]]" "[Ev_js g [JNull, js_int n]]"] by simp
      ultimately show ?thesis using 1(2) sent
        by (intro exI [of _ ?es] exI [of _ k] exI [of _ "[JNull, js_int n]"] conjI) (assumption | simp add: is_answer_def)+
    next
      case False
      then have f: "\<exists>t. run_state ?send ?w1 = (Inl (JS_Error t), ?v) \<or> run_state ?send ?w1 = (Inl (JS_TypeError t), ?v)"
        using 1(4) by simp
      obtain e where e: "run_state (onSend E X s) w = run_state (?answer e) ?v"
        using f by (auto simp: run)
      let ?es = "es @ [Ev_js g [JError e, js_int 0]]"
      have "run_state (onSend E X s) w = (Inr JUndefined, served w s (S\<lparr>requests := rest\<rparr>) req ?es k)"
        using call_value_idle [OF X fn(2), of "JInstance s" "[JError e, js_int 0]"]
        by (auto simp: e run_after run_give cb(1) served_def)
      moreover have "user_calls (fn_objects w) ?es = [(g, [JError e, js_int 0])]"
        using cb(2) es by simp
      ultimately show ?thesis using 1(2) sent
        by (intro exI [of _ ?es] exI [of _ k] exI [of _ "[JError e, js_int 0]"] conjI) (assumption | simp add: is_answer_def)+
    qed
  qed
qed

lemma served_simps [simp]:
  "trace (served w s S req es k) = trace w @ es" "heap (served w s S req es k) = heap w"
  "next_blk (served w s S req es k) = k" "pollers (served w s S req es k) = pollers w"
  "wrappers (served w s S req es k) = wrappers w" "js_sockets (served w s S req es k) = (js_sockets w)(s \<mapsto> S)"
  by (simp_all add: served_def)

lemma idle_upholds: "idle_user X \<Longrightarrow> user_upholds X"
  unfolding idle_user_def user_keeps_def upholds_def by (metis prod.inject)

definition callback_id :: "request \<Rightarrow> nat" where
  "callback_id req = (case afterCallback req of JFunction g \<Rightarrow> g | _ \<Rightarrow> 0)"

text \<open>A request as the user makes it: values of its own, a function of its own\<close>

definition sound_request :: "js_world \<Rightarrow> request \<Rightarrow> bool" where
  "sound_request w req \<longleftrightarrow> sound_value w (buffer req) \<and> sound_value w (address req) \<and>
     (\<exists>g u. afterCallback req = JFunction g \<and> fn_objects w g = Some (User u))"

text \<open>A socket that can serve its queue: every object it needs is there, its requests are sound.\<close>

definition ready_queue :: "js_world \<Rightarrow> nat \<Rightarrow> js_socket \<Rightarrow> nat \<Rightarrow> wrapper \<Rightarrow> uv_poller \<Rightarrow> bool" where
  "ready_queue w s S obj W u \<longleftrightarrow> js_inv w \<and> js_sockets w s = Some S \<and> wrap S = Some obj \<and> wrappers w obj = Some W \<and>
     pollers w (wpoller W) = Some (UvPoller u) \<and> wf_mem w \<and> list_all (sound_request w) (requests S)"

lemma ready_queueD:
  assumes "ready_queue w s S obj W u"
  shows "js_inv w" "js_sockets w s = Some S" "wrap S = Some obj" "wrappers w obj = Some W"
    "pollers w (wpoller W) = Some (UvPoller u)" "wf_mem w" "list_all (sound_request w) (requests S)"
  using assms by (simp_all add: ready_queue_def)

lemma ready_queueI:
  assumes "js_inv w" and "js_sockets w s = Some S" "wrap S = Some obj" "wrappers w obj = Some W"
    "pollers w (wpoller W) = Some (UvPoller u)" and "wf_mem w" and "list_all (sound_request w) (requests S)"
  shows "ready_queue w s S obj W u"
  using assms by (simp add: ready_queue_def)

text \<open>While requests are queued libuv is asked to watch for writability.\<close>

lemma ready_watching:
  assumes "ready_queue w s S obj W u"
  shows "watching (trace w) (uv_poll u) = Some (event_mask (current_events u))"
    "requests S \<noteq> [] \<Longrightarrow> current_events u = RW_EVENT"
proof -
  note q = ready_queueD [OF assms]
  show "watching (trace w) (uv_poll u) = Some (event_mask (current_events u))" by (rule served_handle(7) [OF q(1-5)])
  show "current_events u = RW_EVENT" if "requests S \<noteq> []"
  proof -
    have "awaits_writing w W" using js_inv_socket [OF q(1,2)] linkedD [of w s S obj] q(3,4) that by auto
    then show ?thesis using q(5) by (simp add: awaits_writing_def)
  qed
qed

text \<open>One writable event serves the head of the queue.\<close>

lemma serve_one:
  assumes q: "ready_queue w s S obj W u" and req: "requests S = req # rest"
    and alloc: "\<And>h n. os_alloc E h n" and X: "idle_user X"
  obtains w' es g args where
    "run_state (watcher_event E (js_handlers E X) (uv_poll u) 0 UV_WRITABLE) w = (Inr (), w')"
    "ready_queue w' s (S\<lparr>requests := rest\<rparr>) obj W u" "wrappers w' = wrappers w" "pollers w' = pollers w"
    "trace w' = trace w @ es" "user_calls (fn_objects w) es = [(g, args)]"
    "afterCallback req = JFunction g" "is_answer args" "user_calls (fn_objects w') = user_calls (fn_objects w)"
    "sent_frames es = message_frames (heap w) (wsocket W) (buffer req) (address req)" "heap w' = heap w"
proof -
  note i = ready_queueD(1) [OF q] and S = ready_queueD(2,3) [OF q] and W = ready_queueD(4) [OF q]
    and p = ready_queueD(5) [OF q] and mem = ready_queueD(6) [OF q] and sound = ready_queueD(7) [OF q]
  obtain n where n: "fn_objects w n = Some (OnSend s)"
    "run_state (watcher_event E (js_handlers E X) (uv_poll u) 0 UV_WRITABLE) w =
     run_state (after (onSend E X s) (\<lambda>_. give ())) (w\<lparr>trace := trace w @ [Ev_js n []]\<rparr>)"
    by (rule write_event [OF i S W p])
  let ?w0 = "w\<lparr>trace := trace w @ [Ev_js n []]\<rparr>" and ?S = "S\<lparr>requests := rest\<rparr>"
  have i0: "js_inv ?w0" by (rule js_inv_quiet [OF _ i]) (simp add: adds_def)
  have "sound_request w req" using sound req by simp
  then obtain g v where head: "sound_value ?w0 (buffer req)" "sound_value ?w0 (address req)"
    "afterCallback req = JFunction g" "fn_objects ?w0 g = Some (User v)"
    by (auto simp: sound_request_def sound_value_def)
  have S0: "js_sockets ?w0 s = Some S" "wf_mem ?w0" "wrappers ?w0 obj = Some W" using S W mem by (simp_all add: wf_mem_def)
  from onSend_serves [OF i0 S0(1) S(2) req S0(3,2) alloc head X]
  obtain es k args where run: "run_state (onSend E X s) ?w0 = (Inr JUndefined, served ?w0 s ?S req es k)"
    and k: "next_blk w \<le> k" and calls: "user_calls (fn_objects w) es = [(g, args)]" "is_answer args"
    and sent: "sent_frames es = message_frames (heap w) (wsocket W) (buffer req) (address req)"
    by auto
  let ?w1 = "served ?w0 s ?S req es k"
  have i1: "js_inv ?w1" using upholdsD [OF onSend_js [OF idle_upholds [OF X]] run i0] by simp
  have fresh: "fn_objects w (next_fn w) = None" using i by (auto simp: js_inv_def js_links_def)
  have fn: "fn_objects ?w1 = (fn_objects w)(next_fn w \<mapsto> SendCallback s req)" by (simp add: served_def)
  have sound1: "sound_request ?w1 r" if r: "sound_request w r" for r
  proof -
    have "fn_objects ?w1 g = Some (User u)" if "fn_objects w g = Some (User u)" for g u
      using that fresh by (auto simp: fn)
    with r show ?thesis unfolding sound_request_def sound_value_def by simp blast
  qed
  have "ready_queue ?w1 s ?S obj W u"
  proof (rule ready_queueI [OF i1])
    show "wf_mem ?w1" using mem k by (simp add: wf_mem_def)
    show "list_all (sound_request ?w1) (requests ?S)" using sound sound1 req by (auto simp: list_all_iff)
  qed (use S W p in simp_all)
  moreover have "user_calls (fn_objects ?w1) = user_calls (fn_objects w)"
    unfolding fn by (rule ext) (rule user_calls_other, rule fresh, simp)
  moreover have "run_state (watcher_event E (js_handlers E X) (uv_poll u) 0 UV_WRITABLE) w = (Inr (), ?w1)"
    by (simp add: n(2) run_after run run_give)
  moreover have "user_calls (fn_objects w) ([Ev_js n []] @ es) = [(g, args)]"
    using n(1) calls(1) unfolding user_calls_append by simp
  ultimately show thesis
    using that [of ?w1 "[Ev_js n []] @ es" g args] calls(2) head(3) sent by simp
qed

lemma drain:
  assumes "ready_queue w s S obj W u" and alloc: "\<And>h n. os_alloc E h n" and X: "idle_user X"
  shows "\<exists>w' es. run_state (each (\<lambda>_. watcher_event E (js_handlers E X) (uv_poll u) 0 UV_WRITABLE) (requests S)) w = (Inr (), w') \<and>
    trace w' = trace w @ es \<and> ready_queue w' s (S\<lparr>requests := []\<rparr>) obj W u \<and>
    list_all2 (\<lambda>req (g, args). afterCallback req = JFunction g \<and> is_answer args) (requests S) (user_calls (fn_objects w) es) \<and>
    sent_frames es = concat (map (\<lambda>req. message_frames (heap w) (wsocket W) (buffer req) (address req)) (requests S))"
  using assms(1)
proof (induction "requests S" arbitrary: w S)
  case Nil
  have eq: "S\<lparr>requests := []\<rparr> = S" using Nil.hyps by (cases S) simp
  have "ready_queue w s (S\<lparr>requests := []\<rparr>) obj W u" unfolding eq by (rule Nil.prems)
  with Nil.hyps [symmetric] show ?case
    by (intro exI [of _ w] exI [of _ "[]"]) (simp add: run_give user_calls_def calls_of_def List.map_filter_def)
next
  case (Cons req rest)
  note req = Cons.hyps(2) [symmetric]
  from serve_one [OF Cons.prems req alloc X] obtain w1 es g args where
    w1: "run_state (watcher_event E (js_handlers E X) (uv_poll u) 0 UV_WRITABLE) w = (Inr (), w1)"
      "ready_queue w1 s (S\<lparr>requests := rest\<rparr>) obj W u" "trace w1 = trace w @ es"
    and calls: "user_calls (fn_objects w) es = [(g, args)]" "afterCallback req = JFunction g" "is_answer args"
      "user_calls (fn_objects w1) = user_calls (fn_objects w)"
    and sent: "sent_frames es = message_frames (heap w) (wsocket W) (buffer req) (address req)" "heap w1 = heap w"
    by metis
  have "rest = requests (S\<lparr>requests := rest\<rparr>)" by simp
  from Cons.hyps(1) [OF this w1(2)] obtain w' es' where
    IH: "run_state (each (\<lambda>_. watcher_event E (js_handlers E X) (uv_poll u) 0 UV_WRITABLE) rest) w1 = (Inr (), w')"
      "trace w' = trace w1 @ es'" "ready_queue w' s (S\<lparr>requests := []\<rparr>) obj W u"
      "list_all2 (\<lambda>req (g, args). afterCallback req = JFunction g \<and> is_answer args) rest (user_calls (fn_objects w1) es')"
      "sent_frames es' = concat (map (\<lambda>req. message_frames (heap w1) (wsocket W) (buffer req) (address req)) rest)"
    by auto
  have "list_all2 (\<lambda>req (g, args). afterCallback req = JFunction g \<and> is_answer args) (requests S)
      (user_calls (fn_objects w) (es @ es'))"
    using IH(4) calls unfolding user_calls_append req by simp
  moreover have "run_state (each (\<lambda>_. watcher_event E (js_handlers E X) (uv_poll u) 0 UV_WRITABLE) (requests S)) w = (Inr (), w')"
    unfolding req by (simp add: run_after w1(1) IH(1))
  moreover have "sent_frames (es @ es') =
      concat (map (\<lambda>req. message_frames (heap w) (wsocket W) (buffer req) (address req)) (requests S))"
    unfolding req using IH(5) sent by simp
  ultimately show ?case
    using IH(2,3) w1(3) by (intro exI [of _ w'] exI [of _ "es @ es'"]) simp
qed

text \<open>With an empty queue the next event makes the socket stop watching for writability.\<close>

lemma watching_append: "watching (h @ es) = foldl watch_step (watching h) es"
  by (simp add: watching_def)

lemma pause_when_empty:
  assumes i: "js_inv w" and S: "js_sockets w s = Some S" "wrap S = Some obj" "requests S = []"
    and W: "wrappers w obj = Some W" and p: "pollers w (wpoller W) = Some (UvPoller u)"
  shows "\<exists>w'. run_state (watcher_event E (js_handlers E X) (uv_poll u) 0 UV_WRITABLE) w = (Inr (), w') \<and>
    watching (trace w') (uv_poll u) = Some UV_READABLE \<and> js_sockets w' = js_sockets w"
proof -
  obtain n where run: "run_state (watcher_event E (js_handlers E X) (uv_poll u) 0 UV_WRITABLE) w =
     run_state (after (onSend E X s) (\<lambda>_. give ())) (w\<lparr>trace := trace w @ [Ev_js n []]\<rparr>)"
    by (rule write_event [OF i S(1,2) W p])
  let ?w0 = "w\<lparr>trace := trace w @ [Ev_js n []]\<rparr>"
  have "watching (trace w) (uv_poll u) = Some (event_mask (current_events u))"
    by (rule served_handle(7) [OF i S(1,2) W p])
  then show ?thesis
    using S W p unfolding run
    by (auto simp: onSend_def run_simps call_wrap_def call_method_simps PauseSending_eq run_set_events_uv
        UV_READABLE_def watching_append split: if_splits)
qed

lemma queue_liveness:
  assumes i: "js_inv w" and S: "js_sockets w s = Some S" "wrap S = Some obj" "wrappers w obj = Some W"
    "pollers w (wpoller W) = Some (UvPoller u)"
    and mem: "wf_mem w" and alloc: "\<And>h n. os_alloc E h n" and X: "idle_user X"
    and sound: "list_all (sound_request w) (requests S)"
  shows "(requests S \<noteq> [] \<longrightarrow> watching (trace w) (uv_poll u) = Some (UV_READABLE OR UV_WRITABLE)) \<and>
    (\<exists>w' w'' es. run_state (each (\<lambda>_. watcher_event E (js_handlers E X) (uv_poll u) 0 UV_WRITABLE) (requests S)) w = (Inr (), w') \<and>
      trace w' = trace w @ es \<and> js_sockets w' s = Some (S\<lparr>requests := []\<rparr>) \<and>
      list_all2 (\<lambda>req (g, args). afterCallback req = JFunction g \<and> is_answer args) (requests S) (user_calls (fn_objects w) es) \<and>
      sent_frames es = concat (map (\<lambda>req. message_frames (heap w) (wsocket W) (buffer req) (address req)) (requests S)) \<and>
      run_state (watcher_event E (js_handlers E X) (uv_poll u) 0 UV_WRITABLE) w' = (Inr (), w'') \<and>
      watching (trace w'') (uv_poll u) = Some UV_READABLE)"
proof
  note q = ready_queueI [OF i S mem sound]
  show "requests S \<noteq> [] \<longrightarrow> watching (trace w) (uv_poll u) = Some (UV_READABLE OR UV_WRITABLE)"
    using ready_watching [OF q] by simp
  from drain [OF q alloc X] obtain w' es where
    run: "run_state (each (\<lambda>_. watcher_event E (js_handlers E X) (uv_poll u) 0 UV_WRITABLE) (requests S)) w = (Inr (), w')"
    "trace w' = trace w @ es" and q: "ready_queue w' s (S\<lparr>requests := []\<rparr>) obj W u" and calls:
    "list_all2 (\<lambda>req (g, args). afterCallback req = JFunction g \<and> is_answer args) (requests S) (user_calls (fn_objects w) es)"
    "sent_frames es = concat (map (\<lambda>req. message_frames (heap w) (wsocket W) (buffer req) (address req)) (requests S))"
    by blast
  note w' = ready_queueD [OF q]
  from pause_when_empty [OF w'(1-3) _ w'(4,5), of E X] obtain w'' where
    "run_state (watcher_event E (js_handlers E X) (uv_poll u) 0 UV_WRITABLE) w' = (Inr (), w'')"
    "watching (trace w'') (uv_poll u) = Some UV_READABLE" by auto
  with run w'(2) calls show "\<exists>w' w'' es. run_state (each (\<lambda>_. watcher_event E (js_handlers E X) (uv_poll u) 0 UV_WRITABLE) (requests S)) w = (Inr (), w') \<and>
      trace w' = trace w @ es \<and> js_sockets w' s = Some (S\<lparr>requests := []\<rparr>) \<and>
      list_all2 (\<lambda>req (g, args). afterCallback req = JFunction g \<and> is_answer args) (requests S) (user_calls (fn_objects w) es) \<and>
      sent_frames es = concat (map (\<lambda>req. message_frames (heap w) (wsocket W) (buffer req) (address req)) (requests S)) \<and>
      run_state (watcher_event E (js_handlers E X) (uv_poll u) 0 UV_WRITABLE) w' = (Inr (), w'') \<and>
      watching (trace w'') (uv_poll u) = Some UV_READABLE" by blast
qed

section \<open>A callback that throws\<close>

lemma Send_whole:
  assumes W: "wrappers w obj = Some W" and n: "14 + n < 2 ^ 31"
    and ready: "send_ready E w (wsocket W) a m (of_nat n) dst msg"
    and whole: "\<And>h fd buf k fl ad l. os_sendto E h fd buf k fl ad l = k"
  shows "\<exists>es k. run_state (Send E js obj [JBuffer m n, JBuffer a ETHER_ADDR_LEN, JFunction f]) w =
    run_state (after (call_js js f [js_int (int n)]) (\<lambda>_. give JUndefined)) (w\<lparr>trace := trace w @ es, next_blk := k\<rparr>)"
proof -
  have len: "unat (of_nat n :: i32) = n" using n by (simp add: unsigned_of_nat take_bit_nat_eq_self)
  have sint: "sint (of_nat n :: i32) = int n" using n by (simp only: sint32_unat len) simp
  obtain r w1 where run: "run_state (send_message E (wsocket W) a m (of_nat n)) w = (r, w1)" by fastforce
  show ?thesis
  proof (rule send_message_cases [OF ready run], goal_cases)
    case (1 p ret)
    have ret: "ret = of_nat (14 + n)" using 1(2) whole len by simp
    have u: "unat ret = 14 + n" using overall_length(2) [of "of_nat n"] n len by (simp only: ret)
    have "ret \<noteq> -1"
    proof
      assume "ret = -1"
      then have "unat ret = 2 ^ 64 - 1" by (simp add: unsigned_minus_1_eq_mask mask_eq_exp_minus_1)
      with u n show False by simp
    qed
    with u have "ret = -1 \<or> unat ret \<le> 14 + unat (of_nat n :: i32)" "\<not> unat ret < 14 + n" "ret \<noteq> -1"
      using len by simp_all
    with sent_whole [OF this(1)] have "r = Inr (of_nat n)" using 1(3) len n by (auto simp del: of_nat_add)
    with W run 1(1) show ?case
      by (intro exI) (simp add: Send_eq arg_def run_after run_unwrap run_catch_std sint)
  qed
qed

lemma throwing_callback:
  assumes S: "js_sockets w s = Some S" "wrap S = Some obj" "requests S = req # rest" and W: "wrappers w obj = Some W"
    and req: "buffer req = JBuffer m n" "address req = JBuffer a ETHER_ADDR_LEN" "afterCallback req = JFunction g"
      "fn_objects w g = Some (User u)" and g: "g \<noteq> next_fn w"
    and n: "14 + n < 2 ^ 31" and ready: "send_ready E w (wsocket W) a m (of_nat n) dst msg"
    and whole: "\<And>h fd buf k fl ad l. os_sendto E h fd buf k fl ad l = k"
    and throws: "\<And>v. run_state (user_code X u (JInstance s) [JNull, js_int (int n)]) v = (Inl (JS_Error t), v)"
  shows "\<exists>w1 es. trace w1 = trace w @ es \<and> Ev_js g [JNull, js_int (int n)] \<in> set es \<and>
    run_state (onSend E X s) w =
    run_state (after (call_value X (JFunction g) (JInstance s) [JError (JS_Error t), js_int 0]) (\<lambda>_. give JUndefined)) w1"
proof -
  let ?w1 = "w\<lparr>js_sockets := (js_sockets w)(s \<mapsto> S\<lparr>requests := rest\<rparr>),
     fn_objects := (fn_objects w)(next_fn w \<mapsto> SendCallback s req), next_fn := Suc (next_fn w)\<rparr>"
  have "send_ready E ?w1 (wsocket W) a m (of_nat n) dst msg" "wrappers ?w1 obj = Some W"
    using ready W by (simp_all add: send_ready_def wf_mem_def)
  from Send_whole [OF this(2) n this(1) whole, of "js_callbacks X" "next_fn w"] obtain es k where
    send: "run_state (Send E (js_callbacks X) obj [buffer req, address req, JFunction (next_fn w)]) ?w1 =
      run_state (after (call_js (js_callbacks X) (next_fn w) [js_int (int n)]) (\<lambda>_. give JUndefined))
        (?w1\<lparr>trace := trace ?w1 @ es, next_blk := k\<rparr>)" unfolding req by blast
  let ?es = "es @ [Ev_js (next_fn w) [js_int (int n)], Ev_js g [JNull, js_int (int n)]]"
  let ?v = "?w1\<lparr>trace := trace w @ ?es, next_blk := k\<rparr>"
  have "run_state (Send E (js_callbacks X) obj [buffer req, address req, JFunction (next_fn w)]) ?w1 = (Inl (JS_Error t), ?v)"
    unfolding send
    using g req by (simp add: call_js_def run_simps js_callbacks_def send_callback_def call_value_def arg_def throws)
  then have "run_state (onSend E X s) w =
    run_state (after (call_value X (JFunction g) (JInstance s) [JError (JS_Error t), js_int 0]) (\<lambda>_. give JUndefined)) ?v"
    using S W req(3) by (simp add: onSend_def run_simps call_wrap_def call_method_simps)
  then show ?thesis by (intro exI [of _ ?v] exI [of _ ?es]) simp
qed

text \<open>Without a callback the error of calling it leaves the handler, whatever became of the frame.\<close>

lemma Send_returns:
  assumes "run_state (Send E js obj [b, a, JFunction f]) w = (Inr x, w')"
  shows "\<exists>k w1 y. world.more w1 = world.more w \<and> run_state (js f [js_int k]) w1 = (Inr y, w')"
proof -
  obtain W m n p q where W: "wrappers w obj = Some W" "b = JBuffer m n" "a = JBuffer p q"
    using assms by (cases b; cases a; cases "wrappers w obj") (auto simp: Send_eq arg_def run_simps split: if_splits)
  obtain r w1 where run: "run_state (send_message E (wsocket W) p m (of_nat n)) w = (r, w1)" by fastforce
  have "world.more w1 = world.more w" using keepsD [OF send_message_quiet run] by (simp add: adds_def)
  with assms W run show ?thesis
    by (cases r) (auto simp: Send_eq arg_def run_simps call_js_def split: if_splits option.splits sum.splits prod.splits,
      rule exI, rule exI, rule conjI [rotated], rule exI, assumption, simp)
qed

lemma missing_callback:
  assumes S: "js_sockets w s = Some S" "requests S = req # rest" and none: "\<And>g. afterCallback req \<noteq> JFunction g"
  shows "\<exists>e. fst (run_state (onSend E X s) w) = Inl e"
proof -
  let ?w1 = "w\<lparr>js_sockets := (js_sockets w)(s \<mapsto> S\<lparr>requests := rest\<rparr>),
     fn_objects := (fn_objects w)(next_fn w \<mapsto> SendCallback s req), next_fn := Suc (next_fn w)\<rparr>"
  have call: "run_state (call_value X (afterCallback req) t args) v = (Inl (JS_TypeError ''not a function''), v)" for t args v
    using none by (auto simp: call_value_def run_throw split: js_value.splits)
  have no_return: "run_state (call_wrap E X s ''Send'' [buffer req, address req, JFunction (next_fn w)]) ?w1 \<noteq> (Inr x, w')" for x w'
  proof
    assume run: "run_state (call_wrap E X s ''Send'' [buffer req, address req, JFunction (next_fn w)]) ?w1 = (Inr x, w')"
    then obtain obj where "run_state (Send E (js_callbacks X) obj [buffer req, address req, JFunction (next_fn w)]) ?w1 = (Inr x, w')"
      by (cases "wrap S") (simp_all add: call_wrap_def run_simps call_method_simps)
    from Send_returns [OF this] obtain k v y where v: "world.more v = world.more ?w1"
      "run_state (js_callbacks X (next_fn w) [js_int k]) v = (Inr y, w')" by blast
    have "fn_objects v (next_fn w) = Some (SendCallback s req)"
      using js_more_eqD(2) [OF more_eqD(5) [OF v(1)]] by simp
    with v(2) show False
      by (simp add: js_callbacks_def run_simps send_callback_def call)
  qed
  obtain q v where q: "run_state (call_wrap E X s ''Send'' [buffer req, address req, JFunction (next_fn w)]) ?w1 = (q, v)"
    by fastforce
  with no_return obtain e where "q = Inl e" by (cases q) auto
  with q S show ?thesis
    by (cases e) (simp_all add: onSend_def run_simps call)
qed

section \<open>Receiving\<close>

definition address_text :: "byte list \<Rightarrow> string" where
  "address_text bs = insert_colons (to_hex bs)"

lemma run_buffer_to_hex:
  "heap w a = Some bs \<Longrightarrow> length bs = n \<Longrightarrow> n \<noteq> 0 \<Longrightarrow>
   run_state (buffer_to_hex (JBuffer (Ptr a 0) n)) w = (Inr (to_hex bs), w)"
  by (simp add: buffer_to_hex_def load_bytes_def run_after run_give)

lemma run_catch_js_more:
  "run_state m w = run_state m' w' \<Longrightarrow> run_state (catch_js m h) w = run_state (catch_js m' h) w'"
  by (simp add: run_catch_js)

lemma onRecv_cases:
  assumes S: "js_sockets w s = Some S" "wrap S = Some obj" and W: "wrappers w obj = Some W"
    and mem: "wf_mem w" and doc: "recvmsg_documented E"
    and payload: "\<And>h. fst (os_recvmsg E h (socket_descriptor (wsocket W)) (recv_hdr E h MAX_RECEIVE_BUFFER_SIZE) 0) \<noteq> -1 \<longrightarrow>
      14 < length (fst (snd (os_recvmsg E h (socket_descriptor (wsocket W)) (recv_hdr E h MAX_RECEIVE_BUFFER_SIZE) 0)))"
  shows "(\<exists>msg w1 h n. heap w1 = heap w \<and> js_sockets w1 = js_sockets w \<and>
       (unat n \<le> 2048 \<and> \<not> os_alloc E h n \<or> fst (os_recvmsg E h (socket_descriptor (wsocket W))
          (recv_hdr E h MAX_RECEIVE_BUFFER_SIZE) 0) = -1) \<and>
       run_state (onRecv E X s) w =
       run_state (after (emit X s ''error'' [JError (JS_Error msg)]) (\<lambda>_. give JUndefined)) w1) \<or>
    (\<exists>h frame sender c buf w1. os_recvmsg E h (socket_descriptor (wsocket W))
         (recv_hdr E h MAX_RECEIVE_BUFFER_SIZE) 0 = (of_nat (length frame), frame, sender) \<and>
       heap w1 c = Some buf \<and> take (length frame - 14) buf = drop 14 frame \<and> js_sockets w1 = js_sockets w \<and>
       ((\<exists>h p k. \<not> nan_new_buffer E h p k) \<and> run_state (onRecv E X s) w =
        run_state (after (emit X s ''error'' [JError (JS_Error ''Failed to create buffer object'')]) (\<lambda>_. give JUndefined)) w1 \<or>
        run_state (onRecv E X s) w =
        run_state (catch_js
         (after (emit X s ''message'' [JBuffer (Ptr c 0) (length frame - 14),
            JString (address_text (take 6 (overwrite (replicate 8 0) sender))), JString (address_text (take 6 frame))])
          (\<lambda>_. give JUndefined))
         (\<lambda>error. after (emit X s ''error'' [JError error]) (\<lambda>_. give JUndefined))) w1))"
proof -
  let ?w0 = "w\<lparr>fn_objects := (fn_objects w)(next_fn w \<mapsto> RecvCallback s), next_fn := Suc (next_fn w)\<rparr>"
  let ?js = "js_callbacks X"
  have pre: "wrappers ?w0 obj = Some W" "wf_mem ?w0" using W mem by (simp_all add: wf_mem_def)
  have onRecv: "run_state (onRecv E X s) w =
     run_state (catch_js (after (Receive E ?js obj [JFunction (next_fn w)]) (\<lambda>_. give JUndefined))
       (\<lambda>error. after (emit X s ''error'' [JError error]) (\<lambda>_. give JUndefined))) ?w0"
    using S by (simp add: onRecv_def run_catch_js run_after run_new_function call_wrap_def run_get_socket call_method_simps)
  show ?thesis
  proof (rule disjE [OF Receive_outcomes [OF pre doc payload, of ?js "next_fn w"]], goal_cases)
    case 1
    then obtain msg w' h n where r: "run_state (Receive E ?js obj [JFunction (next_fn w)]) ?w0 = (Inl (JS_Error msg), w')"
      and w': "heap w' = heap ?w0" "world.more w' = world.more ?w0"
      and why: "unat n \<le> 2048 \<and> \<not> os_alloc E h n \<or> fst (os_recvmsg E h (socket_descriptor (wsocket W))
          (recv_hdr E h MAX_RECEIVE_BUFFER_SIZE) 0) = -1" by blast
    have "js_sockets w' = js_sockets w" using js_more_eqD(1) [OF more_eqD(5) [OF w'(2)]] by simp
    then show ?thesis using r w'(1) why
      by (intro disjI1 exI [of _ msg] exI [of _ w'] exI [of _ h] exI [of _ n]) (simp add: onRecv run_catch_js run_after)
  next
    case 2
    then obtain h frame sender a b c buf w1 where os: "os_recvmsg E h (socket_descriptor (wsocket W))
         (recv_hdr E h MAX_RECEIVE_BUFFER_SIZE) 0 = (of_nat (length frame), frame, sender)" and long: "14 < length frame"
      and d: "distinct [a, b, c]"
      and hp: "heap w1 = (heap ?w0)(a \<mapsto> take 6 (overwrite (replicate 8 0) sender), b \<mapsto> take 6 frame, c \<mapsto> buf)"
      and buf: "take (length frame - 14) buf = drop 14 frame" and more: "world.more w1 = world.more ?w0"
      and r: "(\<exists>h p k. \<not> nan_new_buffer E h p k) \<and>
         run_state (Receive E ?js obj [JFunction (next_fn w)]) ?w0 = (Inl (JS_Error ''Failed to create buffer object''), w1) \<or>
       run_state (Receive E ?js obj [JFunction (next_fn w)]) ?w0 =
       run_state (after (call_js ?js (next_fn w) [JBuffer (Ptr a 0) 6, JBuffer (Ptr b 0) 6,
          JBuffer (Ptr c 0) (length frame - 14)]) (\<lambda>_. give JUndefined)) w1"
      by (elim exE conjE) (rule that; assumption)
    note js = js_more_eqD [OF more_eqD(5) [OF more]]
    show ?thesis using r
    proof (elim disjE conjE)
      assume no: "\<exists>h p k. \<not> nan_new_buffer E h p k"
        and r: "run_state (Receive E ?js obj [JFunction (next_fn w)]) ?w0 = (Inl (JS_Error ''Failed to create buffer object''), w1)"
      have "run_state (onRecv E X s) w =
        run_state (after (emit X s ''error'' [JError (JS_Error ''Failed to create buffer object'')]) (\<lambda>_. give JUndefined)) w1"
        by (simp add: onRecv run_catch_js run_after r)
      then show ?thesis using os buf hp js(1) no
        by - (rule disjI2, rule exI [of _ h], rule exI [of _ frame], rule exI [of _ sender], rule exI [of _ c], rule exI [of _ buf],
          rule exI [of _ w1], intro conjI disjI1, simp_all)
    next
      assume r: "run_state (Receive E ?js obj [JFunction (next_fn w)]) ?w0 =
       run_state (after (call_js ?js (next_fn w) [JBuffer (Ptr a 0) 6, JBuffer (Ptr b 0) 6,
          JBuffer (Ptr c 0) (length frame - 14)]) (\<lambda>_. give JUndefined)) w1"
      let ?args = "[JBuffer (Ptr a 0) 6, JBuffer (Ptr b 0) 6, JBuffer (Ptr c 0) (length frame - 14)]"
      let ?w2 = "w1\<lparr>trace := trace w1 @ [Ev_js (next_fn w) ?args]\<rparr>"
      let ?src = "take 6 (overwrite (replicate 8 0) sender)"
      have len: "length ?src = 6" "length (take 6 frame) = 6" using long by simp_all
      have fn: "fn_objects ?w2 (next_fn w) = Some (RecvCallback s)" using js(2) by simp
      have blocks: "heap ?w2 a = Some ?src" "heap ?w2 b = Some (take 6 frame)" using d hp by auto
      have "run_state (after (Receive E ?js obj [JFunction (next_fn w)]) (\<lambda>_. give JUndefined)) ?w0 =
        run_state (after (emit X s ''message'' [JBuffer (Ptr c 0) (length frame - 14),
              JString (address_text ?src), JString (address_text (take 6 frame))]) (\<lambda>_. give JUndefined)) ?w2"
        using fn run_buffer_to_hex [OF blocks(1) len(1)] run_buffer_to_hex [OF blocks(2) len(2)]
        by (simp add: r run_after run_give call_js_def run_log js_callbacks_def run_gets recv_callback_def arg_def
            address_text_def split: sum.splits prod.splits)
      from run_catch_js_more [OF this] show ?thesis
        unfolding onRecv using os buf hp js(1)
        by (intro disjI2 exI [of _ h] exI [of _ frame] exI [of _ sender] exI [of _ c] exI [of _ buf] exI [of _ ?w2] conjI disjI2)
             simp_all
    qed
  qed
qed

section \<open>Witnesses\<close>

text \<open>A user whose function 0 does nothing opens a socket, then sends an empty message.\<close>

definition sample_user :: js_env where
  "sample_user = \<lparr>user_code = (\<lambda>u this args. give JUndefined), to_number = (\<lambda>v. JNaN),
     object_bytes = (\<lambda>v. Inl ''addr.indexOf is not a function''),
     unhandled_text = (\<lambda>v. ''unspecified error'')\<rparr>"

definition empty_js_world :: js_world where
  "empty_js_world = wrap_world.extend empty_wrap_world
     \<lparr>js_sockets = Map.empty, fn_objects = [0 \<mapsto> User 0], next_fn = 1\<rparr>"

definition device_options :: js_value where
  "device_options = JObject [(''device'', JString ''rfm0'')]"

definition opened_js_world :: js_world where
  "opened_js_world = snd (run_state (openSocket sample_env sample_user device_options) empty_js_world)"

definition broadcast :: js_value where
  "broadcast = JArray (replicate 6 (js_int 255))"

definition queued_js_world :: js_world where
  "queued_js_world = snd (run_state (send sample_env sample_user 0 (JBuffer NULL 0) broadcast (JFunction 0)) opened_js_world)"

definition sample_request :: request where
  "sample_request = \<lparr>buffer = JBuffer NULL 0, address = JBuffer (Ptr 0 0) 6, afterCallback = JFunction 0\<rparr>"

definition sample_js_socket :: js_socket where
  "sample_js_socket = \<lparr>requests = [sample_request], wrap = Some 1, listeners = []\<rparr>"

definition sample_js_wrapper :: wrapper where
  "sample_js_wrapper = new_wrapper 1 2 3 sample_socket 2"

lemma sample_js_simps [simp]:
  "requests sample_js_socket = [sample_request]" "wrap sample_js_socket = Some 1" "wpoller sample_js_wrapper = 2"
  "wsocket sample_js_wrapper = sample_socket" "buffer sample_request = JBuffer NULL 0"
  "address sample_request = JBuffer (Ptr 0 0) ETHER_ADDR_LEN" "afterCallback sample_request = JFunction 0"
  by (simp_all add: sample_js_socket_def sample_request_def sample_js_wrapper_def new_wrapper_def ETHER_ADDR_LEN_def)

lemma empty_js_world_simps [simp]:
  "trace empty_js_world = []" "heap empty_js_world = Map.empty" "next_blk empty_js_world = 0"
  "pollers empty_js_world = Map.empty" "handles empty_js_world = Map.empty" "next_obj empty_js_world = 0"
  "wrappers empty_js_world = Map.empty" "js_sockets empty_js_world = Map.empty"
  "fn_objects empty_js_world = [0 \<mapsto> User 0]" "next_fn empty_js_world = 1"
  by (simp_all add: empty_js_world_def wrap_world.defs empty_wrap_world_def empty_poll_world_def poll_world.defs
      world.defs empty_world_def)

lemma sample_user_idle: "idle_user sample_user" "user_upholds sample_user"
  by (simp_all add: idle_user_def sample_user_def run_give user_keeps_def upholds_give)

lemma empty_reach: "js_reach sample_env sample_user empty_js_world"
  by (rule js_reach.start) (simp add: js_init_def wrap_init_def)

lemma opened:
  "run_state (openSocket sample_env sample_user device_options) empty_js_world = (Inr (JInstance 0), opened_js_world)"
  "js_sockets opened_js_world = [0 \<mapsto> \<lparr>requests = [], wrap = Some 1, listeners = []\<rparr>]"
  "wrappers opened_js_world = [1 \<mapsto> new_wrapper 1 2 3 sample_socket 2]"
  "pollers opened_js_world = [2 \<mapsto> UvPoller (new_uv_poller 1 3)]"
  "heap opened_js_world = Map.empty" "next_blk opened_js_world = 0"
  "fn_objects opened_js_world = [0 \<mapsto> User 0, 1 \<mapsto> OnRecv 0, 2 \<mapsto> OnSend 0, 3 \<mapsto> OnError 0]"
  "next_fn opened_js_world = 4"
proof -
  let ?w = "constructing empty_js_world" and ?o = "binding_options empty_js_world device_options"
  have opts: "options_ok (arg [?o] 0) ''rfm0'' 1 2 3"
    by (simp add: arg_def binding_options_ok device_options_def get_property_def)
  have c: "c_str ''rfm0'' = ''rfm0''" by (simp add: c_str_def)
  obtain t where "run_state (Socket_new sample_env ''rfm0'') (?w\<lparr>next_obj := 2\<rparr>) =
     (Inr sample_socket, ?w\<lparr>next_obj := 2, trace := t\<rparr>)"
    using sample_Socket_new [of "?w\<lparr>next_obj := 2\<rparr>"] by (auto simp: constructing_def)
  then have n: "run_state (New sample_env True [?o]) ?w = (Inr (JWrapped 1),
      ?w\<lparr>trace := t @ [Uv_poll_init 3 5, Uv_poll_start 3 UV_READABLE],
        pollers := [2 \<mapsto> UvPoller (new_uv_poller 1 3)], handles := [3 \<mapsto> 2], next_obj := 4,
        wrappers := [1 \<mapsto> new_wrapper 1 2 3 sample_socket 2]\<rparr>)"
    by (simp add: run_New [OF opts] run_catch_std run_after run_Wrapper_new [OF opts] c run_give numeral_eq_Suc
        get_descriptor_def sample_socket_def constructing_def)
  have r: "run_state (openSocket sample_env sample_user device_options) empty_js_world = (Inr (JInstance 0),
      ?w\<lparr>trace := t @ [Uv_poll_init 3 5, Uv_poll_start 3 UV_READABLE],
        pollers := [2 \<mapsto> UvPoller (new_uv_poller 1 3)], handles := [3 \<mapsto> 2], next_obj := 4,
        wrappers := [1 \<mapsto> new_wrapper 1 2 3 sample_socket 2],
        js_sockets := [0 \<mapsto> \<lparr>requests = [], wrap = Some 1, listeners = []\<rparr>]\<rparr>)"
    by (simp add: openSocket_def device_options_def [symmetric] run_after run_Socket_construct n run_give)
       (simp add: device_options_def truthy_def n [unfolded device_options_def] run_give constructing_def)
  then show "run_state (openSocket sample_env sample_user device_options) empty_js_world = (Inr (JInstance 0), opened_js_world)"
    by (simp add: opened_js_world_def)
  show "js_sockets opened_js_world = [0 \<mapsto> \<lparr>requests = [], wrap = Some 1, listeners = []\<rparr>]"
    "wrappers opened_js_world = [1 \<mapsto> new_wrapper 1 2 3 sample_socket 2]"
    "pollers opened_js_world = [2 \<mapsto> UvPoller (new_uv_poller 1 3)]"
    "heap opened_js_world = Map.empty" "next_blk opened_js_world = 0"
    "fn_objects opened_js_world = [0 \<mapsto> User 0, 1 \<mapsto> OnRecv 0, 2 \<mapsto> OnSend 0, 3 \<mapsto> OnError 0]"
    "next_fn opened_js_world = 4"
    by (simp_all add: opened_js_world_def r constructing_def numeral_eq_Suc)
qed

lemma opened_reach: "js_reach sample_env sample_user opened_js_world"
  by (rule js_reach.step [OF empty_reach]) (rule js_step.opened [OF opened(1)], simp)

lemma queued:
  "\<exists>r. run_state (send sample_env sample_user 0 (JBuffer NULL 0) broadcast (JFunction 0)) opened_js_world = (Inr r, queued_js_world)"
  "js_sockets queued_js_world = [0 \<mapsto> sample_js_socket]"
  "wrappers queued_js_world = [1 \<mapsto> sample_js_wrapper]"
  "pollers queued_js_world = [2 \<mapsto> UvPoller ((new_uv_poller 1 3)\<lparr>current_events := RW_EVENT\<rparr>)]"
  "heap queued_js_world = [0 \<mapsto> replicate 6 255]" "next_blk queued_js_world = 1"
  "fn_objects queued_js_world = [0 \<mapsto> User 0, 1 \<mapsto> OnRecv 0, 2 \<mapsto> OnSend 0, 3 \<mapsto> OnError 0]"
  "next_fn queued_js_world = 4"
proof -
  have o: "octet sample_user (js_int 255) = 255" by (simp add: octet_def)
  have p: "pollers (opened_js_world\<lparr>heap := h, next_blk := n, js_sockets := x\<rparr>) 2 = Some (UvPoller (new_uv_poller 1 3))" for h n x
    by (simp add: opened)
  show "\<exists>r. run_state (send sample_env sample_user 0 (JBuffer NULL 0) broadcast (JFunction 0)) opened_js_world = (Inr r, queued_js_world)"
    "js_sockets queued_js_world = [0 \<mapsto> sample_js_socket]"
    "wrappers queued_js_world = [1 \<mapsto> sample_js_wrapper]"
    "pollers queued_js_world = [2 \<mapsto> UvPoller ((new_uv_poller 1 3)\<lparr>current_events := RW_EVENT\<rparr>)]"
    "heap queued_js_world = [0 \<mapsto> replicate 6 255]" "next_blk queued_js_world = 1"
    "fn_objects queued_js_world = [0 \<mapsto> User 0, 1 \<mapsto> OnRecv 0, 2 \<mapsto> OnSend 0, 3 \<mapsto> OnError 0]"
    "next_fn queued_js_world = 4"
    unfolding queued_js_world_def sample_js_socket_def sample_request_def sample_js_wrapper_def
    by (simp_all add: send_def broadcast_def addressToBuffer_def new_Buffer_def o run_simps opened call_wrap_def
        call_method_simps ResumeSending_eq new_wrapper_def run_set_events_uv [OF p] new_uv_poller_def)
qed

lemma queued_reach: "js_reach sample_env sample_user queued_js_world"
proof -
  obtain r where "run_state (run_js_op sample_env sample_user 0 (Send_op (JBuffer NULL 0) broadcast (JFunction 0))) opened_js_world =
     (Inr r, queued_js_world)" using queued(1) by auto
  from js_step.called [OF this] show ?thesis by (rule js_reach.step [OF opened_reach]) simp
qed

lemma sample_js_inv: "js_inv empty_js_world" "js_inv opened_js_world" "js_inv queued_js_world"
  using js_reach_inv [OF sample_user_idle(2) sample_env_documented(1)] empty_reach opened_reach queued_reach by blast+

section \<open>Properties\<close>

text \<open>What the regular expression is for: pairs of characters with a colon between them\<close>

fun pairs :: "string \<Rightarrow> string list" where
  "pairs (a # b # c # d # rest) = [a, b] # pairs (c # d # rest)"
| "pairs s = [s]"

primrec join :: "string \<Rightarrow> string list \<Rightarrow> string" where
  "join sep [] = []"
| "join sep (p # ps) = (if ps = [] then p else p @ sep @ join sep ps)"

lemma pairs_not_Nil [simp]: "pairs s \<noteq> []"
  by (cases s rule: pairs.cases) simp_all

lemma insert_colons_join: "insert_colons s = join '':'' (pairs s)"
  by (induction s rule: pairs.induct) simp_all

lemma address_join: "insert_colons (to_hex bs) = join '':'' (map hex_pair bs)"
proof (induction bs)
  case (Cons b bs)
  then show ?case unfolding insert_colons_to_hex by simp
qed simp

text \<open>
  C38. The replacement by the regular expression equals its reference definition: any text is cut into
  pairs of characters, the last piece taking a third one if the length is odd, and joined by colons;
  of the bytes of an address each becomes two digits.
\<close>

theorem address_text_reference:
  "insert_colons s = join '':'' (pairs s) \<and> insert_colons (to_hex bs) = join '':'' (map hex_pair bs)"
  by (simp only: insert_colons_join [of s] address_join simp_thms)

text \<open>
  C21. Addresses survive the round trip through text: the string that the \<open>'message'\<close> event gives for
  the bytes of an address, converted back by \<open>send\<close>, \<open>joinMC\<close> or \<open>leaveMC\<close>, is a fresh Buffer of the
  same bytes.
\<close>

theorem address_roundtrip:
  assumes "2 \<le> length bs"
  shows "run_state (addressToBuffer X (JString (insert_colons (to_hex bs)))) w =
     (Inr (JBuffer (Ptr (next_blk w) 0) (length bs)),
      w\<lparr>heap := (heap w)(next_blk w \<mapsto> bs), next_blk := Suc (next_blk w)\<rparr>)"
  by (rule address_text_parses [OF assms])

theorem address_roundtrip_witness:
  "fst (run_state (addressToBuffer sample_user (JString (insert_colons (to_hex [0xde, 0xad, 0, 0, 0xbe, 0xef])))) empty_world)
     = Inr (JBuffer (Ptr 0 0) 6)"
  using address_roundtrip [of "[0xde, 0xad, 0, 0, 0xbe, 0xef]" sample_user empty_world] by (simp del: to_hex_simps)

text \<open>What users write for a byte: digits of either case, and one digit alone for a byte below 16\<close>

definition digits_of :: "bool \<Rightarrow> string" where
  "digits_of upper = (if upper then ''0123456789ABCDEF'' else ''0123456789abcdef'')"

definition spelled :: "bool \<times> bool \<times> bool \<Rightarrow> byte \<Rightarrow> string" where
  "spelled style b = (case style of (short, u, v) \<Rightarrow>
     if short \<and> unat b < 16 then [digits_of v ! (unat b mod 16)]
     else [digits_of u ! (unat b div 16), digits_of v ! (unat b mod 16)])"

lemma digits_of:
  assumes "d < 16"
  shows "hex_digit (digits_of u ! d) = Some d" "\<not> is_space (digits_of u ! d)" "digits_of u ! d \<noteq> CHR '':''"
    "digits_of u ! d \<notin> {CHR ''-'', CHR ''+'', CHR ''x'', CHR ''X''}"
proof -
  have all: "\<forall>u \<in> {True, False}. \<forall>d \<in> set [0..<16]. hex_digit (digits_of u ! d) = Some d \<and> \<not> is_space (digits_of u ! d) \<and>
    digits_of u ! d \<noteq> CHR '':'' \<and> digits_of u ! d \<notin> {CHR ''-'', CHR ''+'', CHR ''x'', CHR ''X''}"
    by code_simp
  have "u \<in> {True, False}" by (cases u) simp_all
  moreover have "d \<in> set [0..<16]" using assms by simp
  ultimately have "hex_digit (digits_of u ! d) = Some d \<and> \<not> is_space (digits_of u ! d) \<and>
    digits_of u ! d \<noteq> CHR '':'' \<and> digits_of u ! d \<notin> {CHR ''-'', CHR ''+'', CHR ''x'', CHR ''X''}"
    by (rule bspec [OF bspec [OF all]])
  then show "hex_digit (digits_of u ! d) = Some d" "\<not> is_space (digits_of u ! d)" "digits_of u ! d \<noteq> CHR '':''"
    "digits_of u ! d \<notin> {CHR ''-'', CHR ''+'', CHR ''x'', CHR ''X''}"
    by simp_all
qed

lemma parse_spelled: "parseInt16 (spelled style b) = JFinite (int (unat b)) 0" "CHR '':'' \<notin> set (spelled style b)"
proof -
  obtain short u v where style: "style = (short, u, v)" by (cases style)
  note h = digits_of [OF nibbles(1) [of b], of u] and l = digits_of [OF nibbles(2) [of b], of v]
  have "16 * (unat b div 16) + unat b mod 16 = unat b" "unat b < 2 ^ 53" using byte_less [of b] by simp_all
  moreover have "unat b mod 16 = unat b" if "unat b < 16" using that by simp
  ultimately show "parseInt16 (spelled style b) = JFinite (int (unat b)) 0"
    using h l by (auto simp: parseInt16_def parse_hex_digits_def spelled_def style double_of_nat_def Let_def)
  show "CHR '':'' \<notin> set (spelled style b)" using h(3) l(3) by (auto simp: spelled_def style)
qed

lemma octet_int: "octet X (js_int (uint b)) = b"
  unfolding octet_def by (simp, rule bit_word_eqI) (auto simp: bit_simps)

lemma split_spelled:
  "bs \<noteq> [] \<Longrightarrow> length styles = length bs \<Longrightarrow>
   split_colon (join '':'' (map2 spelled styles bs)) = map2 spelled styles bs"
proof (induction styles bs rule: list_induct2')
  case (4 style styles b bs)
  then show ?case
    by (cases "bs = []") (simp_all add: split_colon_plain split_colon_append parse_spelled(2))
qed simp_all

lemma colon_spelled:
  assumes "2 \<le> length bs" and "length styles = length bs"
  shows "CHR '':'' \<in> set (join '':'' (map2 spelled styles bs))"
proof -
  obtain x y r a b s where "styles = x # y # r" "bs = a # b # s"
    using assms by (cases styles; cases "tl styles"; cases bs; cases "tl bs") auto
  then show ?thesis by simp
qed

text \<open>
  C39. The forms in which a user may give an address of at least two bytes agree: as an array of numbers,
  and as a string of hexadecimal bytes between colons, with digits of either case in any mixture and with
  or without the zero before a single digit, it becomes the same fresh Buffer of these bytes; a Buffer is
  passed on as it is, without a copy.
\<close>

theorem address_forms_agree:
  assumes "2 \<le> length bs" and "length styles = length bs"
  shows "run_state (addressToBuffer X (JString (join '':'' (map2 spelled styles bs)))) w =
      (Inr (JBuffer (Ptr (next_blk w) 0) (length bs)),
       w\<lparr>heap := (heap w)(next_blk w \<mapsto> bs), next_blk := Suc (next_blk w)\<rparr>) \<and>
    run_state (addressToBuffer X (JArray (map (\<lambda>b. js_int (int (unat b))) bs))) w =
      (Inr (JBuffer (Ptr (next_blk w) 0) (length bs)),
       w\<lparr>heap := (heap w)(next_blk w \<mapsto> bs), next_blk := Suc (next_blk w)\<rparr>) \<and>
    run_state (addressToBuffer X (JBuffer p n)) w = (Inr (JBuffer p n), w)"
proof -
  have ne: "bs \<noteq> []" using assms(1) by auto
  have "map (\<lambda>v. octet X (JNumber (parseInt16 v))) (map2 spelled styles bs) = bs"
    using assms(2) by (induction styles bs rule: list_induct2) (simp_all add: parse_spelled(1) octet_int)
  moreover have "map (octet X) (map (\<lambda>b. js_int (int (unat b))) bs) = bs"
    by (induction bs) (simp_all add: octet_int)
  ultimately show ?thesis
    by (simp add: addressToBuffer_def new_Buffer_def colon_spelled [OF assms] split_spelled [OF ne assms(2)] run_give
        del: map_map)
qed

theorem address_forms_agree_witness:
  "fst (run_state (addressToBuffer sample_user (JString ''DE:aD:0:07'')) empty_world) = Inr (JBuffer (Ptr 0 0) 4)"
proof -
  have "join '':'' (map2 spelled [(False, True, True), (False, False, True), (True, False, False), (False, False, False)]
      [0xde, 0xad, 0, 7]) = ''DE:aD:0:07''"
    by (simp add: spelled_def digits_of_def)
  with address_forms_agree [of "[0xde, 0xad, 0, 7]"
      "[(False, True, True), (False, False, True), (True, False, False), (False, False, False)]" sample_user empty_world NULL 0]
  show ?thesis by simp
qed



text \<open>
  C2. In every world the event loop can reach, when the kernel gives new descriptors numbers that are
  not in use and the code of users keeps \<open>js_inv\<close> (code that acts by the methods of the sockets does), each
  socket that got its Node object is served by it on an open descriptor, closed or not, and the collector
  must keep that object.  As long as the socket is not closed (its poller is a \<open>UvPoller\<close>) and requests are
  queued, libuv is asked to watch for writability.  For a closed socket see C6.
\<close>

theorem reachable_sockets:
  assumes "user_upholds X" and "fresh_fds E" and "js_reach E X w"
    and "js_sockets w s = Some S" and "wrap S = Some obj"
  shows "\<exists>W x. wrappers w obj = Some W \<and> serves w s W \<and> retained w (JWrapped obj) \<and>
    get_descriptor (wsocket W) \<in> open_fds (trace w) \<and> pollers w (wpoller W) = Some x \<and>
    (\<forall>u. x = UvPoller u \<longrightarrow> requests S \<noteq> [] \<longrightarrow>
       watching (trace w) (uv_poll u) = Some (UV_READABLE OR UV_WRITABLE))"
  by (rule reach_served [OF assms])

theorem reachable_sockets_witness:
  "retained queued_js_world (JWrapped 1) \<and> watching (trace queued_js_world) 3 = Some (UV_READABLE OR UV_WRITABLE)"
  using reachable_sockets [OF sample_user_idle(2) sample_env_documented(1) queued_reach, of 0 sample_js_socket 1]
  by (simp add: queued new_uv_poller_def)

text \<open>
  C3. Liveness of the queue of a socket that is not closed, when every callback of a user returns without
  acting on the program, the queued values are sound (Buffers that have their memory, a function of the
  user as callback) and allocation does not fail.  While requests are queued libuv is asked to watch for
  writability.  One writable event for each of them calls their callbacks, each once and in the order of
  the calls of \<open>send\<close>, with \<open>null\<close> and a count or with an error and 0; in that order too, each message is
  handed to the kernel once, as one frame; the queue is then empty, and the next event stops the watch.
  (What a callback that throws or a closed socket changes is in C16 and C6.)
\<close>

theorem queue_served:
  assumes "js_inv w" and "js_sockets w s = Some S" and "wrap S = Some obj" and "wrappers w obj = Some W"
    and "pollers w (wpoller W) = Some (UvPoller u)" and "wf_mem w" and "\<And>h n. os_alloc E h n"
    and "idle_user X" and "list_all (sound_request w) (requests S)"
  shows "(requests S \<noteq> [] \<longrightarrow> watching (trace w) (uv_poll u) = Some (UV_READABLE OR UV_WRITABLE)) \<and>
    (\<exists>w' w'' es. run_state (each (\<lambda>_. watcher_event E (js_handlers E X) (uv_poll u) 0 UV_WRITABLE) (requests S)) w = (Inr (), w') \<and>
      trace w' = trace w @ es \<and> js_sockets w' s = Some (S\<lparr>requests := []\<rparr>) \<and>
      list_all2 (\<lambda>req (g, args). afterCallback req = JFunction g \<and> is_answer args) (requests S) (user_calls (fn_objects w) es) \<and>
      sent_frames es = concat (map (\<lambda>req. message_frames (heap w) (wsocket W) (buffer req) (address req)) (requests S)) \<and>
      run_state (watcher_event E (js_handlers E X) (uv_poll u) 0 UV_WRITABLE) w' = (Inr (), w'') \<and>
      watching (trace w'') (uv_poll u) = Some UV_READABLE)"
  by (rule queue_liveness [OF assms])

lemma sample_sound: "wf_mem queued_js_world"
  "sound_request queued_js_world sample_request"
  by (auto simp: wf_mem_def queued sound_request_def sound_value_def ETHER_ADDR_LEN_def)

theorem queue_served_witness:
  "\<exists>w'. run_state (watcher_event sample_env (js_handlers sample_env sample_user) 3 0 UV_WRITABLE) queued_js_world = (Inr (), w') \<and>
     js_sockets w' 0 = Some (sample_js_socket\<lparr>requests := []\<rparr>)"
proof -
  have "os_alloc sample_env h n" for h n by (simp add: sample_env_def)
  from queue_served [OF sample_js_inv(3), of 0 sample_js_socket 1 sample_js_wrapper "(new_uv_poller 1 3)\<lparr>current_events := RW_EVENT\<rparr>",
      OF _ _ _ _ sample_sound(1) this sample_user_idle(1)] sample_sound(2)
  show ?thesis by (auto simp: queued new_uv_poller_def run_after run_give split: prod.splits sum.splits)
qed

text \<open>
  C12. When the frames that \<open>recvmsg\<close> delivers are longer than the Ethernet header, the readable handler
  does one of three things.  It emits one \<open>'message'\<close> event with a Buffer over the payload and the texts
  of source and destination address, and what a listener throws becomes an \<open>'error'\<close> event.  If an
  allocation or the kernel fails it emits an \<open>'error'\<close> event instead, with no memory used; and so it
  does if \<open>NewBuffer\<close> refuses a Buffer for the payload or the addresses.
\<close>

theorem message_event:
  assumes "js_sockets w s = Some S" and "wrap S = Some obj" and "wrappers w obj = Some W"
    and "wf_mem w" and "recvmsg_documented E"
    and "\<And>h. fst (os_recvmsg E h (socket_descriptor (wsocket W)) (recv_hdr E h MAX_RECEIVE_BUFFER_SIZE) 0) \<noteq> -1 \<longrightarrow>
      14 < length (fst (snd (os_recvmsg E h (socket_descriptor (wsocket W)) (recv_hdr E h MAX_RECEIVE_BUFFER_SIZE) 0)))"
  shows "(\<exists>msg w1 h n. heap w1 = heap w \<and> js_sockets w1 = js_sockets w \<and>
       (unat n \<le> 2048 \<and> \<not> os_alloc E h n \<or> fst (os_recvmsg E h (socket_descriptor (wsocket W))
          (recv_hdr E h MAX_RECEIVE_BUFFER_SIZE) 0) = -1) \<and>
       run_state (onRecv E X s) w =
       run_state (after (emit X s ''error'' [JError (JS_Error msg)]) (\<lambda>_. give JUndefined)) w1) \<or>
    (\<exists>h frame sender c buf w1. os_recvmsg E h (socket_descriptor (wsocket W))
         (recv_hdr E h MAX_RECEIVE_BUFFER_SIZE) 0 = (of_nat (length frame), frame, sender) \<and>
       heap w1 c = Some buf \<and> take (length frame - 14) buf = drop 14 frame \<and> js_sockets w1 = js_sockets w \<and>
       ((\<exists>h p k. \<not> nan_new_buffer E h p k) \<and> run_state (onRecv E X s) w =
        run_state (after (emit X s ''error'' [JError (JS_Error ''Failed to create buffer object'')]) (\<lambda>_. give JUndefined)) w1 \<or>
        run_state (onRecv E X s) w =
        run_state (catch_js
         (after (emit X s ''message'' [JBuffer (Ptr c 0) (length frame - 14),
            JString (address_text (take 6 (overwrite (replicate 8 0) sender))), JString (address_text (take 6 frame))])
          (\<lambda>_. give JUndefined))
         (\<lambda>error. after (emit X s ''error'' [JError error]) (\<lambda>_. give JUndefined))) w1))"
  by (rule onRecv_cases [OF assms])

theorem message_event_witness:
  "fst (run_state (onRecv (delivering sample_frame) sample_user 0) opened_js_world) = Inr JUndefined"
proof -
  let ?E = "delivering sample_frame" and ?S = "\<lparr>requests = [], wrap = Some 1, listeners = []\<rparr> :: js_socket"
  have len: "length sample_frame = 16" by (simp add: sample_frame_def)
  note frame = delivering(4) [of sample_frame, unfolded len]
  have mem: "wf_mem opened_js_world" by (simp add: wf_mem_def opened)
  have W: "wrappers opened_js_world 1 = Some sample_js_wrapper" by (simp add: opened sample_js_wrapper_def)
  have ok: "fst (os_recvmsg ?E h (socket_descriptor sample_socket) (recv_hdr ?E h MAX_RECEIVE_BUFFER_SIZE) 0) \<noteq> -1" for h
    by (rule delivering_ok) (simp add: len)
  from message_event [of opened_js_world 0 ?S 1 sample_js_wrapper ?E sample_user, OF _ _ W mem delivering(1)]
  show ?thesis
  proof (elim disjE exE conjE meta_impE, goal_cases)
    case (4 msg w1 h n)
    then show ?case by (simp add: delivering(3))
  next
    case (5 msg w1 h n)
    with ok show ?case by simp
  next
    case (6 h fr sender c buf w1 h' p k)
    then show ?case by (simp add: delivering(2))
  next
    case (7 h fr sender c buf w1)
    then show ?case by (simp add: run_simps emit_def opened Let_def)
  qed (simp_all add: frame opened)
qed

text \<open>
  C13. An error that libuv reports for the handle of a socket becomes one \<open>'error'\<close> event with libuv's
  text, a string and no \<open>Error\<close>; no handler for frames is called, whatever events come with it.  Without a
  listener the event is thrown into the event loop.
\<close>

theorem poll_error_event:
  assumes "js_inv w" and "js_sockets w s = Some S" and "wrap S = Some obj" and "wrappers w obj = Some W"
    and "pollers w (wpoller W) = Some (UvPoller u)" and "status \<noteq> 0"
  shows "\<exists>n. fn_objects w n = Some (OnError s) \<and>
    run_state (watcher_event E (js_handlers E X) (uv_poll u) status revents) w =
    run_state (after (emit X s ''error'' [JString (uv_strerror E status)]) (\<lambda>_. give ()))
      (w\<lparr>trace := trace w @ [Ev_js n [JString (uv_strerror E status)]]\<rparr>) \<and>
    (''error'' \<notin> fst ` set (listeners S) \<longrightarrow>
      run_state (watcher_event E (js_handlers E X) (uv_poll u) status revents) w =
      (Inl (JS_Error (unhandled_text X (JString (uv_strerror E status)))),
        w\<lparr>trace := trace w @ [Ev_js n [JString (uv_strerror E status)]]\<rparr>))"
proof -
  obtain n where n: "fn_objects w n = Some (OnError s)"
    "run_state (watcher_event E (js_handlers E X) (uv_poll u) status revents) w =
     run_state (after (emit X s ''error'' [JString (uv_strerror E status)]) (\<lambda>_. give ()))
       (w\<lparr>trace := trace w @ [Ev_js n [JString (uv_strerror E status)]]\<rparr>)"
    by (rule error_event [OF assms])
  show ?thesis
    using n(1) by (intro exI [of _ n]) (simp add: n(2) run_after emit_unhandled [of _ s S] assms(2))
qed

theorem poll_error_event_witness:
  "\<exists>w'. run_state (watcher_event sample_env (js_handlers sample_env sample_user) 3 (-9) 0) queued_js_world =
    (Inl (JS_Error ''unspecified error''), w')"
  using poll_error_event [OF sample_js_inv(3), of 0 sample_js_socket 1 sample_js_wrapper
      "(new_uv_poller 1 3)\<lparr>current_events := RW_EVENT\<rparr>" "-9" sample_env sample_user 0]
  by (auto simp: queued new_uv_poller_def sample_js_socket_def sample_user_def)

text \<open>
  C16. A callback of \<open>send\<close> that throws when it is told of success is called a second time, with its own
  error as the reason and 0 bytes, although the kernel has taken the whole frame.
\<close>

theorem callback_called_twice:
  assumes "js_sockets w s = Some S" and "wrap S = Some obj" and "requests S = req # rest" and "wrappers w obj = Some W"
    and "buffer req = JBuffer m n" and "address req = JBuffer a ETHER_ADDR_LEN" and "afterCallback req = JFunction g"
    and "fn_objects w g = Some (User u)" and "g \<noteq> next_fn w"
    and "14 + n < 2 ^ 31" and "send_ready E w (wsocket W) a m (of_nat n) dst msg"
    and "\<And>h fd buf k fl ad l. os_sendto E h fd buf k fl ad l = k"
    and "\<And>v. run_state (user_code X u (JInstance s) [JNull, js_int (int n)]) v = (Inl (JS_Error t), v)"
  shows "\<exists>w1 es. trace w1 = trace w @ es \<and> Ev_js g [JNull, js_int (int n)] \<in> set es \<and>
    run_state (onSend E X s) w =
    run_state (after (call_value X (JFunction g) (JInstance s) [JError (JS_Error t), js_int 0]) (\<lambda>_. give JUndefined)) w1"
  by (rule throwing_callback [OF assms])

definition throwing_user :: js_env where
  "throwing_user = sample_user\<lparr>user_code := (\<lambda>u this args. if arg args 0 = JNull then throw (JS_Error ''mine'') else give JUndefined)\<rparr>"

theorem callback_called_twice_witness:
  "\<exists>w1 es. trace w1 = trace queued_js_world @ es \<and> Ev_js 0 [JNull, js_int 0] \<in> set es \<and>
     run_state (onSend sample_env throwing_user 0) queued_js_world =
     run_state (after (call_value throwing_user (JFunction 0) (JInstance 0) [JError (JS_Error ''mine''), js_int 0]) (\<lambda>_. give JUndefined)) w1"
proof -
  have ready: "send_ready sample_env queued_js_world (wsocket sample_js_wrapper) (Ptr 0 0) NULL (of_nat 0) (replicate 6 255) []"
    using sample_sound(1) by (simp add: send_ready_def wf_socket_def sample_socket_def ETHER_ADDR_LEN_def queued sample_env_def)
  show ?thesis
    using callback_called_twice [of queued_js_world 0 sample_js_socket 1 sample_request "[]" sample_js_wrapper NULL 0 "Ptr 0 0" 0 0
        sample_env "replicate 6 255" "[]" throwing_user "''mine''", OF _ _ _ _ _ _ _ _ _ _ ready]
    by (simp add: queued sample_env_def throwing_user_def arg_def run_throw)
qed

end
