(* ===== verification/Js_Socket_Traffic.thy ===== *)
theory Js_Socket_Traffic
  imports Js_Socket_Methods
begin

text \<open>
  The program from one end to the other: the loop of libuv on a writable descriptor, which ends when
  the queue is empty, and the messages of a queue on their way to the \<open>'message'\<close> events of another
  socket, in order, through every layer of both programs.  The properties and their witnesses are at the end.
\<close>

section \<open>The loop of libuv on a writable descriptor\<close>

text \<open>
  While a handle is watched for writability and the descriptor stays writable, libuv calls its
  callback again and again.  One round of that loop, from the world before to the world after:
\<close>

definition watches_writing :: "js_world \<Rightarrow> nat \<Rightarrow> bool" where
  "watches_writing w h \<longleftrightarrow> (case watching (trace w) h of Some m \<Rightarrow> m AND UV_WRITABLE \<noteq> 0 | None \<Rightarrow> False)"

definition write_round :: "env \<Rightarrow> js_env \<Rightarrow> nat \<Rightarrow> js_world \<Rightarrow> js_world \<Rightarrow> bool" where
  "write_round E X h w w' \<longleftrightarrow> watches_writing w h \<and>
     run_state (watcher_event E (js_handlers E X) h 0 UV_WRITABLE) w = (Inr (), w')"

lemma write_round_unique: "write_round E X h w w1 \<Longrightarrow> write_round E X h w w2 \<Longrightarrow> w1 = w2"
  by (simp add: write_round_def)

text \<open>A deterministic relation with one step from \<open>x\<close> to \<open>y\<close>\<close>

lemma only_step:
  assumes step: "r x y" and only: "\<forall>z. r x z \<longrightarrow> z = y"
  shows "termip r y \<Longrightarrow> termip r x" "(\<And>m z. (r ^^ m) y z \<Longrightarrow> m \<le> k) \<Longrightarrow> (r ^^ n) x z \<Longrightarrow> n \<le> Suc k"
    "(r ^^ n) y z \<Longrightarrow> (r ^^ Suc n) x z"
proof -
  show "termip r x" if "termip r y" by (rule accp.accI) (use that only in auto)
  show "n \<le> Suc k" if k: "\<And>m z. (r ^^ m) y z \<Longrightarrow> m \<le> k" and n: "(r ^^ n) x z"
  proof (cases n)
    case (Suc m)
    with n have "(r ^^ Suc m) x z" by simp
    then obtain y' where "r x y'" "(r ^^ m) y' z" by (rule relpowp_Suc_E2)
    with only have "(r ^^ m) y z" by simp
    from k [OF this] show ?thesis unfolding Suc by simp
  qed simp
  show "(r ^^ Suc n) x z" if "(r ^^ n) y z" using step that by (rule relpowp_Suc_I2)
qed

lemma quiet_loop:
  assumes "\<not> watches_writing w h"
  shows "termip (write_round E X h) w" "(write_round E X h ^^ n) w w' \<Longrightarrow> n = 0"
proof -
  have none: "\<not> write_round E X h w y" for y using assms by (simp add: write_round_def)
  show "termip (write_round E X h) w" by (rule accp.accI) (simp add: none)
  show "n = 0" if n: "(write_round E X h ^^ n) w w'"
  proof (cases n)
    case (Suc m)
    with n have "(write_round E X h ^^ Suc m) w w'" by simp
    then obtain y where "write_round E X h w y" by (rule relpowp_Suc_E2)
    with none show ?thesis by simp
  qed simp
qed

definition finished_writing :: "js_world \<Rightarrow> nat \<Rightarrow> nat \<Rightarrow> bool" where
  "finished_writing w s h \<longleftrightarrow> (\<exists>S. js_sockets w s = Some S \<and> requests S = []) \<and> \<not> watches_writing w h"

lemma write_loop:
  assumes q: "ready_queue w s S obj W u" and alloc: "\<And>h n. os_alloc E h n" and X: "idle_user X"
    and busy: "watches_writing w (uv_poll u)"
  shows "termip (write_round E X (uv_poll u)) w \<and>
    (\<forall>n w'. (write_round E X (uv_poll u) ^^ n) w w' \<longrightarrow> n \<le> Suc (length (requests S))) \<and>
    (\<exists>w'. (write_round E X (uv_poll u) ^^ Suc (length (requests S))) w w' \<and> finished_writing w' s (uv_poll u))"
  using q busy
proof (induction "requests S" arbitrary: w S)
  case Nil
  note q = ready_queueD [OF Nil.prems(1)]
  from pause_when_empty [OF q(1-3) Nil.hyps [symmetric] q(4,5), of E X] obtain w1 where
    w1: "run_state (watcher_event E (js_handlers E X) (uv_poll u) 0 UV_WRITABLE) w = (Inr (), w1)"
      "watching (trace w1) (uv_poll u) = Some UV_READABLE" "js_sockets w1 = js_sockets w" by blast
  have step: "write_round E X (uv_poll u) w w1" using w1(1) Nil.prems(2) by (simp add: write_round_def)
  have quiet: "\<not> watches_writing w1 (uv_poll u)"
    using w1(2) by (simp add: watches_writing_def UV_READABLE_def UV_WRITABLE_def)
  have "\<forall>z. write_round E X (uv_poll u) w z \<longrightarrow> z = w1" using write_round_unique [OF _ step] by simp
  note only = only_step [of "write_round E X (uv_poll u)", OF step this]
  have "termip (write_round E X (uv_poll u)) w" by (rule only(1)) (rule quiet_loop(1) [OF quiet])
  moreover have "n \<le> Suc 0" if "(write_round E X (uv_poll u) ^^ n) w w'" for n w'
    by (rule only(2) [OF _ that]) (drule quiet_loop(2) [OF quiet], simp)
  moreover have "finished_writing w1 s (uv_poll u)" 
    using w1(3) quiet q(2) Nil.hyps by (simp add: finished_writing_def)
  moreover have "(write_round E X (uv_poll u) ^^ Suc 0) w w1" using step by (simp add: OO_def)
  ultimately show ?case unfolding Nil.hyps [symmetric] list.size by blast
next
  case (Cons req rest)
  note req = Cons.hyps(2) [symmetric]
  let ?S = "S\<lparr>requests := rest\<rparr>"
  obtain w1 where w1: "run_state (watcher_event E (js_handlers E X) (uv_poll u) 0 UV_WRITABLE) w = (Inr (), w1)"
      "ready_queue w1 s ?S obj W u"
    by (rule serve_one [OF Cons.prems(1) req alloc X])
  have step: "write_round E X (uv_poll u) w w1" using w1(1) Cons.prems(2) by (simp add: write_round_def)
  have "\<forall>z. write_round E X (uv_poll u) w z \<longrightarrow> z = w1" using write_round_unique [OF _ step] by simp
  note only = only_step [of "write_round E X (uv_poll u)", OF step this]
  have "current_events u = RW_EVENT" using ready_watching(2) [OF Cons.prems(1)] req by simp
  then have busy: "watches_writing w1 (uv_poll u)"
    using ready_watching(1) [OF w1(2)] by (simp add: watches_writing_def UV_READABLE_def UV_WRITABLE_def)
  have rest: "rest = requests ?S" by simp
  note IH = Cons.hyps(1) [OF this w1(2) busy, folded rest]
  have "termip (write_round E X (uv_poll u)) w" by (rule only(1)) (rule IH [THEN conjunct1])
  moreover have "n \<le> Suc (length (requests S))" if "(write_round E X (uv_poll u) ^^ n) w w'" for n w'
    unfolding req list.size add_Suc_right add_0_right
    by (rule only(2) [OF _ that]) (rule IH [THEN conjunct2, THEN conjunct1, rule_format])
  moreover obtain w' where "(write_round E X (uv_poll u) ^^ Suc (length rest)) w1 w'" "finished_writing w' s (uv_poll u)"
    using IH by blast
  then have "\<exists>w'. (write_round E X (uv_poll u) ^^ Suc (length (requests S))) w w' \<and> finished_writing w' s (uv_poll u)"
    unfolding req list.size add_Suc_right add_0_right by (blast intro: only(3))
  ultimately show ?case by blast
qed

lemma rounds_end:
  assumes q: "ready_queue w s S obj W u" and alloc: "\<And>h n. os_alloc E h n" and X: "idle_user X"
  shows "termip (write_round E X (uv_poll u)) w \<and>
    (\<forall>n w'. (write_round E X (uv_poll u) ^^ n) w w' \<longrightarrow> n \<le> Suc (length (requests S))) \<and>
    (\<exists>n w'. n = (if watches_writing w (uv_poll u) then Suc (length (requests S)) else 0) \<and>
      (write_round E X (uv_poll u) ^^ n) w w' \<and> finished_writing w' s (uv_poll u))"
proof (cases "watches_writing w (uv_poll u)")
  case True
  show ?thesis using write_loop [OF q alloc X True] unfolding if_P [OF True] by blast
next
  case False
  have "requests S = []"
  proof (rule ccontr)
    assume "requests S \<noteq> []"
    with ready_watching [OF q] have "watching (trace w) (uv_poll u) = Some (UV_READABLE OR UV_WRITABLE)" by simp
    with False show False by (simp add: watches_writing_def UV_READABLE_def UV_WRITABLE_def)
  qed
  then have "finished_writing w s (uv_poll u)" using ready_queueD(2) [OF q] False by (simp add: finished_writing_def)
  moreover have "n \<le> Suc (length (requests S))" if "(write_round E X (uv_poll u) ^^ n) w w'" for n w'
    using quiet_loop(2) [OF False that] by simp
  ultimately show ?thesis using quiet_loop(1) [OF False] False by auto
qed

section \<open>From one socket to another\<close>

lemma frame_parts:
  assumes "length dst = ETHER_ADDR_LEN" "wf_socket s"
  shows "length (encode_frame (message_frame s dst msg)) = 14 + length msg"
    "take 6 (encode_frame (message_frame s dst msg)) = dst"
    "drop 14 (encode_frame (message_frame s dst msg)) = msg"
  using assms by (simp_all add: encode_frame_def message_frame_def wf_socket_def ETHER_ADDR_LEN_def)

text \<open>The frames a descriptor has given, and a kernel that gives frames of one sender in order after the first \<open>k\<close>\<close>

fun frame_taken :: "i32 \<Rightarrow> event \<Rightarrow> bool" where
  "frame_taken fd (Ev_recvmsg fd' m fl r) = (fd' = fd)"
| "frame_taken fd _ = False"

definition frames_taken :: "i32 \<Rightarrow> history \<Rightarrow> nat" where
  "frames_taken fd h = length (filter (frame_taken fd) h)"

lemma frames_taken_simps [simp]:
  "frames_taken fd [] = 0" "frames_taken fd (xs @ ys) = frames_taken fd xs + frames_taken fd ys"
  "frames_taken fd (e # es) = (if frame_taken fd e then Suc (frames_taken fd es) else frames_taken fd es)"
  by (simp_all add: frames_taken_def)

definition gives_in_order :: "env \<Rightarrow> i32 \<Rightarrow> nat \<Rightarrow> byte list list \<Rightarrow> byte list \<Rightarrow> bool" where
  "gives_in_order E fd k frames sender \<longleftrightarrow> (\<forall>h i. frames_taken fd h = k + i \<longrightarrow> i < length frames \<longrightarrow>
     os_recvmsg E h fd (recv_hdr E h MAX_RECEIVE_BUFFER_SIZE) 0 = (of_nat (length (frames ! i)), frames ! i, sender))"

lemma gives_Cons:
  assumes "gives_in_order E fd k (frame # frames) sender"
  shows "frames_taken fd h = k \<Longrightarrow>
      os_recvmsg E h fd (recv_hdr E h MAX_RECEIVE_BUFFER_SIZE) 0 = (of_nat (length frame), frame, sender)"
    "gives_in_order E fd (Suc k) frames sender"
proof -
  show "os_recvmsg E h fd (recv_hdr E h MAX_RECEIVE_BUFFER_SIZE) 0 = (of_nat (length frame), frame, sender)"
    if "frames_taken fd h = k"
    using assms [unfolded gives_in_order_def, rule_format, of h 0] that by simp
  show "gives_in_order E fd (Suc k) frames sender"
    unfolding gives_in_order_def using assms [unfolded gives_in_order_def, rule_format, of _ "Suc _"] by simp
qed

abbreviation inner_event :: "i32 \<Rightarrow> event \<Rightarrow> bool" where
  "inner_event fd e \<equiv> \<not> is_js_call e \<and> \<not> frame_taken fd e"

lemma frames_taken_inner: "list_all (inner_event fd) es \<Longrightarrow> frames_taken fd es = 0 \<and> list_all (\<lambda>e. \<not> is_js_call e) es"
  by (induction es) simp_all

lemma Receive_buffers_inner: "keeps (adds (inner_event fd)) (Receive_buffers E)"
  unfolding Receive_buffers_def by (intro keeps_rules adds_trans adds_refl) auto

text \<open>One call of \<open>Receive\<close> on such a descriptor, up to the call of its callback\<close>

lemma Receive_takes:
  fixes w :: "'a wrap_world_scheme"
  assumes W: "wrappers w obj = Some W" and mem: "wf_mem w" and nan: "\<And>h p k. nan_new_buffer E h p k"
    and alloc: "\<And>h n. unat n \<le> 2048 \<Longrightarrow> os_alloc E h n"
    and os: "\<And>h. frames_taken (socket_descriptor (wsocket W)) h = frames_taken (socket_descriptor (wsocket W)) (trace w) \<Longrightarrow>
      os_recvmsg E h (socket_descriptor (wsocket W)) (recv_hdr E h MAX_RECEIVE_BUFFER_SIZE) 0 = (of_nat (length frame), frame, sender)"
    and len: "14 < length frame" "length frame \<le> 2062"
  obtains a b c buf es and w1 :: "'a wrap_world_scheme" where "trace w1 = trace w @ es" "list_all (\<lambda>e. \<not> is_js_call e) es"
    "frames_taken (socket_descriptor (wsocket W)) es = 1"
    "{a, b, c} \<inter> dom (heap w) = {}" "distinct [a, b, c]"
    "heap w1 = (heap w)(a \<mapsto> take 6 (overwrite (replicate 8 0) sender), b \<mapsto> take 6 frame, c \<mapsto> buf)"
    "take (length frame - 14) buf = drop 14 frame" "world.more w1 = world.more w" "wf_mem w1"
    "run_state (Receive E js obj [JFunction f]) w =
     run_state (after (call_js js f [JBuffer (Ptr a 0) 6, JBuffer (Ptr b 0) 6,
        JBuffer (Ptr c 0) (length frame - 14)]) (\<lambda>_. give JUndefined)) w1"
proof -
  let ?fd = "socket_descriptor (wsocket W)" and ?a = "next_blk w" and ?b = "Suc (next_blk w)" and ?c = "Suc (Suc (next_blk w))"
  let ?k = "length frame - 14"
  obtain w1 xs ys zs where buffers: "run_state (Receive_buffers E) w = (Inr (Ptr ?a 0, Ptr ?b 0, Ptr ?c 0), w1)"
    and hp1: "heap w1 = with_blocks w xs ys zs" "length xs = 6" "length ys = 6" "length zs = 2048"
    and blk1: "next_blk w1 = Suc ?c" and more1: "world.more w1 = world.more w"
    using Receive_buffers_cases [OF mem, of E] alloc by blast
  obtain es1 where es1: "trace w1 = trace w @ es1" "list_all (inner_event ?fd) es1"
    using keepsD [OF Receive_buffers_inner buffers] by (auto simp: adds_def)
  have rr: "recv_ready w1 ?a ?b ?c MAX_RECEIVE_BUFFER_SIZE zs"
    using hp1 receive_sizes(2) by (simp add: recv_ready_def with_blocks_def ETHER_ADDR_LEN_def sint32_nonneg)
  have os1: "os_recvmsg E (trace w1) ?fd (recv_hdr E (trace w1) MAX_RECEIVE_BUFFER_SIZE) 0 = (of_nat (length frame), frame, sender)"
    by (rule os) (use es1 frames_taken_inner [of ?fd es1] in simp)
  note recv = run_receive_message [OF rr os1] 
  define w2 where "w2 = w1\<lparr>trace := trace w1 @ [Ev_recvmsg ?fd (recv_hdr E (trace w1) MAX_RECEIVE_BUFFER_SIZE) 0 (of_nat (length frame))],
       heap := (heap w1)(?c \<mapsto> overwrite zs (drop 14 frame), ?a \<mapsto> take 6 (overwrite (replicate 8 0) sender),
                        ?b \<mapsto> take 6 (overwrite (indet E (trace w1) 14) frame))\<rparr>"
  have recv: "run_state (receive_message E (wsocket W) (Ptr ?a 0) (Ptr ?b 0) (Ptr ?c 0) MAX_RECEIVE_BUFFER_SIZE) w1 =
    (Inr (of_nat ?k), w2)"
    unfolding w2_def using run_receive_message [OF rr os1] len by (simp add: receive_sizes of_nat_diff)
  have u: "unat (of_nat ?k :: i32) = ?k" "unat (scast (of_nat ?k :: i32) :: u64) = ?k"
    using small_of_nat [of ?k] len by simp_all
  define sz :: u64 where "sz = scast (of_nat ?k :: i32)"
  define zs' where "zs' = overwrite zs (drop 14 frame)"
  have zs': "length zs' = 2048" "take ?k zs' = drop 14 frame" using hp1(4) len by (simp_all add: zs'_def take_overwrite)
  have "heap w2 ?c = Some zs'" "unat sz \<le> length zs'" "0 < unat sz"
    using len zs' u(2) by (simp_all add: w2_def sz_def zs'_def)
  then obtain t w3 c buf where r: "run_state (realloc E (Ptr ?c 0) sz) w2 = (Inr t, w3)"
    and c: "Ptr c 0 = (if t \<noteq> NULL then t else Ptr ?c 0)" "c = ?c \<or> c = next_blk w2"
    and hp3: "heap w3 = (heap w2)(?c := None, c \<mapsto> buf)" and pre: "take (unat sz) buf = take (unat sz) zs'"
    by (rule realloc_keeps_prefix)
  have c': "c = ?c \<or> c = Suc ?c" using c(2) blk1 by (simp add: w2_def)
  have "adds (inner_event ?fd) w2 w3" by (rule keepsD [OF keeps_realloc r]) simp_all
  then obtain es3 where es3: "trace w3 = trace w2 @ es3" "list_all (inner_event ?fd) es3" and more3: "world.more w3 = world.more w2"
    by (auto simp: adds_def)
  let ?news = "[Ev_new_buffer (Ptr ?a 0) 6 True, Ev_new_buffer (Ptr ?b 0) 6 True, Ev_new_buffer (Ptr c 0) (of_nat ?k) True]"
  let ?w = "w3\<lparr>trace := trace w3 @ ?news\<rparr>"
  let ?es = "es1 @ [Ev_recvmsg ?fd (recv_hdr E (trace w1) MAX_RECEIVE_BUFFER_SIZE) 0 (of_nat (length frame))] @ es3 @ ?news"
  show thesis
  proof (rule that [of ?w ?es ?a ?b c buf])
    show "trace ?w = trace w @ ?es" by (simp add: es3 es1 w2_def)
    show "list_all (\<lambda>e. \<not> is_js_call e) ?es" "frames_taken ?fd ?es = 1"
      using frames_taken_inner [OF es1(2)] frames_taken_inner [OF es3(2)] by simp_all
    show "{?a, ?b, c} \<inter> dom (heap w) = {}" "distinct [?a, ?b, c]" using c' mem by (auto simp: wf_mem_def)
    have "take 6 (overwrite (indet E (trace w1) 14) frame) = take 6 frame"
      using len by (simp add: take_overwrite)
    moreover have "heap w ?c = None" using mem by (simp add: wf_mem_def)
    ultimately show "heap ?w = (heap w)(?a \<mapsto> take 6 (overwrite (replicate 8 0) sender), ?b \<mapsto> take 6 frame, c \<mapsto> buf)"
      using c' by (intro ext) (auto simp: hp3 w2_def hp1(1) with_blocks_def)
    show "take ?k buf = drop 14 frame" using pre u(2) zs'(2) by (simp add: sz_def)
    show "world.more ?w = world.more w" using more3 more1 by (simp add: w2_def)
    have "wf_mem w2" using mem by (auto simp: wf_mem_def w2_def hp1(1) with_blocks_def blk1)
    then have "wf_mem w3" by (rule realloc_wf_mem [OF _ r])
    then show "wf_mem ?w" by (simp add: wf_mem_def)
    show "run_state (Receive E js obj [JFunction f]) w =
     run_state (after (call_js js f [JBuffer (Ptr ?a 0) 6, JBuffer (Ptr ?b 0) 6, JBuffer (Ptr c 0) ?k]) (\<lambda>_. give JUndefined)) ?w"
      using W buffers recv run_Receive_deliver [OF r [unfolded sz_def] nan c(1), of js f "Ptr ?a 0" "Ptr ?b 0"]
      by (simp add: Receive_eq arg_def run_after run_unwrap run_catch_std u(1))
  qed
qed

text \<open>A socket with one listener of messages, which is a function of the user\<close>

definition ready_listener :: "js_world \<Rightarrow> nat \<Rightarrow> js_socket \<Rightarrow> nat \<Rightarrow> wrapper \<Rightarrow> uv_poller \<Rightarrow> nat \<Rightarrow> bool" where
  "ready_listener w t T obj W u g \<longleftrightarrow> js_inv w \<and> js_sockets w t = Some T \<and> wrap T = Some obj \<and> wrappers w obj = Some W \<and>
     pollers w (wpoller W) = Some (UvPoller u) \<and> wf_mem w \<and>
     map snd (filter (\<lambda>l. fst l = ''message'') (listeners T)) = [g] \<and> is_user (fn_objects w) g"

lemma ready_listenerD:
  assumes "ready_listener w t T obj W u g"
  shows "js_inv w" "js_sockets w t = Some T" "wrap T = Some obj" "wrappers w obj = Some W"
    "pollers w (wpoller W) = Some (UvPoller u)" "wf_mem w"
    "map snd (filter (\<lambda>l. fst l = ''message'') (listeners T)) = [g]" "is_user (fn_objects w) g"
  using assms by (simp_all add: ready_listener_def)

lemma ready_listenerI:
  assumes "js_inv w" and "js_sockets w t = Some T" "wrap T = Some obj" "wrappers w obj = Some W"
    "pollers w (wpoller W) = Some (UvPoller u)" and "wf_mem w"
    "map snd (filter (\<lambda>l. fst l = ''message'') (listeners T)) = [g]" and "is_user (fn_objects w) g"
  shows "ready_listener w t T obj W u g"
  using assms by (simp add: ready_listener_def)

lemma run_emit_one:
  assumes "js_sockets w t = Some T" and "map snd (filter (\<lambda>l. fst l = event) (listeners T)) = [g]"
    and "is_user (fn_objects w) g" and X: "idle_user X"
  shows "run_state (emit X t event args) w = (Inr (JBool True), w\<lparr>trace := trace w @ [Ev_js g args]\<rparr>)"
proof -
  obtain v where v: "fn_objects w g = Some (User v)" using assms(3) by (auto simp: is_user_def split: option.splits closure.splits)
  obtain r where "run_state (user_code X v (JInstance t) args) (w\<lparr>trace := trace w @ [Ev_js g args]\<rparr>) =
      (Inr r, w\<lparr>trace := trace w @ [Ev_js g args]\<rparr>)" using X unfolding idle_user_def by blast
  moreover have "filter (\<lambda>l. fst l = event) (listeners T) \<noteq> []" using assms(2) by auto
  ultimately show ?thesis using v
    unfolding emit_def Let_def by (simp add: run_simps assms(1,2) call_value_def)
qed

text \<open>The way of a frame from the kernel to the listener\<close>

lemma recv_callback_one:
  assumes S: "js_sockets w t = Some T" "map snd (filter (\<lambda>l. fst l = ''message'') (listeners T)) = [g]"
    and g: "is_user (fn_objects w) g" and X: "idle_user X" and f: "fn_objects w f = Some (RecvCallback t)"
    and a: "heap w a = Some src" "length src = 6" and b: "heap w b = Some dst" "length dst = 6"
  shows "run_state (after (call_js (js_callbacks X) f [JBuffer (Ptr a 0) 6, JBuffer (Ptr b 0) 6, v]) (\<lambda>_. give JUndefined)) w =
    (Inr JUndefined, w\<lparr>trace := trace w @ [Ev_js f [JBuffer (Ptr a 0) 6, JBuffer (Ptr b 0) 6, v],
       Ev_js g [v, JString (address_text src), JString (address_text dst)]]\<rparr>)"
proof -
  let ?w = "w\<lparr>trace := trace w @ [Ev_js f [JBuffer (Ptr a 0) 6, JBuffer (Ptr b 0) 6, v]]\<rparr>"
  have hex: "run_state (buffer_to_hex (JBuffer (Ptr a 0) 6)) ?w = (Inr (to_hex src), ?w)"
    "run_state (buffer_to_hex (JBuffer (Ptr b 0) 6)) ?w = (Inr (to_hex dst), ?w)"
    using a b by (simp_all add: run_buffer_to_hex)
  have emit: "run_state (emit X t ''message'' args) ?w = (Inr (JBool True), ?w\<lparr>trace := trace ?w @ [Ev_js g args]\<rparr>)" for args
    by (rule run_emit_one [OF _ S(2) _ X]) (use S g in simp_all)
  show ?thesis
    using f hex emit by (simp add: call_js_def run_after run_log js_callbacks_def run_gets recv_callback_def run_give arg_def address_text_def)
qed

lemma receive_one:
  assumes r: "ready_listener w t T obj W u g" and X: "idle_user X" and nan: "\<And>h p k. nan_new_buffer E h p k"
    and alloc: "\<And>h n. unat n \<le> 2048 \<Longrightarrow> os_alloc E h n"
    and os: "\<And>h. frames_taken (socket_descriptor (wsocket W)) h = frames_taken (socket_descriptor (wsocket W)) (trace w) \<Longrightarrow>
      os_recvmsg E h (socket_descriptor (wsocket W)) (recv_hdr E h MAX_RECEIVE_BUFFER_SIZE) 0 = (of_nat (length frame), frame, sender)"
    and len: "14 < length frame" "length frame \<le> 2062" and sender: "length sender = 6"
  obtains w1 es c buf where
    "run_state (watcher_event E (js_handlers E X) (uv_poll u) 0 UV_READABLE) w = (Inr (), w1)"
    "ready_listener w1 t T obj W u g" "trace w1 = trace w @ es" "frames_taken (socket_descriptor (wsocket W)) es = 1"
    "user_calls (fn_objects w) es = [(g, [JBuffer (Ptr c 0) (length frame - 14),
       JString (address_text sender), JString (address_text (take 6 frame))])]"
    "user_calls (fn_objects w1) = user_calls (fn_objects w)"
    "heap w1 c = Some buf" "take (length frame - 14) buf = drop 14 frame" "heap w \<subseteq>\<^sub>m heap w1"
proof -
  note i = ready_listenerD(1) [OF r] and S = ready_listenerD(2,3) [OF r] and W = ready_listenerD(4) [OF r]
    and p = ready_listenerD(5) [OF r] and mem = ready_listenerD(6) [OF r] and one = ready_listenerD(7,8) [OF r]
  let ?fd = "socket_descriptor (wsocket W)" and ?f = "next_fn w"
  obtain n where n: "fn_objects w n = Some (OnRecv t)"
    "run_state (watcher_event E (js_handlers E X) (uv_poll u) 0 UV_READABLE) w =
     run_state (after (onRecv E X t) (\<lambda>_. give ())) (w\<lparr>trace := trace w @ [Ev_js n []]\<rparr>)"
    by (rule read_event [OF i S W p])
  let ?v = "w\<lparr>trace := trace w @ [Ev_js n []], fn_objects := (fn_objects w)(?f \<mapsto> RecvCallback t), next_fn := Suc ?f\<rparr>"
  have fresh: "fn_objects w ?f = None" using i by (auto simp: js_inv_def js_links_def)
  have user: "is_user (fn_objects ?v) = is_user (fn_objects w)" using is_user_other [of "fn_objects w" ?f, OF fresh] by simp
  have pre: "wrappers ?v obj = Some W" "wf_mem ?v" using W mem by (simp_all add: wf_mem_def)
  obtain a b c buf es w1 where w1: "trace w1 = trace ?v @ es" "list_all (\<lambda>e. \<not> is_js_call e) es" "frames_taken ?fd es = 1"
    and d: "{a, b, c} \<inter> dom (heap ?v) = {}" "distinct [a, b, c]"
    and hp: "heap w1 = (heap ?v)(a \<mapsto> take 6 (overwrite (replicate 8 0) sender), b \<mapsto> take 6 frame, c \<mapsto> buf)"
    and buf: "take (length frame - 14) buf = drop 14 frame" and more: "world.more w1 = world.more ?v" and mem1: "wf_mem w1"
    and run: "run_state (Receive E (js_callbacks X) obj [JFunction ?f]) ?v =
     run_state (after (call_js (js_callbacks X) ?f [JBuffer (Ptr a 0) 6, JBuffer (Ptr b 0) 6,
        JBuffer (Ptr c 0) (length frame - 14)]) (\<lambda>_. give JUndefined)) w1"
    by (rule Receive_takes [where js = "js_callbacks X" and f = ?f and sender = sender, OF pre nan alloc _ len]) (use os in simp_all)
  note same = more_eqD [OF more] and js = js_more_eqD [OF more_eqD(5) [OF more]]
  have src: "take 6 (overwrite (replicate 8 0) sender) = sender" using sender by (simp add: overwrite_def)
  let ?bufs = "[JBuffer (Ptr a 0) 6, JBuffer (Ptr b 0) 6, JBuffer (Ptr c 0) (length frame - 14)]"
    and ?args = "[JBuffer (Ptr c 0) (length frame - 14), JString (address_text sender), JString (address_text (take 6 frame))]"
  let ?w = "w1\<lparr>trace := trace w1 @ [Ev_js ?f ?bufs, Ev_js g ?args]\<rparr>"
  have "run_state (Receive E (js_callbacks X) obj [JFunction ?f]) ?v = (Inr JUndefined, ?w)"
    unfolding run
  proof (rule recv_callback_one [OF _ one(1) _ X])
    show "js_sockets w1 t = Some T" "is_user (fn_objects w1) g" "fn_objects w1 ?f = Some (RecvCallback t)"
      using S(1) one(2) user by (simp_all add: js)
    show "heap w1 a = Some sender" "heap w1 b = Some (take 6 frame)" using d(2) by (simp_all add: hp src)
  qed (use sender len in simp_all)
  then have ev: "run_state (watcher_event E (js_handlers E X) (uv_poll u) 0 UV_READABLE) w = (Inr (), ?w)"
    using S by (simp add: n(2) onRecv_def run_catch_js run_after run_new_function run_give call_wrap_def run_get_socket call_method_simps)
  have "upholds js_inv (watcher_event E (js_handlers E X) (uv_poll u) 0 UV_READABLE)"
    by (rule js_quiet.watcher_event_upholds) (rule js_handlers_upholds [OF idle_upholds [OF X]])
  then have i': "js_inv ?w" using ev i by (rule upholdsD) simp
  show thesis
  proof (rule that [OF ev])
    show "ready_listener ?w t T obj W u g"
      using i' S W p one mem1 user by (simp add: ready_listener_def js same wf_mem_def)
    let ?es = "[Ev_js n []] @ es @ [Ev_js ?f ?bufs] @ [Ev_js g ?args]"
    show "trace ?w = trace w @ ?es" by (simp add: w1(1))
    show "frames_taken ?fd ?es = 1" using w1(3) by simp
    have "\<not> is_user (fn_objects w) n" "\<not> is_user (fn_objects w) ?f" using n(1) fresh by (simp_all add: is_user_def)
    then show "user_calls (fn_objects w) ?es = [(g, ?args)]"
      unfolding user_calls_append user_calls_js using one(2) user_calls_none [OF w1(2), of "fn_objects w"] by simp
    show "user_calls (fn_objects ?w) = user_calls (fn_objects w)"
      using user by (intro ext) (simp add: user_calls_def js)
    show "heap ?w c = Some buf" "heap w \<subseteq>\<^sub>m heap ?w" using d by (auto simp: hp map_le_def)
  qed (rule buf)
qed

text \<open>What the listener is told of a frame: a Buffer over the payload and the texts of both addresses\<close>

definition told_of :: "(nat \<rightharpoonup> byte list) \<Rightarrow> nat \<Rightarrow> byte list \<Rightarrow> byte list \<Rightarrow> byte list \<Rightarrow> nat \<times> js_value list \<Rightarrow> bool" where
  "told_of h g src dst msg call \<longleftrightarrow> (\<exists>c buf. call = (g, [JBuffer (Ptr c 0) (length msg), JString (address_text src),
     JString (address_text dst)]) \<and> h c = Some buf \<and> take (length msg) buf = msg)"

lemma told_of_later: "told_of h g src dst msg call \<Longrightarrow> h \<subseteq>\<^sub>m h' \<Longrightarrow> told_of h' g src dst msg call"
  unfolding told_of_def map_le_def by (metis domI)

lemma receive_all:
  assumes "ready_listener w t T obj W u g" and X: "idle_user X" and nan: "\<And>h p k. nan_new_buffer E h p k"
    and alloc: "\<And>h n. unat n \<le> 2048 \<Longrightarrow> os_alloc E h n"
    and "gives_in_order E (socket_descriptor (wsocket W)) (frames_taken (socket_descriptor (wsocket W)) (trace w)) frames sender"
    and sender: "length sender = 6" and "\<And>frame. frame \<in> set frames \<Longrightarrow> 14 < length frame \<and> length frame \<le> 2062"
  shows "\<exists>w' es. run_state (each (\<lambda>_. watcher_event E (js_handlers E X) (uv_poll u) 0 UV_READABLE) frames) w = (Inr (), w') \<and>
    trace w' = trace w @ es \<and> heap w \<subseteq>\<^sub>m heap w' \<and>
    list_all2 (\<lambda>frame. told_of (heap w') g sender (take 6 frame) (drop 14 frame)) frames (user_calls (fn_objects w) es)"
  using assms(1,5,7)
proof (induction frames arbitrary: w)
  case Nil
  then show ?case
    by (intro exI [of _ w] exI [of _ "[]"]) (simp add: run_give user_calls_def calls_of_def List.map_filter_def)
next
  case (Cons frame frames)
  note kernel = gives_Cons [OF Cons.prems(2)]
  have len: "14 < length frame" "length frame \<le> 2062" using Cons.prems(3) by simp_all
  obtain w1 es c buf where
    w1: "run_state (watcher_event E (js_handlers E X) (uv_poll u) 0 UV_READABLE) w = (Inr (), w1)"
      "ready_listener w1 t T obj W u g" "trace w1 = trace w @ es" "frames_taken (socket_descriptor (wsocket W)) es = 1"
    and calls: "user_calls (fn_objects w) es = [(g, [JBuffer (Ptr c 0) (length frame - 14),
       JString (address_text sender), JString (address_text (take 6 frame))])]"
      "user_calls (fn_objects w1) = user_calls (fn_objects w)"
    and buf: "heap w1 c = Some buf" "take (length frame - 14) buf = drop 14 frame" "heap w \<subseteq>\<^sub>m heap w1"
    by (rule receive_one [OF Cons.prems(1) X nan alloc kernel(1) len sender])
  have "frames_taken (socket_descriptor (wsocket W)) (trace w1) = Suc (frames_taken (socket_descriptor (wsocket W)) (trace w))"
    using w1(3,4) by simp
  with kernel(2) have "gives_in_order E (socket_descriptor (wsocket W)) (frames_taken (socket_descriptor (wsocket W)) (trace w1)) frames sender"
    by simp
  from Cons.IH [OF w1(2) this] Cons.prems(3) obtain w' es' where
    IH: "run_state (each (\<lambda>_. watcher_event E (js_handlers E X) (uv_poll u) 0 UV_READABLE) frames) w1 = (Inr (), w')"
      "trace w' = trace w1 @ es'" "heap w1 \<subseteq>\<^sub>m heap w'"
      "list_all2 (\<lambda>frame. told_of (heap w') g sender (take 6 frame) (drop 14 frame)) frames (user_calls (fn_objects w1) es')"
    by auto
  have "told_of (heap w1) g sender (take 6 frame) (drop 14 frame) (g, [JBuffer (Ptr c 0) (length frame - 14),
       JString (address_text sender), JString (address_text (take 6 frame))])"
    using buf(1,2) by (simp add: told_of_def)
  from told_of_later [OF this IH(3)]
  have "list_all2 (\<lambda>frame. told_of (heap w') g sender (take 6 frame) (drop 14 frame)) (frame # frames)
      (user_calls (fn_objects w) (es @ es'))"
    unfolding user_calls_append calls(1) using IH(4) [unfolded calls(2)] by simp
  moreover have "heap w \<subseteq>\<^sub>m heap w'" using buf(3) IH(3) by (rule map_le_trans)
  moreover have "run_state (each (\<lambda>_. watcher_event E (js_handlers E X) (uv_poll u) 0 UV_READABLE) (frame # frames)) w = (Inr (), w')"
    by (simp add: run_after w1(1) IH(1))
  ultimately show ?case using w1(3) IH(2) by (intro exI [of _ w'] exI [of _ "es @ es'"]) simp
qed

text \<open>A request with a message for a destination\<close>

definition carries :: "(nat \<rightharpoonup> byte list) \<Rightarrow> request \<Rightarrow> byte list \<times> byte list \<Rightarrow> bool" where
  "carries h req m \<longleftrightarrow> (case m of (dst, msg) \<Rightarrow> \<exists>p q. buffer req = JBuffer p (length msg) \<and> address req = JBuffer q ETHER_ADDR_LEN \<and>
     mem_load h p (length msg) = Inr msg \<and> mem_load h q ETHER_ADDR_LEN = Inr dst)"

abbreviation wire_frame :: "socket \<Rightarrow> byte list \<times> byte list \<Rightarrow> byte list" where
  "wire_frame s m \<equiv> encode_frame (message_frame s (fst m) (snd m))"

lemma carried_frames:
  assumes "list_all2 (carries h) reqs ms"
  shows "concat (map (\<lambda>req. message_frames h s (buffer req) (address req)) reqs) = map (wire_frame s) ms"
  using assms by (induction rule: list_all2_induct) (auto simp: message_frames_def carries_def split: prod.splits)

lemma carried_sizes: "list_all2 (carries h) reqs ms \<Longrightarrow> m \<in> set ms \<Longrightarrow> length (fst m) = ETHER_ADDR_LEN"
  by (induction rule: list_all2_induct) (auto simp: carries_def dest: mem_load_length)

lemma each_length:
  "length xs = length ys \<Longrightarrow> run_state (each (\<lambda>_. p) xs) w = run_state (each (\<lambda>_. p) ys) w"
  by (induction xs ys arbitrary: w rule: list_induct2) (simp_all add: run_after split: prod.splits sum.splits)

lemma traffic:
  assumes q: "ready_queue w s S obj W u" and X: "idle_user X" and alloc: "\<And>h n. os_alloc E h n"
    and ms: "list_all2 (carries (heap w)) (requests S) ms" "\<And>m. m \<in> set ms \<Longrightarrow> snd m \<noteq> [] \<and> length (snd m) \<le> 2048"
    and r: "ready_listener w' t T obj' W' u' g" and X': "idle_user X'" and nan: "\<And>h p k. nan_new_buffer E' h p k"
    and alloc': "\<And>h n. unat n \<le> 2048 \<Longrightarrow> os_alloc E' h n"
  shows "\<exists>w1 es. run_state (each (\<lambda>_. watcher_event E (js_handlers E X) (uv_poll u) 0 UV_WRITABLE) ms) w = (Inr (), w1) \<and>
    trace w1 = trace w @ es \<and> sent_frames es = map (wire_frame (wsocket W)) ms \<and>
    (gives_in_order E' (socket_descriptor (wsocket W')) (frames_taken (socket_descriptor (wsocket W')) (trace w'))
       (sent_frames es) (hardware_address (wsocket W)) \<longrightarrow>
     (\<exists>w2 es'. run_state (each (\<lambda>_. watcher_event E' (js_handlers E' X') (uv_poll u') 0 UV_READABLE) ms) w' = (Inr (), w2) \<and>
        trace w2 = trace w' @ es' \<and>
        list_all2 (\<lambda>(dst, msg). told_of (heap w2) g (hardware_address (wsocket W)) dst msg) ms (user_calls (fn_objects w') es')))"
proof -
  let ?frames = "map (wire_frame (wsocket W)) ms" and ?hw = "hardware_address (wsocket W)"
  have n: "length (requests S) = length ms" by (rule list_all2_lengthD [OF ms(1)])
  obtain w1 es where run: "run_state (each (\<lambda>_. watcher_event E (js_handlers E X) (uv_poll u) 0 UV_WRITABLE) (requests S)) w = (Inr (), w1)"
      "trace w1 = trace w @ es"
    and sent: "sent_frames es = concat (map (\<lambda>req. message_frames (heap w) (wsocket W) (buffer req) (address req)) (requests S))"
    using drain [OF q alloc X] by blast
  have sent: "sent_frames es = ?frames" unfolding sent by (rule carried_frames [OF ms(1)])
  have wf: "wf_socket (wsocket W)"
    using ready_queueD(1) [OF q] wrap_linksD(1) [OF _ ready_queueD(4) [OF q]] by (simp add: js_inv_def wrap_inv_def wf_wrapper_def)
  have hw: "length ?hw = 6" using wf by (simp add: wf_socket_def ETHER_ADDR_LEN_def)
  have parts: "length (wire_frame (wsocket W) m) = 14 + length (snd m)" "take 6 (wire_frame (wsocket W) m) = fst m"
    "drop 14 (wire_frame (wsocket W) m) = snd m" if "m \<in> set ms" for m
    by (rule frame_parts [OF carried_sizes [OF ms(1) that] wf])+
  have "\<exists>w2 es'. run_state (each (\<lambda>_. watcher_event E' (js_handlers E' X') (uv_poll u') 0 UV_READABLE) ms) w' = (Inr (), w2) \<and>
        trace w2 = trace w' @ es' \<and>
        list_all2 (\<lambda>(dst, msg). told_of (heap w2) g ?hw dst msg) ms (user_calls (fn_objects w') es')"
    if "gives_in_order E' (socket_descriptor (wsocket W')) (frames_taken (socket_descriptor (wsocket W')) (trace w')) ?frames ?hw"
  proof -
    have "14 < length frame \<and> length frame \<le> 2062" if "frame \<in> set ?frames" for frame
      using that ms(2) parts(1) by fastforce
    from receive_all [OF r X' nan alloc' \<open>gives_in_order _ _ _ _ _\<close> hw this] obtain w2 es' where
      w2: "run_state (each (\<lambda>_. watcher_event E' (js_handlers E' X') (uv_poll u') 0 UV_READABLE) ?frames) w' = (Inr (), w2)"
        "trace w2 = trace w' @ es'"
      and told: "list_all2 (\<lambda>frame. told_of (heap w2) g ?hw (take 6 frame) (drop 14 frame)) ?frames (user_calls (fn_objects w') es')"
      by blast
    have "list_all2 (\<lambda>(dst, msg). told_of (heap w2) g ?hw dst msg) ms (user_calls (fn_objects w') es')"
      using told [unfolded list_all2_map1] by (rule list.rel_mono_strong) (simp add: parts case_prod_beta)
    moreover have "run_state (each (\<lambda>_. watcher_event E' (js_handlers E' X') (uv_poll u') 0 UV_READABLE) ms) w' = (Inr (), w2)"
      unfolding w2(1) [symmetric] by (rule each_length) simp
    ultimately show ?thesis using w2(2) by blast
  qed
  moreover have "run_state (each (\<lambda>_. watcher_event E (js_handlers E X) (uv_poll u) 0 UV_WRITABLE) ms) w = (Inr (), w1)"
    unfolding run(1) [symmetric] by (rule each_length) (simp add: n)
  ultimately show ?thesis
    using run(2) by (intro exI [of _ w1] exI [of _ es]) (simp add: sent)
qed

section \<open>Witnesses\<close>

text \<open>The socket of \<open>opened_js_world\<close>, with a message of two bytes to send to de:ad:00:00:ff:ff\<close>

definition message_js_world :: js_world where
  "message_js_world = snd (run_state (send sample_env sample_user 0 (JBuffer (Ptr 1 0) 2) (JBuffer (Ptr 0 0) 6) (JFunction 0))
     (opened_js_world\<lparr>heap := heap sample_world, next_blk := next_blk sample_world\<rparr>))"

definition message_request :: request where
  "message_request = \<lparr>buffer = JBuffer (Ptr 1 0) 2, address = JBuffer (Ptr 0 0) 6, afterCallback = JFunction 0\<rparr>"

definition message_js_socket :: js_socket where
  "message_js_socket = \<lparr>requests = [message_request], wrap = Some 1, listeners = []\<rparr>"

lemma message_simps [simp]:
  "requests message_js_socket = [message_request]" "wrap message_js_socket = Some 1"
  "buffer message_request = JBuffer (Ptr 1 0) 2" "address message_request = JBuffer (Ptr 0 0) ETHER_ADDR_LEN"
  "afterCallback message_request = JFunction 0"
  by (simp_all add: message_js_socket_def message_request_def ETHER_ADDR_LEN_def)

lemma message_world:
  "\<exists>r. run_state (send sample_env sample_user 0 (JBuffer (Ptr 1 0) 2) (JBuffer (Ptr 0 0) 6) (JFunction 0))
     (opened_js_world\<lparr>heap := heap sample_world, next_blk := next_blk sample_world\<rparr>) = (Inr r, message_js_world)"
  "js_sockets message_js_world = [0 \<mapsto> message_js_socket]"
  "wrappers message_js_world = [1 \<mapsto> sample_js_wrapper]"
  "pollers message_js_world = [2 \<mapsto> UvPoller ((new_uv_poller 1 3)\<lparr>current_events := RW_EVENT\<rparr>)]"
  "heap message_js_world = heap sample_world" "next_blk message_js_world = next_blk sample_world"
  "fn_objects message_js_world = fn_objects opened_js_world"
proof -
  have p: "pollers (opened_js_world\<lparr>heap := h, next_blk := n, js_sockets := x\<rparr>) 2 = Some (UvPoller (new_uv_poller 1 3))" for h n x
    by (simp add: opened)
  show "\<exists>r. run_state (send sample_env sample_user 0 (JBuffer (Ptr 1 0) 2) (JBuffer (Ptr 0 0) 6) (JFunction 0))
     (opened_js_world\<lparr>heap := heap sample_world, next_blk := next_blk sample_world\<rparr>) = (Inr r, message_js_world)"
    "js_sockets message_js_world = [0 \<mapsto> message_js_socket]"
    "wrappers message_js_world = [1 \<mapsto> sample_js_wrapper]"
    "pollers message_js_world = [2 \<mapsto> UvPoller ((new_uv_poller 1 3)\<lparr>current_events := RW_EVENT\<rparr>)]"
    "heap message_js_world = heap sample_world" "next_blk message_js_world = next_blk sample_world"
    "fn_objects message_js_world = fn_objects opened_js_world"
    unfolding message_js_world_def message_js_socket_def message_request_def sample_js_wrapper_def
    by (simp_all add: send_def addressToBuffer_def run_simps opened call_wrap_def
        call_method_simps ResumeSending_eq new_wrapper_def run_set_events_uv [OF p] new_uv_poller_def)
qed

lemma sample_heap: "heap sample_world 0 = Some [0xde, 0xad, 0, 0, 0xff, 0xff]" "heap sample_world 1 = Some [0x68, 0x69]"
  by (simp_all add: sample_world_def)

lemma message_ready:
  "ready_queue message_js_world 0 message_js_socket 1 sample_js_wrapper ((new_uv_poller 1 3)\<lparr>current_events := RW_EVENT\<rparr>)"
proof (rule ready_queueI)
  have i: "js_inv (opened_js_world\<lparr>heap := heap sample_world, next_blk := next_blk sample_world\<rparr>)"
    by (rule js_inv_quiet [OF _ sample_js_inv(2)]) (simp add: adds_def)
  obtain r where "run_state (run_js_op sample_env sample_user 0 (Send_op (JBuffer (Ptr 1 0) 2) (JBuffer (Ptr 0 0) 6) (JFunction 0)))
     (opened_js_world\<lparr>heap := heap sample_world, next_blk := next_blk sample_world\<rparr>) = (Inr r, message_js_world)"
    using message_world(1) by auto
  from upholdsD [OF run_js_op_upholds [OF sample_user_idle(2)] this i] show "js_inv message_js_world" by simp
  show "wf_mem message_js_world" by (auto simp: wf_mem_def message_world sample_world_def)
  show "list_all (sound_request message_js_world) (requests message_js_socket)"
    by (simp add: sound_request_def sound_value_def message_world sample_world_def opened ETHER_ADDR_LEN_def)
qed (simp_all add: message_world)

text \<open>A socket with a listener, and the message of \<open>message_js_world\<close> on its way to it\<close>

definition listening_js_world :: js_world where
  "listening_js_world = snd (run_state (on 0 ''message'' 0) opened_js_world)"

definition listening_socket :: js_socket where
  "listening_socket = \<lparr>requests = [], wrap = Some 1, listeners = [(''message'', 0)]\<rparr>"

lemma listening:
  "run_state (on 0 ''message'' 0) opened_js_world = (Inr (JInstance 0), listening_js_world)"
  "js_sockets listening_js_world = [0 \<mapsto> listening_socket]" "wrappers listening_js_world = wrappers opened_js_world"
  "pollers listening_js_world = pollers opened_js_world" "heap listening_js_world = heap opened_js_world"
  "next_blk listening_js_world = next_blk opened_js_world" "fn_objects listening_js_world = fn_objects opened_js_world"
  "trace listening_js_world = trace opened_js_world"
  unfolding listening_js_world_def listening_socket_def by (simp_all add: on_def run_simps opened)

lemma listening_ready: "ready_listener listening_js_world 0 listening_socket 1 sample_js_wrapper (new_uv_poller 1 3) 0"
proof -
  have "js_inv listening_js_world" by (rule upholdsD [OF on_upholds listening(1) sample_js_inv(2)]) simp
  then show ?thesis
    by (simp add: ready_listener_def listening listening_socket_def opened sample_js_wrapper_def new_wrapper_def wf_mem_def is_user_def)
qed

definition sample_message :: "byte list \<times> byte list" where
  "sample_message = ([0xde, 0xad, 0, 0, 0xff, 0xff], [0x68, 0x69])"

lemma sample_message_facts:
  "list_all2 (carries (heap message_js_world)) (requests message_js_socket) [sample_message]"
  "m \<in> set [sample_message] \<Longrightarrow> snd m \<noteq> [] \<and> length (snd m) \<le> 2048"
  "wire_frame sample_socket sample_message = sample_frame"
  by (auto simp: carries_def sample_message_def message_world sample_world_def ETHER_ADDR_LEN_def
      encode_frame_def message_frame_def sample_socket_def sample_frame_def)

lemma sample_gives: "gives_in_order sample_env (socket_descriptor sample_socket) k [sample_frame] (hardware_address sample_socket)"
  using recv_hdr_room [of MAX_RECEIVE_BUFFER_SIZE] receive_sizes
  by (simp add: gives_in_order_def sample_env_def sample_socket_def sample_frame_def sint32_nonneg)

section \<open>Properties\<close>

text \<open>
  C4. Termination of the loop of libuv on a descriptor that stays writable, for a socket that is not closed,
  with a queue of sound requests, user code whose functions return without acting on the program (a
  callback that calls \<open>send\<close> again can go on forever) and allocation that does not fail.  The rounds in which
  the handle is asked to watch for writability come to an end: after one round for each request and one
  more, which stops the watch, nothing is asked for writability and the queue is empty.  No sequence of rounds
  is longer.
\<close>

theorem writing_terminates:
  assumes "js_inv w" and "js_sockets w s = Some S" and "wrap S = Some obj" and "wrappers w obj = Some W"
    and "pollers w (wpoller W) = Some (UvPoller u)" and "wf_mem w" and "list_all (sound_request w) (requests S)"
    and "\<And>h n. os_alloc E h n" and "idle_user X"
  shows "termip (write_round E X (uv_poll u)) w \<and>
    (\<forall>n w'. (write_round E X (uv_poll u) ^^ n) w w' \<longrightarrow> n \<le> Suc (length (requests S))) \<and>
    (\<exists>n w'. n = (if watches_writing w (uv_poll u) then Suc (length (requests S)) else 0) \<and>
      (write_round E X (uv_poll u) ^^ n) w w' \<and> finished_writing w' s (uv_poll u))"
  by (rule rounds_end [OF ready_queueI [OF assms(1-7)] assms(8,9)])

theorem writing_terminates_witness:
  "termip (write_round sample_env sample_user 3) message_js_world \<and>
    (\<exists>w'. (write_round sample_env sample_user 3 ^^ 2) message_js_world w' \<and> \<not> watches_writing w' 3)"
proof -
  note q = message_ready
  have "os_alloc sample_env h n" for h n by (simp add: sample_env_def)
  note main = writing_terminates [OF ready_queueD [OF q] this sample_user_idle(1)]
  have "watches_writing message_js_world (uv_poll ((new_uv_poller 1 3)\<lparr>current_events := RW_EVENT\<rparr>))"
    using ready_watching(1) [OF q] by (simp add: watches_writing_def UV_READABLE_def UV_WRITABLE_def)
  with main have "termip (write_round sample_env sample_user 3) message_js_world"
    "\<exists>w'. (write_round sample_env sample_user 3 ^^ Suc (length (requests message_js_socket))) message_js_world w' \<and>
       finished_writing w' 0 3" by (simp_all add: new_uv_poller_def del: relpowp.simps)
  then show ?thesis by (simp add: finished_writing_def numeral_2_eq_2 del: relpowp.simps) blast
qed

text \<open>
  C5. From one socket to another, in order.  Both are not closed, the code of the users returns without acting,
  the queued requests are sound and their messages have from 1 to 2048 bytes, the receiver has exactly one
  listener of \<open>'message'\<close>, and neither allocation nor \<open>NewBuffer\<close> fails.  Then one writable event for each queued
  message hands the kernel the frames of the messages, each once and in the order of the queue; and when the kernel
  of the other socket gives these frames in that order, as packets of the first one's hardware address, one
  readable event for each calls the listener, once for each message and in the same order, with a
  Buffer that still holds the same bytes after the last one, and the texts of the sender's and of the
  destination's address.  (For an empty message see C26.)
\<close>

theorem messages_in_order:
  assumes "js_inv w" and "js_sockets w s = Some S" and "wrap S = Some obj" and "wrappers w obj = Some W"
    and "pollers w (wpoller W) = Some (UvPoller u)" and "wf_mem w" and "list_all (sound_request w) (requests S)"
    and "idle_user X" and "\<And>h n. os_alloc E h n"
    and "list_all2 (carries (heap w)) (requests S) ms" and "\<And>m. m \<in> set ms \<Longrightarrow> snd m \<noteq> [] \<and> length (snd m) \<le> 2048"
    and "js_inv w'" and "js_sockets w' t = Some T" and "wrap T = Some obj'" and "wrappers w' obj' = Some W'"
    and "pollers w' (wpoller W') = Some (UvPoller u')" and "wf_mem w'"
    and "map snd (filter (\<lambda>l. fst l = ''message'') (listeners T)) = [g]" and "is_user (fn_objects w') g"
    and "idle_user X'" and "\<And>h p k. nan_new_buffer E' h p k" and "\<And>h n. unat n \<le> 2048 \<Longrightarrow> os_alloc E' h n"
  shows "\<exists>w1 es. run_state (each (\<lambda>_. watcher_event E (js_handlers E X) (uv_poll u) 0 UV_WRITABLE) ms) w = (Inr (), w1) \<and>
    trace w1 = trace w @ es \<and> sent_frames es = map (wire_frame (wsocket W)) ms \<and>
    (gives_in_order E' (socket_descriptor (wsocket W')) (frames_taken (socket_descriptor (wsocket W')) (trace w'))
       (sent_frames es) (hardware_address (wsocket W)) \<longrightarrow>
     (\<exists>w2 es'. run_state (each (\<lambda>_. watcher_event E' (js_handlers E' X') (uv_poll u') 0 UV_READABLE) ms) w' = (Inr (), w2) \<and>
        trace w2 = trace w' @ es' \<and>
        list_all2 (\<lambda>(dst, msg). told_of (heap w2) g (hardware_address (wsocket W)) dst msg) ms (user_calls (fn_objects w') es')))"
  by (rule traffic [OF ready_queueI [OF assms(1-7)] assms(8-11) ready_listenerI [OF assms(12-19)] assms(20-22)])

theorem messages_in_order_witness:
  "\<exists>w1 w2 es c buf. run_state (watcher_event sample_env (js_handlers sample_env sample_user) 3 0 UV_WRITABLE) message_js_world = (Inr (), w1) \<and>
    run_state (watcher_event sample_env (js_handlers sample_env sample_user) 3 0 UV_READABLE) listening_js_world = (Inr (), w2) \<and>
    trace w2 = trace listening_js_world @ es \<and> heap w2 c = Some buf \<and> take 2 buf = [0x68, 0x69] \<and>
    user_calls (fn_objects listening_js_world) es = [(0, [JBuffer (Ptr c 0) 2,
      JString (address_text [0xde, 0xad, 0, 0, 0xbe, 0xef]), JString (address_text [0xde, 0xad, 0, 0, 0xff, 0xff])])]"
proof -
  have alloc: "os_alloc sample_env h n" "nan_new_buffer sample_env h' p k" for h n h' p k by (simp_all add: sample_env_def)
  have hw: "hardware_address sample_socket = [0xde, 0xad, 0, 0, 0xbe, 0xef]" by (simp add: sample_socket_def)
  define ms where "ms = [sample_message]"
  note ms = sample_message_facts(1,2) [folded ms_def]
  have one: "run_state (each (\<lambda>_. p) ms) w = (Inr (), w') \<Longrightarrow> run_state p w = (Inr (), w')" for p :: "(js_world, unit) prog" and w w'
    by (simp add: ms_def run_simps split: prod.splits sum.splits)
  from messages_in_order [OF ready_queueD [OF message_ready] sample_user_idle(1) alloc(1) ms
      ready_listenerD [OF listening_ready] sample_user_idle(1) alloc(2,1)]
  obtain w1 w2 es where
    runs: "run_state (each (\<lambda>_. watcher_event sample_env (js_handlers sample_env sample_user) 3 0 UV_WRITABLE) ms) message_js_world = (Inr (), w1)"
      "run_state (each (\<lambda>_. watcher_event sample_env (js_handlers sample_env sample_user) 3 0 UV_READABLE) ms) listening_js_world = (Inr (), w2)"
      "trace w2 = trace listening_js_world @ es"
    and told: "list_all2 (\<lambda>(dst, msg). told_of (heap w2) 0 (hardware_address sample_socket) dst msg) ms
       (user_calls (fn_objects listening_js_world) es)"
    using sample_gives by (auto simp: ms_def new_uv_poller_def sample_message_facts(3))
  obtain call where call: "user_calls (fn_objects listening_js_world) es = [call]"
    "told_of (heap w2) 0 (hardware_address sample_socket) [0xde, 0xad, 0, 0, 0xff, 0xff] [0x68, 0x69] call"
    using told by (auto simp: ms_def sample_message_def list_all2_Cons1)
  from call(2) obtain c buf where "call = (0, [JBuffer (Ptr c 0) 2, JString (address_text [0xde, 0xad, 0, 0, 0xbe, 0xef]),
      JString (address_text [0xde, 0xad, 0, 0, 0xff, 0xff])])" "heap w2 c = Some buf" "take 2 buf = [0x68, 0x69]"
    unfolding told_of_def hw by (auto simp: numeral_2_eq_2)
  with one [OF runs(1)] one [OF runs(2)] runs(3) call(1) show ?thesis
    by (intro exI [of _ w1] exI [of _ w2] exI [of _ es] exI [of _ c] exI [of _ buf]) simp
qed

end
