(* ===== verification/Js_Socket_Closed.thy ===== *)
theory Js_Socket_Closed imports Js_Socket_Methods begin

text \<open>
  What \<open>close\<close> does to the queue (\<open>socket.js\<close>).  The invariant \<open>kept\<close> says, on top of \<open>js_inv\<close>, that the
  \<open>onSend\<close> of a socket is called by its own Node object only and that some closed sockets still have their
  requests.  It is an instance of \<open>js_invariant\<close>, so most methods keep it for free; \<open>send\<close>, \<open>onSend\<close>,
  \<open>openSocket\<close>, the events and the collector are treated here.  Code of users that acts by the methods
  (\<open>method_code\<close>) keeps both invariants.
\<close>

section \<open>Closed sockets\<close>

text \<open>A Node object calls no socket's \<open>onSend\<close> but that of the socket it is the \<open>wrap\<close> of.\<close>

definition handle_ids :: "wrapper \<Rightarrow> nat option set" where
  "handle_ids W = {onRecvCallback W, onSendCallback W, onErrorCallback W}"

definition own_handlers :: "js_world \<Rightarrow> bool" where
  "own_handlers w \<longleftrightarrow> (\<forall>obj W n s. wrappers w obj = Some W \<longrightarrow> Some n \<in> handle_ids W \<longrightarrow>
     n < next_fn w \<and> (fn_objects w n = Some (OnSend s) \<longrightarrow> (\<exists>S. js_sockets w s = Some S \<and> wrap S = Some obj)))"

text \<open>A closed socket with at least these requests in its queue\<close>

definition closed_queue :: "js_world \<Rightarrow> nat \<Rightarrow> request list \<Rightarrow> bool" where
  "closed_queue w s rs \<longleftrightarrow> (\<exists>S obj W more. js_sockets w s = Some S \<and> wrap S = Some obj \<and> requests S = rs @ more \<and>
     wrappers w obj = Some W \<and> pollers w (wpoller W) = Some NullPoller)"

definition queues :: "(nat \<rightharpoonup> request list) \<Rightarrow> js_world \<Rightarrow> bool" where
  "queues C w \<longleftrightarrow> own_handlers w \<and> (\<forall>s rs. C s = Some rs \<longrightarrow> closed_queue w s rs)"

definition kept :: "(nat \<rightharpoonup> request list) \<Rightarrow> js_world \<Rightarrow> bool" where
  "kept C w \<longleftrightarrow> js_inv w \<and> queues C w"

lemma queuesD:
  assumes "queues C w"
  shows "wrappers w obj = Some W \<Longrightarrow> Some n \<in> handle_ids W \<Longrightarrow> fn_objects w n = Some (OnSend s) \<Longrightarrow>
      \<exists>S. js_sockets w s = Some S \<and> wrap S = Some obj"
    "C s = Some rs \<Longrightarrow> closed_queue w s rs"
    "wrappers w obj = Some W \<Longrightarrow> Some n \<in> handle_ids W \<Longrightarrow> n < next_fn w"
  using assms unfolding queues_def own_handlers_def by blast+

text \<open>Changes of the C++ objects that keep the handlers and leave a closed object closed\<close>

lemma queues_frame:
  assumes q: "queues C w" and more: "wrap_world.more w' = wrap_world.more w"
    and old: "\<And>a V'. wrappers w' a = Some V' \<Longrightarrow> \<exists>V. wrappers w a = Some V \<and> handle_ids V' = handle_ids V"
    and closed: "\<And>s S a V. js_sockets w s = Some S \<Longrightarrow> wrap S = Some a \<Longrightarrow> wrappers w a = Some V \<Longrightarrow>
      pollers w (wpoller V) = Some NullPoller \<Longrightarrow>
      \<exists>V'. wrappers w' a = Some V' \<and> pollers w' (wpoller V') = Some NullPoller"
  shows "queues C w'"
proof -
  note same = js_more_eqD [OF more]
  have "own_handlers w'" unfolding own_handlers_def same using old queuesD(1,3) [OF q] by metis
  moreover have "closed_queue w' s rs" if "C s = Some rs" for s rs
    using queuesD(2) [OF q that] closed unfolding closed_queue_def same by metis
  ultimately show ?thesis by (simp add: queues_def)
qed

lemma queues_objects:
  assumes "queues C w" and "wrap_world.more w' = wrap_world.more w" and "wrappers w' = wrappers w"
    and "\<And>a V. wrappers w a = Some V \<Longrightarrow> pollers w (wpoller V) = Some NullPoller \<Longrightarrow> pollers w' (wpoller V) = Some NullPoller"
  shows "queues C w'"
  using assms(4) by (intro queues_frame [OF assms(1,2)]) (auto simp: assms(3))

lemma queues_quiet: "quiet w w' \<Longrightarrow> queues C w \<Longrightarrow> queues C w'"
proof -
  assume q: "quiet w w'" and i: "queues C w"
  have "world.more w' = world.more w" using q by (simp add: adds_def)
  note same = more_eqD [OF this]
  show "queues C w'" by (rule queues_objects [OF i]) (simp_all add: same)
qed

lemma queues_set_events:
  assumes "queues C w" "run_state (set_events p e) w = (r, w')"
  shows "queues C w'"
  by (rule queues_objects [OF assms(1)])
    (use assms(2) in \<open>auto simp: set_events_def run_simps UvPoller_set_events_def NullPoller_set_events_def
      put_poller_def split: option.splits poller.splits if_splits\<close>)

lemma queues_function:
  assumes q: "queues C w"
  shows "queues C (w\<lparr>fn_objects := (fn_objects w)(next_fn w \<mapsto> c), next_fn := Suc (next_fn w)\<rparr>)"
  using queuesD [OF q] by (fastforce simp: queues_def own_handlers_def closed_queue_def)

lemma queues_resume: "queues C w \<Longrightarrow> run_state (ResumeSending obj) w = (r, w') \<Longrightarrow> queues C w'"
  "queues C w \<Longrightarrow> run_state (PauseSending obj) w = (r, w') \<Longrightarrow> queues C w'"
  by (auto simp: ResumeSending_eq PauseSending_eq run_simps split: option.splits sum.splits prod.splits
      intro: queues_set_events)

lemma queues_Close:
  assumes i: "kept C w" and run: "run_state (Close obj) w = (r, w')"
  shows "queues C w'"
proof (cases "wrappers w obj")
  case None
  with i run show ?thesis by (simp add: Close_eq run_simps kept_def)
next
  case (Some W)
  have lk: "wrap_links w" and q: "queues C w" and p: "poll_inv w" using i by (simp_all add: kept_def js_inv_def wrap_inv_def)
  have "pollers w (wpoller W) \<noteq> None" using wrap_linksD(1) [OF lk Some] by (simp add: wf_wrapper_def)
  note w' = run [unfolded run_Close [OF Some this]]
  show ?thesis
  proof (rule queues_frame [OF q])
    fix s S a V
    assume V: "wrappers w a = Some V" "pollers w (wpoller V) = Some NullPoller"
    have "wpoller V < next_obj w" by (rule poll_wrappers_inv(1) [OF lk p V(1)])
    with V Some w' wrap_linksD(3) [OF lk V(1) Some]
    show "\<exists>V'. wrappers w' a = Some V' \<and> pollers w' (wpoller V') = Some NullPoller"
      by (cases "a = obj") auto
  qed (use w' Some in \<open>auto simp: handle_ids_def split: if_splits\<close>)
qed

lemma kept_quiet: "quiet w w' \<Longrightarrow> kept C w \<Longrightarrow> kept C w'"
  by (simp add: kept_def js_inv_quiet queues_quiet)

interpretation closed_kept: js_invariant "kept C"
proof unfold_locales
  show "quiet w w' \<Longrightarrow> kept C w \<Longrightarrow> kept C w'" for w w' by (rule kept_quiet)
  show "upholds (kept C) (new_function (RecvCallback s))" "upholds (kept C) (new_function (SendCallback s req))" for s req
    by (auto simp: upholds_def run_new_function kept_def new_function_inv queues_function)
  show "upholds (kept C) (Close obj)" for obj
    by (rule upholdsI) (auto simp: kept_def intro: upholdsD [OF Close_js] queues_Close [unfolded kept_def])
  show "upholds (kept C) (ResumeSending obj)" for obj
    by (rule upholdsI) (auto simp: kept_def intro: upholdsD [OF ResumeSending_js] queues_resume)
qed

lemma queues_put:
  assumes q: "queues C w" and S: "js_sockets w t = Some S" "wrap S' = wrap S"
    and more: "C t = None \<or> (\<exists>rs. requests S' = requests S @ rs)"
  shows "queues C (w\<lparr>js_sockets := (js_sockets w)(t \<mapsto> S')\<rparr>)"
proof -
  let ?w = "w\<lparr>js_sockets := (js_sockets w)(t \<mapsto> S')\<rparr>"
  have "own_handlers ?w" unfolding own_handlers_def
  proof (intro allI impI conjI)
    fix a V n s assume "wrappers ?w a = Some V" "Some n \<in> handle_ids V" "fn_objects ?w n = Some (OnSend s)"
    then obtain T where "js_sockets w s = Some T" "wrap T = Some a" using queuesD(1) [OF q] by fastforce
    then show "\<exists>S. js_sockets ?w s = Some S \<and> wrap S = Some a" using S by (cases "s = t") auto
  next
    fix a V n assume "wrappers ?w a = Some V" "Some n \<in> handle_ids V"
    then show "n < next_fn ?w" using queuesD(3) [OF q] by simp
  qed
  moreover have "closed_queue ?w s rs" if "C s = Some rs" for s rs
    using queuesD(2) [OF q that] S more that by (cases "s = t") (auto simp: closed_queue_def)
  ultimately show ?thesis by (simp add: queues_def)
qed

lemma onSend_kept:
  assumes X: "user_upholds X" "user_keeps (kept C) X" and "C me = None"
  shows "upholds (kept C) (onSend E X me)"
proof (rule upholdsI)
  fix w r w'
  assume k: "kept C w" and run: "run_state (onSend E X me) w = (r, w')" and ok: "\<And>u. r \<noteq> Inl (Undefined u)"
  have i: "js_inv w" and q: "queues C w" using k by (simp_all add: kept_def)
  have i': "js_inv w'" by (rule upholdsD [OF onSend_js [OF X(1)] run i ok])
  show "kept C w'"
  proof (cases "js_sockets w me")
    case None
    with run k show ?thesis by (simp add: onSend_def run_simps)
  next
    case (Some S)
    show ?thesis
    proof (cases "requests S")
      case Nil
      have "queues C w'"
        using run Some Nil q
        by (auto simp: onSend_def run_simps call_wrap_def call_method_simps split: prod.splits sum.splits option.splits
          dest: queues_resume(2))
      with i' show ?thesis by (simp add: kept_def)
    next
      case (Cons req rest)
      let ?w = "w\<lparr>js_sockets := (js_sockets w)(me \<mapsto> S\<lparr>requests := rest\<rparr>)\<rparr>"
      have "js_inv ?w"
        using js_inv_socket [OF i Some] Cons by (intro put_socket_inv [OF i] linked_fewer) simp_all
      moreover have "queues C ?w" using queues_put [OF q Some] assms(3) by simp
      ultimately have 1: "kept C ?w" by (simp add: kept_def)
      have 2: "run_state (catch_js
           (after (new_function (SendCallback me req)) (\<lambda>f.
            after (call_wrap E X me ''Send'' [buffer req, address req, JFunction f]) (\<lambda>_. give JUndefined)))
           (\<lambda>error. after (call_value X (afterCallback req) (JInstance me) [JError error, js_int 0]) (\<lambda>_.
                    give JUndefined))) ?w = (r, w')"
        using run Some Cons by (simp add: onSend_def run_after run_get_socket run_put_socket)
      show ?thesis by (rule upholdsD [OF closed_kept.serve_upholds [OF X(2)] 2 1 ok])
    qed
  qed
qed

lemma send_kept: "upholds (kept C) (send E X s buf addr cb)"
proof (rule upholdsI)
  fix w r w'
  assume k: "kept C w" and run: "run_state (send E X s buf addr cb) w = (r, w')" and ok: "\<And>u. r \<noteq> Inl (Undefined u)"
  have i': "js_inv w'" by (rule upholdsD [OF send_upholds run _ ok]) (use k in \<open>simp add: kept_def\<close>)
  obtain q w1 where q: "run_state (addressToBuffer X addr) w = (q, w1)" by fastforce
  have q1: "queues C w1" using keepsD [OF addressToBuffer_quiet q] k queues_quiet by (auto simp: kept_def)
  have "queues C w'"
  proof (cases "js_sockets w1 s")
    case None
    with run q q1 show ?thesis by (auto simp: send_def run_simps split: sum.splits)
  next
    case (Some S)
    have "queues C (w1\<lparr>js_sockets := (js_sockets w1)(s \<mapsto> S\<lparr>requests := requests S @ rs\<rparr>)\<rparr>)" for rs
      using queues_put [OF q1 Some] by simp
    with run q q1 Some show ?thesis
      by (auto simp: send_def run_simps call_wrap_def call_method_simps split: sum.splits prod.splits option.splits
          dest: queues_resume(1))
  qed
  with i' show "kept C w'" by (simp add: kept_def)
qed

lemma on_kept: "upholds (kept C) (on s event f)"
proof (rule upholdsI)
  fix w r w'
  assume k: "kept C w" and run: "run_state (on s event f) w = (r, w')" and ok: "\<And>u. r \<noteq> Inl (Undefined u)"
  have "js_inv w'" by (rule upholdsD [OF on_upholds run _ ok]) (use k in \<open>simp add: kept_def\<close>)
  moreover have "queues C w'"
  proof (cases "js_sockets w s")
    case (Some S)
    with queues_put [of C w s S "S\<lparr>listeners := x\<rparr>" for x] run k show ?thesis by (auto simp: on_def run_simps kept_def)
  qed (use run k in \<open>simp add: on_def run_simps kept_def\<close>)
  ultimately show "kept C w'" by (simp add: kept_def)
qed

lemma run_js_op_kept: "user_keeps (kept C) X \<Longrightarrow> upholds (kept C) (run_js_op E X s op)"
  by (cases op) (simp_all add: send_kept closed_kept.close_upholds closed_kept.membership_change_upholds on_kept)

text \<open>The constructor of another socket\<close>

lemma queues_constructing:
  assumes "kept C w"
  shows "queues C (constructing w)"
proof -
  have q: "queues C w" using assms by (simp add: kept_def)
  have fresh: "js_sockets w (next_obj w) = None"
    using assms js_inv_socket [of w "next_obj w"] by (cases "js_sockets w (next_obj w)") (auto simp: kept_def)
  let ?w = "constructing w"
  have same: "wrappers ?w = wrappers w" "pollers ?w = pollers w"
    and js: "\<And>s S. js_sockets w s = Some S \<Longrightarrow> js_sockets ?w s = Some S"
    and fn: "\<And>n. n < next_fn w \<Longrightarrow> fn_objects ?w n = fn_objects w n" "next_fn w < next_fn ?w"
    using fresh by (auto simp: constructing_def)
  have "n < next_fn ?w \<and> (fn_objects ?w n = Some (OnSend s) \<longrightarrow> (\<exists>S. js_sockets ?w s = Some S \<and> wrap S = Some a))"
    if V: "wrappers w a = Some V" "Some n \<in> handle_ids V" for a V n s
    using queuesD(1,3) [OF q V] fn js by fastforce
  moreover have "closed_queue ?w s rs" if "C s = Some rs" for s rs
    using queuesD(2) [OF q that] js unfolding closed_queue_def same by blast
  ultimately show ?thesis by (simp add: queues_def own_handlers_def same)
qed

lemma openSocket_kept:
  assumes E: "fresh_fds E"
  shows "upholds (kept C) (openSocket E X options)"
proof (rule upholdsI)
  fix w r w'
  assume k: "kept C w" and run: "run_state (openSocket E X options) w = (r, w')" and ok: "\<And>u. r \<noteq> Inl (Undefined u)"
  have "js_inv w'" by (rule upholdsD [OF openSocket_upholds [OF E] run _ ok]) (use k in \<open>simp add: kept_def\<close>)
  moreover have "queues C w'"
  proof -
    define o' where "o' = (if truthy options then options else JObject [])"
    let ?me = "next_obj w" and ?b = "binding_options w o'"
    obtain q w1 where n: "run_state (New E True [?b]) (constructing w) = (q, w1)" by fastforce
    note f = New_frame [OF n] and qc = queues_constructing [OF k]
    have kc: "wrap_links (constructing w)" "poll_inv (constructing w)"
      using constructing_inv [of w] k by (simp_all add: kept_def js_inv_def wrap_inv_def)
    show ?thesis
    proof (cases q)
      case (Inl e)
      then have "w' = w1" using run n by (simp add: openSocket_def run_after run_Socket_construct o'_def)
      with Inl f show ?thesis by (intro queues_objects [OF qc]) auto
    next
      case (Inr v)
      then obtain sock p x where v: "v = JWrapped (next_obj (constructing w))"
        and W: "wrappers w1 = (wrappers (constructing w))(next_obj (constructing w) \<mapsto>
            new_wrapper (next_fn w) (Suc (next_fn w)) (Suc (Suc (next_fn w))) sock p)"
        and p: "pollers w1 = (pollers (constructing w))(p \<mapsto> x)" "next_obj (constructing w) < p"
        using f by (auto simp: arg_def binding_options_ok)
      let ?S = "\<lparr>requests = [], wrap = Some (next_obj (constructing w)), listeners = []\<rparr> :: js_socket"
      have w': "w' = w1\<lparr>js_sockets := (js_sockets w1)(?me \<mapsto> ?S)\<rparr>"
        using run n Inr v by (simp add: openSocket_def run_after run_Socket_construct run_give o'_def)
      let ?w = "constructing w" and ?W = "new_wrapper (next_fn w) (Suc (next_fn w)) (Suc (Suc (next_fn w))) sock p"
      have more: "wrap_world.more w1 = wrap_world.more ?w" using f by blast
      note same = js_more_eqD [OF more]
      have me: "js_sockets ?w ?me = Some \<lparr>requests = [], wrap = None, listeners = []\<rparr>" by (simp add: constructing_def)
      have old: "wrappers ?w (next_obj ?w) = None" by (rule wrap_linksD(5) [OF kc(1)]) simp
      have "n < next_fn w' \<and> (fn_objects w' n = Some (OnSend s) \<longrightarrow> (\<exists>S. js_sockets w' s = Some S \<and> wrap S = Some a))"
        if V: "wrappers w' a = Some V" and n: "Some n \<in> handle_ids V" for a V n s
      proof (cases "a = next_obj ?w")
        case True
        then have "V = ?W" using V W w' by simp
        with n True show ?thesis by (auto simp: w' same constructing_def handle_ids_def new_wrapper_def)
      next
        case False
        then have "wrappers ?w a = Some V" using V W w' by simp
        from queuesD(1,3) [OF qc this n] me show ?thesis by (fastforce simp: w' same)
      qed
      moreover have "closed_queue w' s rs" if s: "C s = Some rs" for s rs
      proof -
        obtain S a V more where cl: "js_sockets ?w s = Some S" "wrap S = Some a" "requests S = rs @ more"
          "wrappers ?w a = Some V" "pollers ?w (wpoller V) = Some NullPoller"
          using queuesD(2) [OF qc s] by (auto simp: closed_queue_def)
        have "s \<noteq> ?me" "a \<noteq> next_obj ?w" "wpoller V \<noteq> p"
          using cl me old poll_wrappers_inv(1) [OF kc cl(4)] p(2) by auto
        with cl show ?thesis by (auto simp: closed_queue_def w' same W p(1))
      qed
      ultimately show ?thesis by (simp add: queues_def own_handlers_def)
    qed
  qed
  ultimately show "kept C w'" by (simp add: kept_def)
qed

section \<open>The event loop and closed sockets\<close>

text \<open>An event does not reach the \<open>onSend\<close> of a closed socket: its Node object has no handle any more.\<close>

lemma js_handlers_kept:
  assumes X: "user_upholds X" "user_keeps (kept C) X"
    and k: "kept C w" and f: "\<And>s. fn_objects w f = Some (OnSend s) \<Longrightarrow> C s = None"
    and run: "run_state (js_handlers E X f args) w = (r, w')" and ok: "\<And>u. r \<noteq> Inl (Undefined u)"
  shows "kept C w'"
proof -
  note rules = closed_kept.onRecv_upholds [OF X(2)] closed_kept.onError_upholds [OF X(2)]
    closed_kept.js_callbacks_upholds [OF X(2)] onSend_kept [OF X]
  show ?thesis
    using run f unfolding js_handlers_def
    by (cases "fn_objects w f") (auto simp: run_simps split: closure.splits
      intro: upholdsD [OF rules(1) _ k ok] upholdsD [OF rules(2) _ k ok] upholdsD [OF rules(3) _ k ok] upholdsD [OF rules(4) _ k ok])
qed

lemma run_call_fnptr:
  assumes "wrappers w obj = Some V"
  shows "\<exists>h args. h \<in> handle_ids V \<and> run_state (call_fnptr js ptr obj msg) w = run_state (call_handle js h args) w"
  using assms unfolding handle_ids_def
  by (cases ptr) (simp_all add: call_fnptr_def ReadReadyCallback_def WriteReadyCallback_def ErrorCallback_def
      run_after run_unwrap, blast+)

lemma call_fnptr_kept:
  assumes X: "user_upholds X" "user_keeps (kept C) X"
    and k: "kept C w" and V: "wrappers w obj = Some V" and u: "pollers w (wpoller V) = Some (UvPoller u)"
    and run: "run_state (call_fnptr (js_handlers E X) ptr obj msg) w = (r, w')" and ok: "\<And>u. r \<noteq> Inl (Undefined u)"
  shows "kept C w'"
proof -
  have q: "queues C w" using k by (simp add: kept_def)
  obtain h args where h: "h \<in> handle_ids V" and r: "run_state (call_handle (js_handlers E X) h args) w = (r, w')"
    using run_call_fnptr [OF V, of "js_handlers E X" ptr msg] run by auto
  show ?thesis
  proof (cases h)
    case None
    with r k show ?thesis by (auto simp: call_handle_def run_simps)
  next
    case (Some n)
    let ?w = "w\<lparr>trace := trace w @ [Ev_js n args]\<rparr>"
    obtain r1 where r1: "run_state (js_handlers E X n args) ?w = (r1, w')" and "r1 = Inl e \<Longrightarrow> r = Inl e" for e
      using r Some by (auto simp: call_handle_def call_js_def run_simps split: prod.splits sum.splits)
    with ok have ok1: "r1 \<noteq> Inl (Undefined u)" for u by auto
    have k1: "kept C ?w" by (rule kept_quiet [OF _ k]) (simp add: adds_def)
    have "C s = None" if s: "fn_objects ?w n = Some (OnSend s)" for s
    proof (rule ccontr)
      assume "C s \<noteq> None"
      then obtain rs where "C s = Some rs" by blast
      from queuesD(2) [OF q this] obtain S a W where cl: "js_sockets w s = Some S" "wrap S = Some a"
        "wrappers w a = Some W" "pollers w (wpoller W) = Some NullPoller" by (auto simp: closed_queue_def)
      have "\<exists>S. js_sockets w s = Some S \<and> wrap S = Some obj"
        using queuesD(1) [OF q V h [unfolded Some]] s by simp
      with cl V u show False by auto
    qed
    from js_handlers_kept [OF X k1 this r1 ok1] show ?thesis .
  qed
qed

lemma io_event_kept:
  assumes X: "user_upholds X" "user_keeps (kept C) X"
  shows "upholds (kept C) (after (uv_member p) (\<lambda>u. call_fnptr (js_handlers E X) (ptr u) (external_data u) msg))"
proof (rule upholdsI)
  fix w r w'
  assume k: "kept C w" and run: "run_state (after (uv_member p) (\<lambda>u. call_fnptr (js_handlers E X) (ptr u) (external_data u) msg)) w = (r, w')"
    and ok: "\<And>u. r \<noteq> Inl (Undefined u)"
  have lk: "wrap_links w" using k by (simp add: kept_def js_inv_def wrap_inv_def)
  show "kept C w'"
  proof (cases "\<exists>u. pollers w p = Some (UvPoller u)")
    case True
    then obtain u where u: "pollers w p = Some (UvPoller u)" ..
    then obtain obj V where V: "wrappers w obj = Some V" "wpoller V = p" using wrap_linksD(2) [OF lk, of p] by auto
    have "external_data u = obj" using wrap_linksD(1) [OF lk V(1)] V(2) u by (simp add: wf_wrapper_def)
    then show ?thesis
      using run u by (intro call_fnptr_kept [OF X k V(1) _ _ ok]) (simp_all add: run_after run_uv_member V(2))
  qed (use run k in \<open>auto simp: run_after run_uv_member split: option.splits poller.splits\<close>)
qed

lemma watcher_event_kept:
  assumes X: "user_upholds X" "user_keeps (kept C) X"
  shows "upholds (kept C) (watcher_event E (js_handlers E X) h status revents)"
  unfolding watcher_event_def io_event_wrapper_def io_event_def
  by (intro upholds_rules io_event_kept [OF X])

lemma js_step_kept:
  assumes X: "user_upholds X" "user_keeps (kept C) X" and E: "fresh_fds E"
  shows "js_step E X w w' \<Longrightarrow> kept C w \<Longrightarrow> kept C w'"
proof (induction rule: js_step.induct)
  case (opened options w r w')
  then show ?case using upholdsD [OF openSocket_kept [OF E]] by blast
next
  case (called s op w r w')
  then show ?case using upholdsD [OF run_js_op_kept [OF X(2)]] by blast
next
  case (io w h status revents q w')
  then show ?case using upholdsD [OF watcher_event_kept [OF X] io(2) io(4)] by blast
next
  case (collected w obj q w')
  then obtain W where W: "wrappers w obj = Some W" by blast
  have i: "js_inv w" and q: "queues C w" using collected.prems by (simp_all add: kept_def)
  have "js_inv w'" by (rule Wrapper_delete_js [OF i W collected(2,3,4)])
  moreover have "queues C w'"
  proof (rule queues_frame [OF q])
    have lk: "wrap_links w" using i by (simp add: js_inv_def wrap_inv_def)
    have "pollers w (wpoller W) \<noteq> None" using wrap_linksD(1) [OF lk W] by (simp add: wf_wrapper_def)
    note w' = collected(3) [unfolded run_Wrapper_delete [OF W this]]
    show "wrap_world.more w' = wrap_world.more w" using w' by auto
    show "\<exists>V. wrappers w a = Some V \<and> handle_ids V' = handle_ids V" if "wrappers w' a = Some V'" for a V'
      using that w' by (auto split: if_splits)
    fix s S a V
    assume *: "js_sockets w s = Some S" "wrap S = Some a" and V: "wrappers w a = Some V" "pollers w (wpoller V) = Some NullPoller"
    have "a \<noteq> obj" using socket_retained [OF i *] collected(2) by auto
    then have "wpoller V \<noteq> wpoller W" using wrap_linksD(3) [OF lk V(1) W] by blast
    then show "\<exists>V'. wrappers w' a = Some V' \<and> pollers w' (wpoller V') = Some NullPoller"
      using V \<open>a \<noteq> obj\<close> w' by auto
  qed
  ultimately show ?case by (simp add: kept_def)
next
  case (released w h)
  then have q: "queues C w" by (simp add: kept_def)
  have "queues C (snd (run_state (on_close h) w))"
    by (rule queues_objects [OF q]) (use released in \<open>auto simp: run_on_close\<close>)
  moreover have "js_inv (snd (run_state (on_close h) w))" using released by (intro on_close_js) (simp_all add: kept_def)
  ultimately show ?case by (simp add: kept_def)
next
  case (elsewhere w w')
  then show ?case by (rule kept_quiet)
qed

lemma js_steps_kept:
  assumes "user_upholds X" "user_keeps (kept C) X" "fresh_fds E" and "(js_step E X)\<^sup>*\<^sup>* w w'" "kept C w"
  shows "kept C w'"
  using assms(4,5) by (induction rule: rtranclp_induct) (use js_step_kept [OF assms(1-3)] in blast)+

lemma js_reach_kept:
  assumes "user_upholds X" "user_keeps (kept Map.empty) X" "fresh_fds E" "js_reach E X w"
  shows "kept Map.empty w"
  using assms(4)
proof (induction rule: js_reach.induct)
  case (start w)
  then show ?case using wrap_init_inv
    by (auto simp: js_init_def js_inv_def js_links_def kept_def queues_def own_handlers_def wrap_init_def)
next
  case (step w w')
  show ?case by (rule js_step_kept [OF assms(1-3) step.hyps(2) step.IH])
qed

text \<open>What \<open>close\<close> leaves behind, and what \<open>send\<close> does then\<close>

lemma close_makes_closed:
  assumes k: "kept C w" and S: "js_sockets w s = Some S" "wrap S = Some obj"
  obtains w1 where "run_state (close E X s) w = (Inr JUndefined, w1)" "kept [s \<mapsto> requests S] w1"
proof -
  have i: "js_inv w" and q: "queues Map.empty w" using k by (simp_all add: kept_def queues_def)
  obtain W where W: "wrappers w obj = Some W" using js_inv_socket [OF i S(1)] linkedD [of w s S obj] S(2) by auto
  have lk: "wrap_links w" using i by (simp add: js_inv_def wrap_inv_def)
  have p: "pollers w (wpoller W) \<noteq> None" using wrap_linksD(1) [OF lk W] by (simp add: wf_wrapper_def)
  obtain w1 where c: "run_state (Close obj) w = (Inr JUndefined, w1)"
    and w1: "js_sockets w1 = js_sockets w" "wrappers w1 obj = Some (W\<lparr>wpoller := next_obj w\<rparr>)"
      "pollers w1 (next_obj w) = Some NullPoller"
    using run_Close [OF W p] by simp
  have "kept Map.empty w1"
    by (rule upholdsD [OF closed_kept.native_kept(1) c]) (use i q in \<open>simp_all add: kept_def\<close>)
  moreover have "closed_queue w1 s (requests S)" using S w1 by (simp add: closed_queue_def)
  ultimately have "kept [s \<mapsto> requests S] w1" by (simp add: kept_def queues_def)
  moreover have "run_state (close E X s) w = (Inr JUndefined, w1)"
    using S c by (simp add: close_def call_wrap_def run_after run_get_socket call_method_simps run_give)
  ultimately show thesis using that by blast
qed

lemma send_when_closed:
  assumes "closed_queue w s rs"
  shows "\<exists>w'. run_state (send E X s buf (JBuffer p n) cb) w = (Inr (JInstance s), w') \<and> trace w' = trace w"
  using assms
  by (auto simp: closed_queue_def send_def addressToBuffer_def run_simps call_wrap_def call_method_simps ResumeSending_eq
      run_set_events_null)

section \<open>User code that acts by the methods\<close>

text \<open>
  Code of a user: it reads what it likes, opens sockets, calls methods, throws and catches.  The
  methods may run code of users in turn, which is of this kind again.
\<close>

inductive method_code :: "env \<Rightarrow> (js_world, js_value) prog \<Rightarrow> bool" for E where
  reads: "method_code E (gets f)"
| throws: "method_code E (throw e)"
| opens: "method_code E (openSocket E X options)"
| calls: "(\<And>u this args. method_code E (user_code X u this args)) \<Longrightarrow> method_code E (run_js_op E X s op)"
| continues: "method_code E m \<Longrightarrow> (\<And>v. method_code E (f v)) \<Longrightarrow> method_code E (after m f)"
| catches: "method_code E m \<Longrightarrow> (\<And>e. method_code E (h e)) \<Longrightarrow> method_code E (catch_js m h)"

lemma method_code_js: "method_code E m \<Longrightarrow> fresh_fds E \<Longrightarrow> upholds js_inv m"
proof (induction rule: method_code.induct)
  case (calls X s op)
  then show ?case by (intro run_js_op_upholds) (simp add: user_keeps_def)
qed (auto intro: upholds_rules openSocket_upholds)

lemma method_code_kept: "method_code E m \<Longrightarrow> fresh_fds E \<Longrightarrow> upholds (kept C) m"
proof (induction rule: method_code.induct)
  case (calls X s op)
  then show ?case by (intro run_js_op_kept) (simp add: user_keeps_def)
qed (auto intro: upholds_rules openSocket_kept)

lemma method_user:
  assumes "\<And>u this args. method_code E (user_code X u this args)" and "fresh_fds E"
  shows "user_upholds X" "user_keeps (kept C) X"
  using method_code_js [OF assms] method_code_kept [OF assms] by (simp_all add: user_keeps_def)

lemma method_code_give: "method_code E (give v)"
proof -
  have "(give v :: (js_world, js_value) prog) = gets (\<lambda>_. v)" by (rule state_ext) (simp add: run_simps)
  then show ?thesis by (simp add: method_code.reads)
qed

section \<open>Properties\<close>

text \<open>
  C6. What becomes of the queue of a closed socket: \<open>close\<close> returns, and whatever the event loop, the
  users of this and of other sockets and the collector do afterwards, no request leaves the queue again, so it
  is neither sent nor is its callback told of an error.  A message sent then is accepted all the same
  and joins the queue, without any effect outside.  The code of users may do anything the methods allow.
\<close>

theorem closed_queue_forgotten:
  assumes "\<And>u this args. method_code E (user_code X u this args)" and "fresh_fds E" and "js_reach E X w"
    and "js_sockets w s = Some S" and "wrap S = Some obj"
  shows "\<exists>w1. run_state (close E X s) w = (Inr JUndefined, w1) \<and>
    (\<forall>w2. (js_step E X)\<^sup>*\<^sup>* w1 w2 \<longrightarrow>
      (\<exists>S' more. js_sockets w2 s = Some S' \<and> requests S' = requests S @ more) \<and>
      (\<forall>buf p n cb. \<exists>w3. run_state (send E X s buf (JBuffer p n) cb) w2 = (Inr (JInstance s), w3) \<and> trace w3 = trace w2))"
proof -
  note user = method_user [OF assms(1,2)]
  have "kept Map.empty w" by (rule js_reach_kept [OF user assms(2,3)])
  then obtain w1 where w1: "run_state (close E X s) w = (Inr JUndefined, w1)" "kept [s \<mapsto> requests S] w1"
    by (rule close_makes_closed [OF _ assms(4,5)])
  have "closed_queue w2 s (requests S)" if "(js_step E X)\<^sup>*\<^sup>* w1 w2" for w2
    using js_steps_kept [OF user assms(2) that w1(2)] by (simp add: kept_def queues_def)
  then show ?thesis
    using w1(1) by (intro exI [of _ w1] conjI allI impI send_when_closed) (fastforce simp: closed_queue_def)+
qed

theorem closed_queue_forgotten_witness:
  "\<exists>w1 w2 S. run_state (close sample_env sample_user 0) queued_js_world = (Inr JUndefined, w1) \<and>
    run_state (send sample_env sample_user 0 JNull (JBuffer NULL 0) JNull) w1 = (Inr (JInstance 0), w2) \<and>
    js_sockets w2 0 = Some S \<and> sample_request \<in> set (requests S)"
proof -
  have user: "method_code sample_env (user_code sample_user u this args)" for u this args
    by (simp add: sample_user_def method_code_give)
  from closed_queue_forgotten [OF user sample_env_documented(1) queued_reach, of 0 sample_js_socket 1]
  obtain w1 where w1: "run_state (close sample_env sample_user 0) queued_js_world = (Inr JUndefined, w1)"
    and later: "\<forall>w2. (js_step sample_env sample_user)\<^sup>*\<^sup>* w1 w2 \<longrightarrow>
      (\<exists>S' more. js_sockets w2 0 = Some S' \<and> requests S' = [sample_request] @ more) \<and>
      (\<forall>buf p n cb. \<exists>w3. run_state (send sample_env sample_user 0 buf (JBuffer p n) cb) w2 = (Inr (JInstance 0), w3) \<and> trace w3 = trace w2)"
    by (auto simp: queued)
  obtain w2 where w2: "run_state (send sample_env sample_user 0 JNull (JBuffer NULL 0) JNull) w1 = (Inr (JInstance 0), w2)"
    using later [rule_format, of w1] by blast
  then have "run_state (run_js_op sample_env sample_user 0 (Send_op JNull (JBuffer NULL 0) JNull)) w1 = (Inr (JInstance 0), w2)" by simp
  then have "js_step sample_env sample_user w1 w2" by (rule js_step.called) simp
  from later [rule_format, OF r_into_rtranclp, OF this] w1 w2 show ?thesis by auto
qed

end
