(* ===== verification/Mock_Support.thy ===== *)
theory Mock_Support
  imports Env
begin

text \<open>
  The CppUMock library as the tests use it: expectations with their builders, and the library itself
  as a parameter with its documented behaviour.  The tests of the classes are in \<open>Socket_Tests\<close> and
  \<open>Wrapper_Tests\<close>.
\<close>

section \<open>Calls and expectations\<close>

text \<open>Structures compare as a whole, as their bytes do; \<open>Output\<close> stands for an output parameter,
  \<open>Unreadable\<close> for a memory buffer that cannot be read.\<close>

datatype mock_value =
    Signed i32
  | Unsigned u32
  | ULong u64
  | Memory "byte list"
  | Sockaddr sockaddr_ll
  | Mreq packet_mreq
  | Text string
  | Unreadable
  | Output

type_synonym mock_call = "string \<times> (string \<times> mock_value) list"

record expectation =
  call_name :: string
  calls :: nat
  parameters :: "(string \<times> mock_value) list"
  ignore_others :: bool
  return_value :: "i32 option"
  outputs :: "(string \<times> byte list) list"

definition expectNCalls :: "nat \<Rightarrow> string \<Rightarrow> expectation" where
  "expectNCalls n name = \<lparr>call_name = name, calls = n, parameters = [], ignore_others = False,
     return_value = None, outputs = []\<rparr>"

definition expectOneCall :: "string \<Rightarrow> expectation" where
  "expectOneCall name = expectNCalls 1 name"

definition ignoreOtherParameters :: "expectation \<Rightarrow> expectation" where
  "ignoreOtherParameters x = x\<lparr>ignore_others := True\<rparr>"

definition expectNoCall :: "string \<Rightarrow> expectation" where
  "expectNoCall name = ignoreOtherParameters (expectNCalls 0 name)"

definition withParameter :: "string \<Rightarrow> mock_value \<Rightarrow> expectation \<Rightarrow> expectation" where
  "withParameter k v x = x\<lparr>parameters := parameters x @ [(k, v)]\<rparr>"

definition withOutputParameterReturning :: "string \<Rightarrow> byte list \<Rightarrow> expectation \<Rightarrow> expectation" where
  "withOutputParameterReturning k bs x =
     x\<lparr>parameters := parameters x @ [(k, Output)], outputs := outputs x @ [(k, bs)]\<rparr>"

definition andReturnValue :: "i32 \<Rightarrow> expectation \<Rightarrow> expectation" where
  "andReturnValue v x = x\<lparr>return_value := Some v\<rparr>"

text \<open>A \<open>bool\<close> that is returned is kept as 0 or 1.\<close>

definition andReturnBool :: "bool \<Rightarrow> expectation \<Rightarrow> expectation" where
  "andReturnBool b = andReturnValue (of_bool b)"

lemmas expectation_defs = expectOneCall_def expectNCalls_def expectNoCall_def ignoreOtherParameters_def
  withParameter_def withOutputParameterReturning_def andReturnValue_def andReturnBool_def

definition fits :: "mock_call \<Rightarrow> expectation \<Rightarrow> bool" where
  "fits c x \<longleftrightarrow> fst c = call_name x \<and>
     list_all (\<lambda>(k, v). map_of (snd c) k = Some v) (parameters x) \<and>
     (ignore_others x \<or> list_all (\<lambda>(k, _). k \<in> fst ` set (parameters x)) (snd c))"

section \<open>The library\<close>

text \<open>
  The library: the answer to a call (the return value, if one was given, and the output parameters)
  and the verdict of \<open>checkExpectations\<close> on the calls of a test.  Documented is: a call is answered by
  the expectation it fits, and a test passes if each expectation was called exactly as often as it
  says and no other call was made.  Calls that fit two expectations do not occur in the tests, and
  nothing is said about them; a call too many fails the test, whatever it is answered.
\<close>

record mock_support =
  answer :: "expectation list \<Rightarrow> mock_call \<Rightarrow> i32 option \<times> (string \<Rightarrow> byte list)"
  verdict :: "expectation list \<Rightarrow> mock_call list \<Rightarrow> bool"

definition answer_of :: "expectation \<Rightarrow> i32 option \<times> (string \<Rightarrow> byte list)" where
  "answer_of x = (return_value x, \<lambda>k. case map_of (outputs x) k of None \<Rightarrow> [] | Some bs \<Rightarrow> bs)"

definition met :: "expectation list \<Rightarrow> mock_call list \<Rightarrow> bool" where
  "met rows cs \<longleftrightarrow>
     list_all (\<lambda>x. length (filter (\<lambda>c. fits c x) cs) = calls x) rows \<and>
     list_all (\<lambda>c. length (filter (fits c) rows) = 1) cs"

definition mock_documented :: "mock_support \<Rightarrow> bool" where
  "mock_documented M \<longleftrightarrow>
     (\<forall>rows c. length (filter (fits c) rows) = 1 \<longrightarrow> answer M rows c = answer_of (hd (filter (fits c) rows))) \<and>
     (\<forall>rows cs. met rows cs \<longrightarrow> verdict M rows cs)"

lemma documentedD:
  assumes "mock_documented M"
  shows "length (filter (fits c) rows) = 1 \<Longrightarrow> answer M rows c = answer_of (hd (filter (fits c) rows))"
    and "met rows cs \<Longrightarrow> verdict M rows cs"
  using assms unfolding mock_documented_def by blast+

text \<open>A library that does what is documented and nothing else\<close>

definition sample_support :: mock_support where
  "sample_support = \<lparr>answer = (\<lambda>rows c. answer_of (hd (filter (fits c) rows))), verdict = met\<rparr>"

lemma sample_support_documented: "mock_documented sample_support"
  by (simp add: mock_documented_def sample_support_def)

section \<open>Memory of a test\<close>

text \<open>A local array of the test: a block of memory that is there without a call\<close>

definition local_array :: "byte list \<Rightarrow> ('a world_scheme, ptr) prog" where
  "local_array bs = State (\<lambda>w. (Inr (Ptr (next_blk w) 0),
     w\<lparr>heap := (heap w)(next_blk w \<mapsto> bs), next_blk := Suc (next_blk w)\<rparr>))"

lemma run_local_array [run_simps]:
  "run_state (local_array bs) w = (Inr (Ptr (next_blk w) 0),
     w\<lparr>heap := (heap w)(next_blk w \<mapsto> bs), next_blk := Suc (next_blk w)\<rparr>)"
  by (simp add: local_array_def)

end
