(* ===== verification/Mocks.thy ===== *)
theory Mocks
  imports Wrapper Mock_Support
begin

text \<open>
  The classes of \<open>cc_mocks\<close> that the target \<open>test_wrapper\<close> is linked with: every member reports its call
  to the CppUMock library and returns or throws what the library answers.  \<open>M\<close> is the library and
  \<open>rows\<close> the expectations of the test.
\<close>

section \<open>Reporting a call\<close>

record mock_world = wrap_world +
  mocked :: "mock_call list"

definition actualCall ::
  "mock_support \<Rightarrow> expectation list \<Rightarrow> string \<Rightarrow> (string \<times> mock_value) list \<Rightarrow>
   ('a mock_world_scheme, i32 option \<times> (string \<Rightarrow> byte list)) prog" where
  "actualCall M rows name params =
     State (\<lambda>w. (Inr (answer M rows (name, params)), w\<lparr>mocked := mocked w @ [(name, params)]\<rparr>))"

definition returnIntValueOrDefault :: "i32 \<Rightarrow> i32 option \<times> 'b \<Rightarrow> i32" where
  "returnIntValueOrDefault d a = (case fst a of None \<Rightarrow> d | Some v \<Rightarrow> v)"

definition returnBoolValueOrDefault :: "bool \<Rightarrow> i32 option \<times> 'b \<Rightarrow> bool" where
  "returnBoolValueOrDefault d a = (case fst a of None \<Rightarrow> d | Some v \<Rightarrow> v \<noteq> 0)"

text \<open>\<open>returnIntValue\<close> has no default; it fails a test that gives no value, and no test does that.\<close>

definition returnIntValue :: "i32 option \<times> 'b \<Rightarrow> i32" where
  "returnIntValue a = returnIntValueOrDefault 0 a"

text \<open>A memory buffer as a parameter: the library reads it when an expectation names the parameter.\<close>

definition memory_buffer :: "ptr \<Rightarrow> nat \<Rightarrow> ('a world_scheme, mock_value) prog" where
  "memory_buffer p n =
     gets (\<lambda>w. case mem_load (heap w) p n of Inl _ \<Rightarrow> Unreadable | Inr bs \<Rightarrow> Memory bs)"

section \<open>The class \<open>Socket\<close> of \<open>cc_mocks/socket.cc\<close>\<close>

text \<open>The members of the object are never set: \<open>garbage\<close>.\<close>

definition mock_Socket_new ::
  "mock_support \<Rightarrow> expectation list \<Rightarrow> socket \<Rightarrow> string \<Rightarrow> ('a mock_world_scheme, socket) prog" where
  "mock_Socket_new M rows garbage device =
     after (actualCall M rows ''socket_constructor'' [(''device'', Text device)]) (\<lambda>a.
     if \<not> returnBoolValueOrDefault True a then throw (Runtime_error ''forced creation failure'')
     else give garbage)"

definition mock_Socket_delete :: "socket \<Rightarrow> ('a mock_world_scheme, unit) prog" where
  "mock_Socket_delete this = give ()"

definition mock_get_descriptor ::
  "mock_support \<Rightarrow> expectation list \<Rightarrow> socket \<Rightarrow> ('a mock_world_scheme, i32) prog" where
  "mock_get_descriptor M rows this =
     after (actualCall M rows ''get_descriptor'' []) (\<lambda>a. give (returnIntValue a))"

definition mock_send_message ::
  "mock_support \<Rightarrow> expectation list \<Rightarrow> socket \<Rightarrow> ptr \<Rightarrow> ptr \<Rightarrow> i32 \<Rightarrow> ('a mock_world_scheme, i32) prog" where
  "mock_send_message M rows this destination_address message message_length =
     after (memory_buffer destination_address ETHER_ADDR_LEN) (\<lambda>destination_value.
     after (memory_buffer message (unat message_length)) (\<lambda>message_value.
     after (actualCall M rows ''send_message''
        [(''destination_address'', destination_value), (''message'', message_value),
         (''message_length'', Signed message_length)]) (\<lambda>a.
     let return_value = returnIntValueOrDefault 6 a in
     if return_value = -1 then throw (Runtime_error ''forced send_message failure'')
     else give return_value)))"

text \<open>The library copies what an expectation gives for an output parameter.\<close>

definition mock_receive_message ::
  "mock_support \<Rightarrow> expectation list \<Rightarrow> socket \<Rightarrow> ptr \<Rightarrow> ptr \<Rightarrow> ptr \<Rightarrow> i32 \<Rightarrow> ('a mock_world_scheme, i32) prog" where
  "mock_receive_message M rows this source_address destination_address buffer buffer_size =
     after (actualCall M rows ''receive_message''
        [(''source_address'', Output), (''destination_address'', Output), (''buffer'', Output),
         (''buffer_size'', Signed buffer_size)]) (\<lambda>a.
     after (store_bytes source_address (snd a ''source_address'')) (\<lambda>_.
     after (store_bytes destination_address (snd a ''destination_address'')) (\<lambda>_.
     after (store_bytes buffer (snd a ''buffer'')) (\<lambda>_.
     let return_value = returnIntValueOrDefault 6 a in
     if return_value = -1 then throw (Runtime_error ''forced receive_message failure'')
     else give return_value))))"

definition mock_add_membership ::
  "mock_support \<Rightarrow> expectation list \<Rightarrow> socket \<Rightarrow> i32 \<Rightarrow> ptr \<Rightarrow> ('a mock_world_scheme, unit) prog" where
  "mock_add_membership M rows this type multicast_address =
     after (memory_buffer multicast_address ETHER_ADDR_LEN) (\<lambda>address_value.
     after (actualCall M rows ''add_membership''
        [(''type'', Signed type), (''multicast_address'', address_value)]) (\<lambda>a.
     if \<not> returnBoolValueOrDefault True a then throw (Runtime_error ''forced add_membership failure'')
     else give ()))"

definition mock_drop_membership ::
  "mock_support \<Rightarrow> expectation list \<Rightarrow> socket \<Rightarrow> i32 \<Rightarrow> ptr \<Rightarrow> ('a mock_world_scheme, unit) prog" where
  "mock_drop_membership M rows this type multicast_address =
     after (memory_buffer multicast_address ETHER_ADDR_LEN) (\<lambda>address_value.
     after (actualCall M rows ''drop_membership''
        [(''type'', Signed type), (''multicast_address'', address_value)]) (\<lambda>a.
     if \<not> returnBoolValueOrDefault True a then throw (Runtime_error ''forced drop_membership failure'')
     else give ()))"

definition mock_Socket ::
  "mock_support \<Rightarrow> expectation list \<Rightarrow> socket \<Rightarrow> 'a mock_world_scheme socket_class" where
  "mock_Socket M rows garbage =
     \<lparr>new_Socket = mock_Socket_new M rows garbage,
      delete_Socket = mock_Socket_delete,
      call_get_descriptor = mock_get_descriptor M rows,
      call_send_message = mock_send_message M rows,
      call_receive_message = mock_receive_message M rows,
      call_add_membership = mock_add_membership M rows,
      call_drop_membership = mock_drop_membership M rows\<rparr>"

section \<open>The class \<open>UvPoller\<close> of \<open>cc_mocks/poller.cc\<close>\<close>

text \<open>Its constructor sets nothing, so the object is no more than an address.  \<open>NullPoller\<close> has no body
  in this target.\<close>

definition mock_UvPoller_new ::
  "i32 \<Rightarrow> fnptr \<Rightarrow> fnptr \<Rightarrow> fnptr \<Rightarrow> nat \<Rightarrow> ('a mock_world_scheme, nat) prog" where
  "mock_UvPoller_new descriptor read_ready write_ready error data = new_addr"

definition mock_UvPoller_delete :: "nat \<Rightarrow> ('a mock_world_scheme, unit) prog" where
  "mock_UvPoller_delete this = give ()"

definition mock_set_events ::
  "mock_support \<Rightarrow> expectation list \<Rightarrow> nat \<Rightarrow> poller_events \<Rightarrow> ('a mock_world_scheme, unit) prog" where
  "mock_set_events M rows this events =
     after (actualCall M rows ''set_events'' [(''events'', Signed (event_mask events))]) (\<lambda>_. give ())"

definition mock_Poller :: "mock_support \<Rightarrow> expectation list \<Rightarrow> 'a mock_world_scheme poller_class" where
  "mock_Poller M rows =
     \<lparr>new_UvPoller = mock_UvPoller_new,
      new_NullPoller = throw (Undefined Null_deref),
      call_set_events = mock_set_events M rows,
      delete_Poller = mock_UvPoller_delete\<rparr>"

end
