(* ===== verification/Wrapper_Safety.thy ===== *)
theory Wrapper_Safety imports Js_Socket_Methods Mocks begin

text \<open>
  What a method of \<open>Wrapper\<close> can end with (\<open>wrapper.cc\<close>).  The first part follows the exceptions of C++
  through the \<open>try\<close> blocks with the rules of \<open>raises\<close>, with an allocator that may refuse the objects the
  wrapper makes: the locale \<open>linked_classes\<close> says what the classes the wrapper is linked with may let
  out, and is interpreted on the classes of the addon under such an allocator; \<open>silent_classes\<close> extends it
  and is interpreted on the classes of the addon and on those of \<open>cc_mocks\<close>.  The second part shows that
  a call with sound arguments meets no undefined behaviour and that its callback gets sound values.
\<close>

section \<open>Allocation of objects\<close>

text \<open>
  \<open>new\<close> of an object of \<open>n\<close> bytes throws where the allocator refuses them.  Elsewhere in the development
  it refuses byte buffers only; here \<open>new Socket\<close> and \<open>new UvPoller\<close> of the constructor, \<open>new uv_poll_t\<close>
  within it and \<open>new NullPoller\<close> of \<open>Close\<close> may fail too.  The sizes of the classes are arguments.
\<close>

definition obtain_memory :: "env \<Rightarrow> u64 \<Rightarrow> ('a world_scheme, unit) prog" where
  "obtain_memory E n = after (gets trace) (\<lambda>h. if os_alloc E h n then give () else throw Bad_alloc)"

definition allocating_Socket :: "env \<Rightarrow> u64 \<Rightarrow> 'a wrap_world_scheme socket_class" where
  "allocating_Socket E size_Socket = (program_Socket E)
     \<lparr>new_Socket := (\<lambda>device. after (obtain_memory E size_Socket) (\<lambda>_. Socket_new E device))\<rparr>"

definition allocating_Poller :: "env \<Rightarrow> u64 \<Rightarrow> u64 \<Rightarrow> u64 \<Rightarrow> 'a wrap_world_scheme poller_class" where
  "allocating_Poller E size_UvPoller size_uv_poll size_NullPoller = program_Poller
     \<lparr>new_UvPoller := (\<lambda>fd read_cb write_cb error_cb data.
        after (obtain_memory E size_UvPoller) (\<lambda>_.
        after (obtain_memory E size_uv_poll) (\<lambda>_.
        UvPoller_new fd read_cb write_cb error_cb data))),
      new_NullPoller := after (obtain_memory E size_NullPoller) (\<lambda>_. NullPoller_new)\<rparr>"

lemma run_obtain_memory:
  "run_state (obtain_memory E n) w = (if os_alloc E (trace w) n then Inr () else Inl Bad_alloc, w)"
  by (simp add: obtain_memory_def run_simps)

lemma allocating_members:
  "new_Socket (allocating_Socket E k) = (\<lambda>d. after (obtain_memory E k) (\<lambda>_. Socket_new E d))"
  "delete_Socket (allocating_Socket E k) = Socket_delete E"
  "call_get_descriptor (allocating_Socket E k) = (\<lambda>s. give (get_descriptor s))"
  "new_UvPoller (allocating_Poller E n u m) = (\<lambda>fd r w e x. after (obtain_memory E n) (\<lambda>_.
     after (obtain_memory E u) (\<lambda>_. UvPoller_new fd r w e x)))"
  "new_NullPoller (allocating_Poller E n u m) = after (obtain_memory E m) (\<lambda>_. NullPoller_new)"
  "call_set_events (allocating_Poller E n u m) = set_events"
  "delete_Poller (allocating_Poller E n u m) = delete_poller"
  by (simp_all add: allocating_Socket_def allocating_Poller_def program_members)

text \<open>
  The constructor keeps its socket in a plain pointer: when \<open>new UvPoller\<close> throws, nothing deletes it,
  and \<open>New\<close> reports an error while the descriptor stays open without an owner.
\<close>

lemma New_loses_socket:
  assumes E: "fresh_fds E" and opts: "options_ok (arg info 0) device r s e" and "os_alloc E (trace w) k"
    and sock: "run_state (Socket_new E (c_str device)) (w\<lparr>next_obj := Suc (next_obj w)\<rparr>) = (Inr sock, w1)"
    and no: "\<not> os_alloc E (trace w1) n"
  shows "run_state (New_with (allocating_Socket E k) (allocating_Poller E n u m) c info) w =
      (Inl (JS_Error ''std::bad_alloc''), w1) \<and> wrappers w1 = wrappers w \<and>
    get_descriptor sock \<in> open_fds (trace w1) \<and> get_descriptor sock \<notin> open_fds (trace w)"
proof -
  have "world.more w1 = world.more (w\<lparr>next_obj := Suc (next_obj w)\<rparr>)"
    using keepsD [OF Socket_new_no_uv sock] by (simp add: adds_def)
  from more_eqD [OF this] have "wrappers w1 = wrappers w" by simp
  moreover have "run_state (Wrapper_new_with (allocating_Socket E k) (allocating_Poller E n u m) (arg info 0)) w =
      (Inl Bad_alloc, w1)"
    using opts assms(3) sock no
    by (simp add: Wrapper_new_with_def options_ok_def run_new_addr run_after run_obtain_memory run_give allocating_members)
  moreover have "arg [arg info 0] 0 = arg info 0" by (simp add: arg_def)
  ultimately show ?thesis
    using options_own [OF opts] Socket_new_fds [OF E sock]
    by (simp add: New_with_def New_construct_with_def Let_def run_after run_catch_std run_throw get_descriptor_def)
qed

section \<open>Exceptions of C++ stay in C++\<close>

text \<open>\<open>what\<close> is defined for the exceptions of C++ and for nothing else.\<close>

definition not_cpp :: "error \<Rightarrow> bool" where
  "not_cpp e \<longleftrightarrow> what e = None"

lemma not_cpp_simps [simp, raises_rules]:
  "not_cpp (JS_Error s)" "not_cpp (JS_TypeError s)" "not_cpp (Undefined u)"
  by (simp_all add: not_cpp_def)

lemma raises_case_js_value [raises_rules]:
  assumes "raises Q a1" "raises Q a2" "\<And>x. raises Q (a3 x)" "\<And>x. raises Q (a4 x)" "\<And>x. raises Q (a5 x)"
    "\<And>x y. raises Q (a6 x y)" "\<And>x. raises Q (a7 x)" "\<And>x. raises Q (a8 x)" "\<And>x. raises Q (a9 x)"
    "\<And>x. raises Q (a10 x)" "\<And>x. raises Q (a11 x)" "\<And>x. raises Q (a12 x)"
  shows "raises Q (case_js_value a1 a2 a3 a4 a5 a6 a7 a8 a9 a10 a11 a12 v)"
  using assms by (cases v) simp_all

lemma not_cpp_basic [raises_rules]:
  "raises not_cpp (log ev)" "raises not_cpp (malloc E n)" "raises not_cpp (free p)" "raises not_cpp (realloc E p n)"
  "raises not_cpp (new_addr :: ('a poll_world_scheme, nat) prog)" "raises not_cpp (unwrap obj)"
  "raises not_cpp (put_wrapper obj x)" "raises not_cpp (new_buffer E p k)" "raises not_cpp (load_bytes p i)"
  "raises not_cpp (store_bytes p bs)"
  unfolding raises_def
  by (auto simp: log_def malloc_def free_def realloc_def new_addr_def unwrap_def put_wrapper_def run_new_buffer
      load_bytes_def store_bytes_def gets_def modify_def run_after run_throw run_give
      split: ptr.splits if_splits option.splits prod.splits sum.splits)

lemma raises_caught [raises_rules]: "(\<And>s. raises not_cpp (h s)) \<Longrightarrow> raises not_cpp (catch_std m h)"
  by (rule raises_catch_std) (simp_all add: not_cpp_def raises_top)

lemma call_js_silent: "(\<And>f args. raises not_cpp (js f args)) \<Longrightarrow> raises not_cpp (call_js js f args)"
  unfolding call_js_def by (intro raises_rules; assumption)

lemma Receive_buffers_silent: "raises not_cpp (Receive_buffers E)"
  unfolding Receive_buffers_def by (intro raises_rules)

text \<open>
  What \<open>Wrapper\<close> calls outside every \<open>try\<close> has to keep its exceptions to itself: the members of
  \<open>Poller\<close>, the destructor of \<open>Socket\<close>.  The members it calls inside one may throw.  \<open>new NullPoller\<close> of
  \<open>Close\<close> is outside and may throw \<open>std::bad_alloc\<close>.
\<close>

lemma raises_or_bad_alloc: "raises not_cpp m \<Longrightarrow> raises (\<lambda>e. not_cpp e \<or> e = Bad_alloc) m"
  by (simp add: raises_def)

locale linked_classes =
  fixes S :: "'a wrap_world_scheme socket_class" and P :: "'a wrap_world_scheme poller_class"
  assumes delete_Socket_silent: "raises not_cpp (delete_Socket S s)"
    and new_NullPoller_raises: "raises (\<lambda>e. not_cpp e \<or> e = Bad_alloc) (new_NullPoller P)"
    and set_events_silent: "raises not_cpp (call_set_events P p m)"
    and delete_Poller_silent: "raises not_cpp (delete_Poller P p)"
begin

lemmas silent = delete_Socket_silent set_events_silent delete_Poller_silent

lemma New_silent: "raises not_cpp (New_with S P c info)"
  unfolding New_with_def New_construct_with_def Let_def by (intro raises_rules)

lemma Close_raises: "raises (\<lambda>e. not_cpp e \<or> e = Bad_alloc) (Close_with P obj)"
  unfolding Close_with_def
  by (intro raises_after raises_give new_NullPoller_raises raises_or_bad_alloc not_cpp_basic silent)

lemma Wrapper_delete_silent: "raises not_cpp (Wrapper_delete_with S P obj)"
  unfolding Wrapper_delete_with_def by (intro raises_rules silent)

lemma membership_silent: "raises not_cpp (AddMembership_with S obj info)" "raises not_cpp (DropMembership_with S obj info)"
  unfolding AddMembership_with_def DropMembership_with_def by (intro raises_rules)+

lemma Receive_silent:
  assumes "\<And>f args. raises not_cpp (js f args)"
  shows "raises not_cpp (Receive_with S E js obj info)"
  unfolding Receive_with_def Receive_deliver_def Let_def
  by (intro raises_rules call_js_silent [OF assms] Receive_buffers_silent)

lemma Send_silent:
  assumes "\<And>f args. raises not_cpp (js f args)"
  shows "raises not_cpp (Send_with S js obj info)"
  unfolding Send_with_def by (intro raises_rules call_js_silent [OF assms])

lemma sending_silent: "raises not_cpp (PauseSending_with P obj)" "raises not_cpp (ResumeSending_with P obj)"
  unfolding PauseSending_with_def ResumeSending_with_def by (intro raises_rules silent)+

lemma call_native_silent:
  assumes "\<And>f args. raises not_cpp (js f args)" and "f \<noteq> Close_fn"
  shows "raises not_cpp (call_native_with S P E js f obj info)"
  using assms(2) New_silent membership_silent Receive_silent [OF assms(1)] Send_silent [OF assms(1)] sending_silent
  by (cases f) (auto simp: call_native_with_def)

end

text \<open>With classes whose \<open>NullPoller\<close> can always be made, no method lets anything out.\<close>

locale silent_classes = linked_classes S P
  for S :: "'a wrap_world_scheme socket_class" and P :: "'a wrap_world_scheme poller_class" +
  assumes new_NullPoller_silent: "raises not_cpp (new_NullPoller P)"
begin

lemma Close_silent: "raises not_cpp (Close_with P obj)"
  unfolding Close_with_def by (intro raises_rules silent new_NullPoller_silent)

lemma every_native_silent:
  "(\<And>f args. raises not_cpp (js f args)) \<Longrightarrow> raises not_cpp (call_native_with S P E js f obj info)"
  using Close_silent call_native_silent by (cases "f = Close_fn") (auto simp: call_native_with_def)

end

lemma raises_case_poller [raises_rules]:
  "(\<And>u. raises Q (f u)) \<Longrightarrow> raises Q m \<Longrightarrow> raises Q (case p of UvPoller u \<Rightarrow> f u | NullPoller \<Rightarrow> m)"
  by (cases p) simp_all

lemma poller_members_silent [raises_rules]:
  "raises not_cpp (uv_member p)" "raises not_cpp (set_events p m)" "raises not_cpp (delete_poller p)"
  "raises not_cpp NullPoller_new" "raises not_cpp (on_close h)"
  by (auto simp: raises_def uv_member_def set_events_def UvPoller_set_events_def NullPoller_set_events_def
      delete_poller_def UvPoller_destruct_def NullPoller_new_def put_poller_def put_handle_def on_close_def run_simps run_new_addr
      split: option.splits poller.splits if_splits prod.splits sum.splits)

lemma Socket_delete_silent: "raises not_cpp (Socket_delete E s)"
  by (simp add: raises_def Socket_delete_def sys_close_def run_simps run_syscall)

interpretation allocating: linked_classes "allocating_Socket E k" "allocating_Poller E n u m"
proof unfold_locales
  show "raises (\<lambda>e. not_cpp e \<or> e = Bad_alloc) (new_NullPoller (allocating_Poller E n u m))"
    unfolding allocating_members
    by (intro raises_after raises_or_bad_alloc [OF poller_members_silent(4)])
       (simp add: raises_def run_obtain_memory)
qed (simp_all add: allocating_members poller_members_silent Socket_delete_silent)

interpretation addon: silent_classes "program_Socket E" program_Poller
  by unfold_locales (auto simp: program_members intro: raises_rules Socket_delete_silent raises_or_bad_alloc)

lemma mock_members_silent:
  "raises not_cpp (delete_Socket (mock_Socket M rows garbage) s)" "raises not_cpp (new_NullPoller (mock_Poller M rows))"
  "raises not_cpp (call_set_events (mock_Poller M rows) p e)" "raises not_cpp (delete_Poller (mock_Poller M rows) p)"
  by (auto simp: mock_Socket_def mock_Poller_def mock_Socket_delete_def mock_UvPoller_delete_def mock_set_events_def
      actualCall_def intro!: raises_rules raises_State)

interpretation mocked: silent_classes "mock_Socket M rows garbage" "mock_Poller M rows"
  by unfold_locales (intro mock_members_silent raises_or_bad_alloc)+

text \<open>What \<open>Close\<close> leaves behind when it is refused the memory of a \<open>NullPoller\<close>\<close>

lemma Close_refused:
  assumes "run_state (Close_with (allocating_Poller E n u m) obj) w = (Inl e, w')" and "what e \<noteq> None"
  shows "e = Bad_alloc \<and> (\<exists>h. \<not> os_alloc E h m) \<and> (\<exists>W. wrappers w' obj = Some W \<and> pollers w' (wpoller W) = None)"
  using assms
  by (auto simp: Close_with_def allocating_members run_after run_unwrap run_delete_poller run_obtain_memory
      run_NullPoller_new put_wrapper_def run_simps split: option.splits poller.splits if_splits)

lemma watcher_event_silent:
  assumes "\<And>f args. raises not_cpp (js f args)"
  shows "raises not_cpp (watcher_event E js h status revents)"
proof -
  have "raises not_cpp (call_handle js f args)" for f args
    unfolding call_handle_def by (intro raises_rules call_js_silent assms)
  then have "raises not_cpp (call_fnptr js f data msg)" for f data msg
    by (cases f) (auto simp: call_fnptr_def ReadReadyCallback_def WriteReadyCallback_def ErrorCallback_def intro!: raises_rules)
  then show ?thesis
    unfolding watcher_event_def io_event_wrapper_def io_event_def by (intro raises_rules)
qed

section \<open>Sound calls are defined\<close>

text \<open>
  What a call must satisfy so that the addon stays within its memory: Buffers have their memory, a
  membership is not asked for by a number that converts to 0, the device name fits its field.
\<close>

definition sound_call :: "'a world_scheme \<Rightarrow> native \<Rightarrow> js_value list \<Rightarrow> bool" where
  "sound_call w f info \<longleftrightarrow> (\<forall>v \<in> set info. sound_value w v) \<and>
     (f \<in> {AddMembership_fn, DropMembership_fn} \<longrightarrow> (\<forall>x. arg info 0 = JNumber x \<longrightarrow> to_int32 x \<noteq> 0)) \<and>
     (f = New_fn \<longrightarrow> (\<forall>d. get_property (arg info 0) ''device'' = JString d \<longrightarrow> length (c_str d) < IFNAMSIZ))"

text \<open>A JavaScript error, as the engine and the addon throw them\<close>

definition is_js_error :: "error \<Rightarrow> bool" where
  "is_js_error e \<longleftrightarrow> (\<exists>s. e = JS_Error s \<or> e = JS_TypeError s)"

lemma is_js_error_simps [simp]:
  "is_js_error (JS_Error s)" "is_js_error (JS_TypeError s)" "\<not> is_js_error (Undefined u)"
  by (simp_all add: is_js_error_def)

lemma is_js_error_iff: "is_js_error e \<longleftrightarrow> not_cpp e \<and> \<not> is_ub e"
  by (cases e) (simp_all add: is_js_error_def not_cpp_def)

text \<open>\<open>ends_well m w\<close>: the run of \<open>m\<close> from \<open>w\<close> returns or ends with a JavaScript error.\<close>

definition ends_well :: "('w, 'a) prog \<Rightarrow> 'w \<Rightarrow> bool" where
  "ends_well m w \<longleftrightarrow> (\<forall>e. fst (run_state m w) = Inl e \<longrightarrow> is_js_error e)"

lemma ends_well_return: "run_state m w = (Inr x, w') \<Longrightarrow> ends_well m w"
  by (simp add: ends_well_def)

lemma ends_well_error: "run_state m w = (Inl e, w') \<Longrightarrow> is_js_error e \<Longrightarrow> ends_well m w"
  by (auto simp: ends_well_def)

lemma ends_well_same: "run_state m w = run_state m' w' \<Longrightarrow> ends_well m' w' \<Longrightarrow> ends_well m w"
  by (simp add: ends_well_def)

text \<open>What is asked of JavaScript functions: called with sound values they do not end in C++.\<close>

definition js_sound :: "'a world_scheme js_call \<Rightarrow> bool" where
  "js_sound js \<longleftrightarrow> (\<forall>f args w. (\<forall>v \<in> set args. sound_value w v) \<longrightarrow> ends_well (js f args) w)"

lemma ends_well_call_js:
  assumes "js_sound js" and "\<forall>v \<in> set args. sound_value w v"
  shows "ends_well (after (call_js js f args) (\<lambda>_. give x)) w"
proof -
  have "\<forall>v \<in> set args. sound_value (w\<lparr>trace := trace w @ [Ev_js f args]\<rparr>) v"
    using assms(2) by (simp add: sound_value_def)
  with assms(1) have "ends_well (js f args) (w\<lparr>trace := trace w @ [Ev_js f args]\<rparr>)" by (simp add: js_sound_def)
  then show ?thesis
    by (auto simp: ends_well_def call_js_def run_after run_log run_give split: prod.splits sum.splits)
qed

lemma mem_load_shorter: "mem_load h p n = Inr bs \<Longrightarrow> m \<le> n \<Longrightarrow> \<exists>bs'. mem_load h p m = Inr bs'"
  by (cases p) (auto split: if_splits option.splits)

lemma Send_ends_well:
  assumes W: "wrappers w obj = Some W" and wf: "wf_mem w" "wf_socket (wsocket W)"
    and sound: "\<forall>v \<in> set info. sound_value w v" and js: "js_sound js"
  shows "ends_well (Send E js obj info) w"
proof (cases "\<exists>m n a f. info = [JBuffer m n, JBuffer a ETHER_ADDR_LEN, JFunction f]")
  case False
  then obtain e where "run_state (Send E js obj info) w = (Inl e, w)" "is_js_error e"
    using Send_checks_arguments [OF W, of info E js] by (auto split: if_splits)
  then show ?thesis by (rule ends_well_error)
next
  case True
  then obtain m n a f where info: "info = [JBuffer m n, JBuffer a ETHER_ADDR_LEN, JFunction f]" by blast
  have n: "n < 2 ^ 30" using sound info by (simp add: sound_value_def)
  then have u: "unat (of_nat n :: i32) = n" by (simp add: unsigned_of_nat take_bit_nat_eq_self)
  obtain r w1 where run: "run_state (send_message E (wsocket W) a m (of_nat n)) w = (r, w1)" by fastforce
  have r: "(\<exists>k. r = Inr k) \<or> (\<exists>e s. r = Inl e \<and> what e = Some s)"
  proof (cases "os_alloc E (trace w) (of_nat (14 + n))")
    case True
    have "0 \<le> sint (of_nat n :: i32)" using n u by (simp add: sint32_nonneg)
    with True sound info wf u obtain dst msg where "send_ready E w (wsocket W) a m (of_nat n) dst msg"
      by (auto simp: send_ready_def sound_value_def)
    then show ?thesis
    proof (rule send_message_cases [OF _ run], goal_cases)
      case (1 p ret)
      from 1(3) show ?case by (auto split: if_splits)
    qed
  next
    case False
    have "of_nat sizeof_ether_header + (scast (of_nat n :: i32) :: u64) = of_nat (14 + n)"
      using overall_length(1) [of "of_nat n"] n u by simp
    with False run show ?thesis
      by (auto simp: send_message_def Let_def run_after new_bytes_def run_malloc run_throw)
  qed
  then show ?thesis
  proof (elim disjE exE conjE)
    fix k assume "r = Inr k"
    with W run have "run_state (Send E js obj info) w =
        run_state (after (call_js js f [js_int (sint k)]) (\<lambda>_. give JUndefined)) w1"
      by (simp add: info Send_eq arg_def run_after run_unwrap run_catch_std)
    then show ?thesis by (rule ends_well_same) (rule ends_well_call_js [OF js], simp add: sound_value_def)
  next
    fix e s assume "r = Inl e" "what e = Some s"
    with W run have "run_state (Send E js obj info) w = (Inl (JS_Error s), w1)"
      by (simp add: info Send_eq arg_def run_after run_unwrap run_catch_std run_throw)
    then show ?thesis by (rule ends_well_error) simp
  qed
qed

text \<open>What \<open>recvmsg\<close> delivers is longer than the Ethernet header\<close>

definition frame_has_payload :: "env \<Rightarrow> event list \<Rightarrow> socket \<Rightarrow> bool" where
  "frame_has_payload E h s \<longleftrightarrow>
     (fst (os_recvmsg E h (socket_descriptor s) (recv_hdr E h MAX_RECEIVE_BUFFER_SIZE) 0) \<noteq> -1 \<longrightarrow>
      14 < length (fst (snd (os_recvmsg E h (socket_descriptor s) (recv_hdr E h MAX_RECEIVE_BUFFER_SIZE) 0))))"

lemma Receive_ends_well:
  assumes W: "wrappers w obj = Some W" and mem: "wf_mem w" and doc: "recvmsg_documented E"
    and payload: "\<And>h. frame_has_payload E h (wsocket W)" and js: "js_sound js"
  shows "ends_well (Receive E js obj info) w"
proof (cases "\<exists>f. info = [JFunction f]")
  case False
  then have "\<exists>e. run_state (Receive E js obj info) w = (Inl e, w) \<and> is_js_error e"
    using W by (cases info) (auto simp: Receive_eq run_after run_unwrap run_throw arg_def split: js_value.splits)
  then show ?thesis by (auto intro: ends_well_error)
next
  case True
  then obtain f where info: "info = [JFunction f]" ..
  show ?thesis unfolding info
  proof (rule disjE [OF Receive_outcomes [OF W mem doc payload [unfolded frame_has_payload_def], of js f]], goal_cases)
    case 1
    then show ?case by (auto intro: ends_well_error)
  next
    case 2
    then obtain frame sender a b c buf w1 where len: "14 < length frame" "length frame \<le> 2062"
      and d: "distinct [a, b, c]"
      and hp: "heap w1 = (heap w)(a \<mapsto> take 6 (overwrite (replicate 8 0) sender), b \<mapsto> take 6 frame, c \<mapsto> buf)"
      and buf: "take (length frame - 14) buf = drop 14 frame"
      and run: "run_state (Receive E js obj [JFunction f]) w = (Inl (JS_Error ''Failed to create buffer object''), w1) \<or>
        run_state (Receive E js obj [JFunction f]) w =
        run_state (after (call_js js f [JBuffer (Ptr a 0) 6, JBuffer (Ptr b 0) 6,
          JBuffer (Ptr c 0) (length frame - 14)]) (\<lambda>_. give JUndefined)) w1"
      by (elim exE conjE) (rule that, assumption+, (elim disjE conjE; simp))
    have "length (take (length frame - 14) buf) = length frame - 14" by (simp add: buf)
    then have "length frame - 14 \<le> length buf" by simp
    then have "\<forall>v \<in> set [JBuffer (Ptr a 0) 6, JBuffer (Ptr b 0) 6, JBuffer (Ptr c 0) (length frame - 14)]. sound_value w1 v"
      using len d by (simp add: sound_value_def hp)
    with run show ?case
      by (auto intro: ends_well_error ends_well_same [OF _ ends_well_call_js [OF js]])
  qed
qed

lemma membership_ends_well:
  assumes W: "wrappers w obj = Some W" and sound: "\<forall>v \<in> set info. sound_value w v"
    and num: "\<forall>x. arg info 0 = JNumber x \<longrightarrow> to_int32 x \<noteq> 0"
  shows "ends_well (AddMembership E obj info) w" "ends_well (DropMembership E obj info) w"
proof -
  have parse: "(\<exists>type p. run_state (ParseMembershipArguments info (MULTICAST, NULL)) w = (Inr (type, p), w) \<and>
      (type = MULTICAST \<longrightarrow> (\<exists>a. mem_load (heap w) p 6 = Inr a))) \<or>
    (\<exists>e s. run_state (ParseMembershipArguments info (MULTICAST, NULL)) w = (Inl e, w) \<and> what e = Some s)"
  proof (cases "info = []")
    case True then show ?thesis by (simp add: ParseMembershipArguments_def run_throw)
  next
    case False
    then obtain v vs where info: "info = v # vs" by (cases info) auto
    show ?thesis
    proof (cases v)
      case (JBuffer p n)
      with sound info mem_load_shorter [of "heap w" p n] show ?thesis
        by (cases "n < 6") (fastforce simp: ParseMembershipArguments_def arg_def run_throw run_give ETHER_ADDR_LEN_def sound_value_def)+
    next
      case (JNumber x)
      with num info show ?thesis
        by (simp add: ParseMembershipArguments_def arg_def run_give MULTICAST_def)
    qed (simp_all add: info ParseMembershipArguments_def arg_def run_throw)
  qed
  have member: "fst (run_state (manage_membership E s action type p) w) \<noteq> Inl (Undefined u)"
    if "type = MULTICAST \<longrightarrow> (\<exists>a. mem_load (heap w) p 6 = Inr a)" for s action type p u
    using that manage_membership_undefined by fastforce
  have *: "ends_well (after (unwrap obj) (\<lambda>this. catch_std
       (after (ParseMembershipArguments info (MULTICAST, NULL)) (\<lambda>(type, address).
        after (manage_membership E (wsocket this) action type address) (\<lambda>_. give JUndefined)))
       (\<lambda>e. throw (JS_Error e)))) w" for action
    using parse
  proof (elim disjE exE conjE)
    fix type p
    assume p: "run_state (ParseMembershipArguments info (MULTICAST, NULL)) w = (Inr (type, p), w)"
      and m: "type = MULTICAST \<longrightarrow> (\<exists>a. mem_load (heap w) p 6 = Inr a)"
    obtain r w1 where r: "run_state (manage_membership E (wsocket W) action type p) w = (r, w1)" by fastforce
    have "\<forall>u. r \<noteq> Inl (Undefined u)" using member [OF m, of "wsocket W" action] r by simp
    then have "what e = None \<longrightarrow> is_js_error e" if "r = Inl e" for e using that by (cases e) auto
    then show ?thesis using W p r
      by (cases r) (auto simp: ends_well_def run_after run_unwrap run_catch_std run_throw run_give split: option.splits)
  next
    fix e s
    assume "run_state (ParseMembershipArguments info (MULTICAST, NULL)) w = (Inl e, w)" "what e = Some s"
    with W show ?thesis by (simp add: ends_well_def run_after run_unwrap run_catch_std run_throw)
  qed
  from * show "ends_well (AddMembership E obj info) w" "ends_well (DropMembership E obj info) w"
    unfolding AddMembership_eq DropMembership_eq add_membership_def drop_membership_def by simp_all
qed

lemma New_ends_well:
  assumes E: "fresh_fds E" and name: "\<forall>d. get_property (arg info 0) ''device'' = JString d \<longrightarrow> length (c_str d) < IFNAMSIZ"
  shows "ends_well (New E c info) w"
proof (cases "\<exists>device r s e. options_ok (arg info 0) device r s e")
  case True
  then obtain device r s e where opts: "options_ok (arg info 0) device r s e" by blast
  with name have len: "length (c_str device) < IFNAMSIZ" by (simp add: options_ok_def)
  obtain q w' where run: "run_state (New E c info) w = (q, w')" by fastforce
  from New_cases [OF E opts len run] have "(\<exists>v. q = Inr v) \<or> (\<exists>msg. q = Inl (JS_Error msg))" by blast
  then show ?thesis by (auto simp: ends_well_def run)
next
  case False
  then obtain x w' where "run_state (New E c info) w = (Inl x, w')" "\<exists>msg. x = JS_Error msg \<or> x = JS_TypeError msg"
    using New_refuses [of info E c w] by blast
  then show ?thesis by (auto simp: ends_well_def)
qed

lemma poller_methods_ends_well:
  assumes W: "wrappers w obj = Some W" and p: "pollers w (wpoller W) \<noteq> None"
  shows "ends_well (Close obj) w" "ends_well (PauseSending obj) w" "ends_well (ResumeSending obj) w"
proof -
  show "ends_well (Close obj) w" by (rule ends_well_return [OF run_Close [OF W p]])
  obtain x where x: "pollers w (wpoller W) = Some x" using p by blast
  have set: "\<exists>w'. run_state (set_events (wpoller W) m) w = (Inr (), w')" for m
    using x run_set_events_uv [of w "wpoller W"] run_set_events_null [of w "wpoller W"] by (cases x) simp_all
  show "ends_well (PauseSending obj) w" "ends_well (ResumeSending obj) w"
    using set [of READ_EVENT] set [of RW_EVENT] W
    by (auto simp: ends_well_def PauseSending_eq ResumeSending_eq run_after run_unwrap run_give)
qed

lemma sound_call_ends_well:
  assumes inv: "wrap_inv w" and mem: "wf_mem w" and E: "fresh_fds E" "recvmsg_documented E"
    and obj: "f \<noteq> New_fn \<Longrightarrow> wrappers w obj \<noteq> None" and sound: "sound_call w f info"
    and payload: "\<And>W h. f = Receive_fn \<Longrightarrow> wrappers w obj = Some W \<Longrightarrow> frame_has_payload E h (wsocket W)"
    and js: "js_sound js"
  shows "ends_well (call_native E js f obj info) w"
proof (cases "f = New_fn")
  case True
  then show ?thesis
    using sound by (simp add: call_native_def call_native_with_def New_def [symmetric] sound_call_def New_ends_well [OF E(1)])
next
  case False
  with obj obtain W where W: "wrappers w obj = Some W" by blast
  have wf: "wf_socket (wsocket W)" "pollers w (wpoller W) \<noteq> None"
    using inv wrap_linksD(1) [OF _ W] by (simp_all add: wrap_inv_def wf_wrapper_def)
  note eq = call_native_def call_native_with_def
  show ?thesis
    using False sound W
    by (cases f) (simp_all add: eq sound_call_def Close_def [symmetric] AddMembership_def [symmetric] DropMembership_def [symmetric]
      Send_def [symmetric] Receive_def [symmetric] PauseSending_def [symmetric] ResumeSending_def [symmetric]
      poller_methods_ends_well [OF W wf(2)] Send_ends_well [OF W mem wf(1) _ js] Receive_ends_well [OF W mem E(2) payload js] membership_ends_well)
qed

section \<open>Properties\<close>

text \<open>
  C7. Exceptions of C++ and what leaves the addon, whatever the state of the program, the arguments and the
  answers of the kernel and of the allocator, the latter also to the objects that \<open>Wrapper\<close> makes, and
  provided the JavaScript functions that are called do not end with one themselves.  No method but
  \<open>Close\<close>, no handler of a libuv event and no destructor ends with an exception of C++; nor does any method
  of \<open>Wrapper\<close> linked with the classes of \<open>cc_mocks\<close>.  \<open>Close\<close> can end with one: with \<open>std::bad_alloc\<close>, when the
  allocator refuses the \<open>NullPoller\<close>, and then the object points to the poller it has deleted.
\<close>

theorem no_exception_escapes:
  assumes "\<And>f args. raises not_cpp (js f args)" and "\<And>f args. raises not_cpp (js' f args)"
  shows "(f \<noteq> Close_fn \<longrightarrow>
      run_state (call_native_with (allocating_Socket E k) (allocating_Poller E n u m) E js f obj info) w = (Inl e, w') \<longrightarrow>
      what e = None) \<and>
    (run_state (call_native_with (allocating_Socket E k) (allocating_Poller E n u m) E js Close_fn obj info) w = (Inl e, w') \<longrightarrow>
      what e = None \<or> e = Bad_alloc \<and> (\<exists>h. \<not> os_alloc E h m) \<and>
        (\<exists>W. wrappers w' obj = Some W \<and> pollers w' (wpoller W) = None)) \<and>
    (run_state (watcher_event E js h status revents) w = (Inl e, w') \<longrightarrow> what e = None) \<and>
    (run_state (Wrapper_delete E obj) w = (Inl e, w') \<longrightarrow> what e = None) \<and>
    (run_state (call_native_with (mock_Socket M rows garbage) (mock_Poller M rows) E js' f obj info) v = (Inl e, v') \<longrightarrow>
       what e = None)"
proof (intro conjI impI)
  assume "f \<noteq> Close_fn" and
    "run_state (call_native_with (allocating_Socket E k) (allocating_Poller E n u m) E js f obj info) w = (Inl e, w')"
  from raisesD [OF allocating.call_native_silent [OF assms(1) this(1)] this(2)] show "what e = None"
    by (simp add: not_cpp_def)
next
  assume "run_state (call_native_with (allocating_Socket E k) (allocating_Poller E n u m) E js Close_fn obj info) w = (Inl e, w')"
  then show "what e = None \<or> e = Bad_alloc \<and> (\<exists>h. \<not> os_alloc E h m) \<and>
        (\<exists>W. wrappers w' obj = Some W \<and> pollers w' (wpoller W) = None)"
    using Close_refused [of E n u m obj w e w'] by (auto simp: call_native_with_def)
next
  assume "run_state (watcher_event E js h status revents) w = (Inl e, w')"
  from raisesD [OF watcher_event_silent [OF assms(1)] this] show "what e = None" by (simp add: not_cpp_def)
next
  assume "run_state (Wrapper_delete E obj) w = (Inl e, w')"
  from raisesD [OF addon.Wrapper_delete_silent this [unfolded Wrapper_delete_def]] show "what e = None"
    by (simp add: not_cpp_def)
next
  assume "run_state (call_native_with (mock_Socket M rows garbage) (mock_Poller M rows) E js' f obj info) v = (Inl e, v')"
  from raisesD [OF mocked.every_native_silent [OF assms(2)] this] show "what e = None" by (simp add: not_cpp_def)
qed

text \<open>
  C8. Sound calls stay within C++.  The object is live, the Buffers have their memory, a device name fits
  its field, no membership is asked for by a number that converts to 0, and, for \<open>Receive\<close>, the frames that
  \<open>recvmsg\<close> delivers are longer than the Ethernet header (Buffers over freed or too small blocks come from
  the others).  Then a method returns, or throws a JavaScript error, or its callback does; it meets no
  undefined behaviour, whatever else the kernel, the allocator and \<open>NewBuffer\<close> answer.  Of the callback this
  asks only that it returns or throws a JavaScript error when it is called with sound values, so the Buffers
  it is handed lie within live blocks.  (Allocation of byte buffers may fail, that of objects does not.)
\<close>

theorem sound_calls_return:
  assumes "wrap_inv w" and "wf_mem w" and "fresh_fds E" and "recvmsg_documented E"
    and "f \<noteq> New_fn \<longrightarrow> wrappers w obj \<noteq> None" and "sound_call w f info"
    and "\<And>W h. f = Receive_fn \<Longrightarrow> wrappers w obj = Some W \<Longrightarrow> frame_has_payload E h (wsocket W)"
    and "\<And>f args w e w'. \<forall>v \<in> set args. sound_value w v \<Longrightarrow> run_state (js f args) w = (Inl e, w') \<Longrightarrow> is_js_error e"
  shows "(\<exists>v w'. run_state (call_native E js f obj info) w = (Inr v, w')) \<or>
    (\<exists>e w'. run_state (call_native E js f obj info) w = (Inl e, w') \<and> is_js_error e)"
proof -
  have js: "js_sound js"
    unfolding js_sound_def ends_well_def
  proof (intro allI impI)
    fix f args w e
    assume "\<forall>v \<in> set args. sound_value w v" "fst (run_state (js f args) w) = Inl e"
    then show "is_js_error e" using assms(8) [of args w f e "snd (run_state (js f args) w)"] by (metis prod.collapse)
  qed
  obtain r w' where r: "run_state (call_native E js f obj info) w = (r, w')" by fastforce
  have "ends_well (call_native E js f obj info) w"
    using assms(5) by (intro sound_call_ends_well [OF assms(1-4) _ assms(6) assms(7) js]) simp_all
  with r show ?thesis by (cases r) (auto simp: ends_well_def)
qed

text \<open>An allocator that refuses everything, and an object closed under it\<close>

definition starving :: env where
  "starving = sample_env\<lparr>os_alloc := (\<lambda>h n. False)\<rparr>"

theorem no_exception_escapes_witness:
  "\<exists>w' W. run_state (call_native_with (allocating_Socket starving 40) (allocating_Poller starving 48 160 8) starving js_idle
       Close_fn 0 []) sample_wrap_world = (Inl Bad_alloc, w') \<and>
     wrappers w' 0 = Some W \<and> pollers w' (wpoller W) = None"
proof -
  have js: "raises not_cpp (js_idle f args)" "raises not_cpp ((\<lambda>f args. give JUndefined) f args)" for f args
    by (simp_all add: js_idle_def raises_give)
  obtain w' where run: "run_state (call_native_with (allocating_Socket starving 40) (allocating_Poller starving 48 160 8) starving
      js_idle Close_fn 0 []) sample_wrap_world = (Inl Bad_alloc, w')"
    by (simp add: call_native_with_def Close_with_def allocating_members run_after run_unwrap run_delete_poller
        run_obtain_memory starving_def del: One_nat_def)
  with no_exception_escapes [of js_idle "\<lambda>f args. give JUndefined" Close_fn starving 40 48 160 8 0 "[]" sample_wrap_world Bad_alloc w',
      OF js, THEN conjunct2, THEN conjunct1]
  show ?thesis by auto
qed

theorem sound_calls_return_witness:
  "\<exists>v w'. run_state (call_native (delivering sample_frame) js_idle Receive_fn 0 [JFunction 9]) sample_wrap_world = (Inr v, w') \<or>
     (\<exists>e. run_state (call_native (delivering sample_frame) js_idle Receive_fn 0 [JFunction 9]) sample_wrap_world = (Inl e, w') \<and>
        is_js_error e)"
proof -
  have "sound_call sample_wrap_world Receive_fn [JFunction 9]" by (simp add: sound_call_def sound_value_def)
  moreover have "length sample_frame = 16" by (simp add: sample_frame_def)
  then have "frame_has_payload (delivering sample_frame) h s" for h s
    by (simp add: frame_has_payload_def delivering(4))
  moreover have "fresh_fds (delivering sample_frame)"
    using sample_env_documented(1) by (simp add: delivering_def fresh_fds_def)
  ultimately show ?thesis
    using sound_calls_return [OF sample_inv sample_wf_mem _ delivering(1), of "sample_frame" Receive_fn 0 "[JFunction 9]" js_idle]
    by (auto simp: sample_wrap_simps js_idle_def run_give)
qed

end
