(* ===== verification/Socket_Tests.thy ===== *)
theory Socket_Tests
  imports Socket_Facts Mock_Support
begin

text \<open>
  The test suite of the class \<open>Socket\<close>, \<open>cc_tests/socket.cc\<close>, run on the model.  The file replaces
  the system calls by mocks that answer what each test expects; here they are an environment
  \<open>mock_env\<close>.  The mocks rely on the CppUMock library, which is not part of the repository: it is the
  parameter \<open>M\<close>, asked for the answer to a call and for the verdict at the end of a test, and what
  the tests rely on is \<open>mock_documented\<close> (\<open>Mock_Support\<close>).  What the mocks leave open (the contents of uninitialised
  memory, \<open>strerror\<close>) is taken from an arbitrary environment \<open>E\<close>.  That the tests pass is shown in
  \<open>Socket_Tests_Facts\<close>.
\<close>

unbundle bit_operations_syntax

section \<open>Mocked calls\<close>

text \<open>What each mocked function reports to the framework\<close>

fun actual_call :: "event \<Rightarrow> mock_call option" where
  "actual_call (Ev_socket domain type protocol _) =
     Some (''socket'', [(''domain'', Signed domain), (''type'', Signed type), (''protocol'', Signed protocol)])"
| "actual_call (Ev_close fd _) = Some (''close'', [(''fd'', Signed fd)])"
| "actual_call (Ev_fcntl fd cmd _ _) = Some (''fcntl'', [(''fd'', Signed fd), (''cmd'', Signed cmd)])"
| "actual_call (Ev_ioctl fd request _ _ _) =
     Some (''ioctl'', [(''fd'', Signed fd), (''request'', ULong request),
       (''interface_index'', Output), (''hardware_address'', Output)])"
| "actual_call (Ev_bind fd addr len _) =
     Some (''bind'', [(''fd'', Signed fd), (''addr'', Sockaddr addr), (''addr_len'', Unsigned len)])"
| "actual_call (Ev_sendto fd buf n flags addr addr_len _) =
     Some (''sendto'', [(''fd'', Signed fd), (''buf'', Memory (take (unat n) buf)), (''n'', Unsigned (ucast n)),
       (''flags'', Signed flags), (''addr'', Sockaddr addr), (''addr_len'', Unsigned addr_len)])"
| "actual_call (Ev_recvmsg fd message flags _) =
     Some (''recvmsg'', [(''fd'', Signed fd), (''flags'', Signed flags), (''addr_len'', Unsigned (msg_namelen message)),
       (''addr'', Output), (''ethernet_header'', Output),
       (''ethernet_header_size'', Unsigned (ucast (msg_iov_lens message ! 0))),
       (''message'', Output), (''message_size'', Unsigned (ucast (msg_iov_lens message ! 1)))])"
| "actual_call (Ev_setsockopt fd level optname optval optlen _) =
     Some (''setsockopt'', [(''fd'', Signed fd), (''level'', Signed level), (''optname'', Signed optname),
       (''optval'', Mreq optval), (''optlen'', Unsigned optlen)])"
| "actual_call _ = None"

definition mocked_calls :: "history \<Rightarrow> mock_call list" where
  "mocked_calls h = List.map_filter actual_call h"

text \<open>\<open>returnIntValueOrDefault\<close> and an output parameter of a mocked function\<close>

definition returns :: "mock_support \<Rightarrow> expectation list \<Rightarrow> event \<Rightarrow> i32 \<Rightarrow> i32" where
  "returns M rows ev dflt =
     (case actual_call ev of
        None \<Rightarrow> dflt
      | Some c \<Rightarrow> (case fst (answer M rows c) of None \<Rightarrow> dflt | Some v \<Rightarrow> v))"

definition output_of :: "mock_support \<Rightarrow> expectation list \<Rightarrow> event \<Rightarrow> string \<Rightarrow> byte list" where
  "output_of M rows ev k = (case actual_call ev of None \<Rightarrow> [] | Some c \<Rightarrow> snd (answer M rows c) k)"

section \<open>The mocked system calls\<close>

text \<open>
  An \<open>unsigned int\<close> result becomes a non-negative \<open>ssize_t\<close>; \<open>ioctl\<close> stores its outputs at the start
  of the union and behind the address family.  The answers in the event are not looked at.
\<close>

definition mock_env :: "env \<Rightarrow> mock_support \<Rightarrow> expectation list \<Rightarrow> env" where
  "mock_env E M rows = E\<lparr>
     os_socket := (\<lambda>h d t p. returns M rows (Ev_socket d t p 0) 5),
     os_close := (\<lambda>h fd. returns M rows (Ev_close fd 0) 0),
     os_fcntl := (\<lambda>h fd cmd arg. returns M rows (Ev_fcntl fd cmd arg 0) 0),
     os_ioctl := (\<lambda>h fd rq ifr. let ev = Ev_ioctl fd rq ifr 0 ifr in
        (returns M rows ev 0,
         patch_at (overwrite (ifr_ifru ifr) (output_of M rows ev ''interface_index'')) 2
           (output_of M rows ev ''hardware_address''))),
     os_bind := (\<lambda>h fd a n. returns M rows (Ev_bind fd a n 0) 0),
     os_sendto := (\<lambda>h fd buf n fl a k. ucast (returns M rows (Ev_sendto fd buf n fl a k 0) (ucast n))),
     os_recvmsg := (\<lambda>h fd m fl. let ev = Ev_recvmsg fd m fl 0 in
        (ucast (returns M rows ev 1),
         output_of M rows ev ''ethernet_header'' @ output_of M rows ev ''message'', output_of M rows ev ''addr'')),
     os_setsockopt := (\<lambda>h fd l opt m n. returns M rows (Ev_setsockopt fd l opt m n 0) 0)\<rparr>"

section \<open>Running a test\<close>

definition runtime_error :: "error \<Rightarrow> bool" where
  "runtime_error e \<longleftrightarrow> (case e of Runtime_error _ \<Rightarrow> True | _ \<Rightarrow> False)"

definition invalid_argument :: "error \<Rightarrow> bool" where
  "invalid_argument e \<longleftrightarrow> (case e of Invalid_argument _ \<Rightarrow> True | _ \<Rightarrow> False)"

text \<open>\<open>CHECK_THROWS\<close>, and the pattern \<open>try ... catch(...) FAIL\<close>\<close>

definition CHECK_THROWS :: "(error \<Rightarrow> bool) \<Rightarrow> ('w, 'b) prog \<Rightarrow> ('w, bool) prog" where
  "CHECK_THROWS kind m = catch_all (after m (\<lambda>_. give False)) (\<lambda>e. give (kind e))"

definition no_throw :: "('w, 'b) prog \<Rightarrow> ('w, bool) prog" where
  "no_throw m = catch_all (after m (\<lambda>_. give True)) (\<lambda>_. give False)"

text \<open>A test with its expectations; the teardown checks that they are met.\<close>

definition SocketInit_test :: "env \<Rightarrow> mock_support \<Rightarrow> expectation list \<Rightarrow> (env \<Rightarrow> (world, bool) prog) \<Rightarrow> bool" where
  "SocketInit_test E M rows body =
     (case run_state (body (mock_env E M rows)) empty_world of
        (Inr ok, w) \<Rightarrow> ok \<and> verdict M rows (mocked_calls (trace w))
      | _ \<Rightarrow> False)"

section \<open>Group SocketInit\<close>

definition socket_descriptor_5 :: i32 where "socket_descriptor_5 = 5"

definition test_address :: "byte list" where "test_address = [0xde, 0xad, 0, 0, 0xbe, 0xef]"

definition ConstructorShouldFailOnSocketFail :: "env \<Rightarrow> mock_support \<Rightarrow> bool" where
  "ConstructorShouldFailOnSocketFail E M = SocketInit_test E M
     [andReturnValue (-1) (ignoreOtherParameters (expectOneCall ''socket'')),
      expectNoCall ''close'']
     (\<lambda>E. CHECK_THROWS runtime_error (Socket_new E ''rfm0''))"

definition ConstructorShouldFailOnSettingNonBlockingModeFail :: "env \<Rightarrow> mock_support \<Rightarrow> bool" where
  "ConstructorShouldFailOnSettingNonBlockingModeFail E M = SocketInit_test E M
     [andReturnValue socket_descriptor_5 (ignoreOtherParameters (expectOneCall ''socket'')),
      andReturnValue 0 (withParameter ''fd'' (Signed socket_descriptor_5) (expectOneCall ''close'')),
      andReturnValue (-1) (ignoreOtherParameters (expectOneCall ''fcntl''))]
     (\<lambda>E. CHECK_THROWS runtime_error (Socket_new E ''rfm0''))"

definition ConstructorShouldFailOnGettingInterfaceFail :: "env \<Rightarrow> mock_support \<Rightarrow> bool" where
  "ConstructorShouldFailOnGettingInterfaceFail E M = SocketInit_test E M
     [andReturnValue socket_descriptor_5 (ignoreOtherParameters (expectOneCall ''socket'')),
      andReturnValue 0 (withParameter ''fd'' (Signed socket_descriptor_5) (expectOneCall ''close'')),
      andReturnValue 0 (ignoreOtherParameters (expectNCalls 2 ''fcntl'')),
      andReturnValue (-1) (ignoreOtherParameters
        (withParameter ''request'' (ULong SIOCGIFINDEX) (expectOneCall ''ioctl'')))]
     (\<lambda>E. CHECK_THROWS runtime_error (Socket_new E ''rfm0''))"

definition ConstructorShouldFailOnGettingHardwareAddressFail :: "env \<Rightarrow> mock_support \<Rightarrow> bool" where
  "ConstructorShouldFailOnGettingHardwareAddressFail E M = SocketInit_test E M
     [andReturnValue socket_descriptor_5 (ignoreOtherParameters (expectOneCall ''socket'')),
      andReturnValue 0 (withParameter ''fd'' (Signed socket_descriptor_5) (expectOneCall ''close'')),
      andReturnValue 0 (ignoreOtherParameters (expectNCalls 2 ''fcntl'')),
      andReturnValue 0 (ignoreOtherParameters
        (withParameter ''request'' (ULong SIOCGIFINDEX) (expectOneCall ''ioctl''))),
      andReturnValue (-1) (ignoreOtherParameters
        (withParameter ''request'' (ULong SIOCGIFHWADDR) (expectOneCall ''ioctl'')))]
     (\<lambda>E. CHECK_THROWS runtime_error (Socket_new E ''rfm0''))"

definition ConstructorShouldFailOnBindFail :: "env \<Rightarrow> mock_support \<Rightarrow> bool" where
  "ConstructorShouldFailOnBindFail E M = SocketInit_test E M
     [andReturnValue socket_descriptor_5 (ignoreOtherParameters (expectOneCall ''socket'')),
      andReturnValue 0 (withParameter ''fd'' (Signed socket_descriptor_5) (expectOneCall ''close'')),
      andReturnValue 0 (ignoreOtherParameters (expectNCalls 2 ''fcntl'')),
      andReturnValue 0 (ignoreOtherParameters
        (withParameter ''request'' (ULong SIOCGIFINDEX) (expectOneCall ''ioctl''))),
      andReturnValue 0 (ignoreOtherParameters (withOutputParameterReturning ''hardware_address'' test_address
        (withParameter ''request'' (ULong SIOCGIFHWADDR) (expectOneCall ''ioctl'')))),
      andReturnValue (-1) (ignoreOtherParameters
        (withParameter ''fd'' (Signed socket_descriptor_5) (expectOneCall ''bind'')))]
     (\<lambda>E. CHECK_THROWS runtime_error (Socket_new E ''rfm0''))"

text \<open>The object of this test is a temporary, destroyed at once.\<close>

definition ConstructorShouldNotThrowOnSuccess :: "env \<Rightarrow> mock_support \<Rightarrow> bool" where
  "ConstructorShouldNotThrowOnSuccess E M = SocketInit_test E M
     [andReturnValue socket_descriptor_5 (ignoreOtherParameters (expectOneCall ''socket'')),
      andReturnValue 0 (withParameter ''fd'' (Signed socket_descriptor_5) (expectOneCall ''close'')),
      andReturnValue 0 (ignoreOtherParameters (expectNCalls 2 ''fcntl'')),
      andReturnValue 0 (ignoreOtherParameters
        (withParameter ''request'' (ULong SIOCGIFINDEX) (expectOneCall ''ioctl''))),
      andReturnValue 0 (ignoreOtherParameters (withOutputParameterReturning ''hardware_address'' test_address
        (withParameter ''request'' (ULong SIOCGIFHWADDR) (expectOneCall ''ioctl'')))),
      andReturnValue 0 (ignoreOtherParameters
        (withParameter ''fd'' (Signed socket_descriptor_5) (expectOneCall ''bind'')))]
     (\<lambda>E. no_throw (after (Socket_new E ''rfm0'') (Socket_delete E)))"

section \<open>Group SocketUsage\<close>

text \<open>
  Every test has a socket made under the expectations of the group's \<open>setup\<close>, and the destructor of
  the \<open>teardown\<close> after it; the expectations of the three parts are met together.
\<close>

definition socket_index_12 :: "byte list" where "socket_index_12 = [12, 0, 0, 0]"

definition SocketUsage_setup :: "expectation list" where
  "SocketUsage_setup =
     [andReturnValue socket_descriptor_5 (ignoreOtherParameters (expectOneCall ''socket'')),
      andReturnValue 0 (ignoreOtherParameters (expectNCalls 2 ''fcntl'')),
      andReturnValue 0 (ignoreOtherParameters (withOutputParameterReturning ''interface_index'' socket_index_12
        (withParameter ''request'' (ULong SIOCGIFINDEX) (expectOneCall ''ioctl'')))),
      andReturnValue 0 (ignoreOtherParameters (withOutputParameterReturning ''hardware_address'' test_address
        (withParameter ''request'' (ULong SIOCGIFHWADDR) (expectOneCall ''ioctl'')))),
      andReturnValue 0 (ignoreOtherParameters
        (withParameter ''fd'' (Signed socket_descriptor_5) (expectOneCall ''bind'')))]"

definition SocketUsage_teardown :: "expectation list" where
  "SocketUsage_teardown =
     [andReturnValue 0 (withParameter ''fd'' (Signed socket_descriptor_5) (expectOneCall ''close''))]"

definition SocketUsage_test ::
  "env \<Rightarrow> mock_support \<Rightarrow> expectation list \<Rightarrow> (env \<Rightarrow> socket \<Rightarrow> (world, bool) prog) \<Rightarrow> bool" where
  "SocketUsage_test E M rows body =
     (let rows = SocketUsage_setup @ rows @ SocketUsage_teardown; E = mock_env E M rows in
      case run_state
        (after (Socket_new E ''rfm0'') (\<lambda>socket.
         after (body E socket) (\<lambda>ok.
         after (Socket_delete E socket) (\<lambda>_. give ok)))) empty_world of
        (Inr ok, w) \<Rightarrow> ok \<and> verdict M rows (mocked_calls (trace w))
      | _ \<Rightarrow> False)"

definition GetDescriptorShouldReturnDescriptor :: "env \<Rightarrow> mock_support \<Rightarrow> bool" where
  "GetDescriptorShouldReturnDescriptor E M = SocketUsage_test E M []
     (\<lambda>E socket. give (get_descriptor socket = socket_descriptor_5))"

definition send_destination :: "byte list" where "send_destination = [0xde, 0xad, 0, 0, 0xff, 0xff]"

definition hello :: "byte list" where "hello = [0x68, 0x65, 0x6c, 0x6c, 0x6f]"

definition SendShouldThrowOnSendtoFail :: "env \<Rightarrow> mock_support \<Rightarrow> bool" where
  "SendShouldThrowOnSendtoFail E M = SocketUsage_test E M
     [andReturnValue (-1) (ignoreOtherParameters (expectOneCall ''sendto''))]
     (\<lambda>E socket.
      after (local_array send_destination) (\<lambda>destination_address.
      after (local_array (hello @ [0])) (\<lambda>message.
      CHECK_THROWS runtime_error (send_message E socket destination_address message 5))))"

definition SendShouldThrowOnSendtoNotSendEntirePacket :: "env \<Rightarrow> mock_support \<Rightarrow> bool" where
  "SendShouldThrowOnSendtoNotSendEntirePacket E M = SocketUsage_test E M
     [andReturnValue 3 (ignoreOtherParameters (expectOneCall ''sendto''))]
     (\<lambda>E socket.
      after (local_array send_destination) (\<lambda>destination_address.
      after (local_array (hello @ [0])) (\<lambda>message.
      CHECK_THROWS runtime_error (send_message E socket destination_address message 5))))"

text \<open>The expected frame is put together as the test does it: both addresses, the length in network
  byte order, the message.\<close>

definition SendShouldCallSendto :: "env \<Rightarrow> mock_support \<Rightarrow> bool" where
  "SendShouldCallSendto E M =
     (let addr = zero_sockaddr_ll\<lparr>sll_family := ucast AF_PACKET, sll_ifindex := 12, sll_halen := 6,
            sll_protocol := htons ETH_P_802_3, sll_addr := overwrite (replicate 8 0) test_address\<rparr>;
          send_buffer = send_destination @ test_address @ store16 (htons 5) @ hello in
      SocketUsage_test E M
        [andReturnValue (of_nat (length send_buffer))
          (withParameter ''addr_len'' (Unsigned sizeof_sockaddr_ll)
          (withParameter ''addr'' (Sockaddr addr)
          (withParameter ''flags'' (Signed 0)
          (withParameter ''n'' (Unsigned (of_nat (length send_buffer)))
          (withParameter ''buf'' (Memory send_buffer)
          (withParameter ''fd'' (Signed socket_descriptor_5) (expectOneCall ''sendto'')))))))]
        (\<lambda>E socket.
         after (local_array send_destination) (\<lambda>destination_address.
         after (local_array (hello @ [0])) (\<lambda>message.
         after (send_message E socket destination_address message 5) (\<lambda>rc.
         give (rc = 5))))))"

definition RecvShouldThrowOnRecvmsgFail :: "env \<Rightarrow> mock_support \<Rightarrow> bool" where
  "RecvShouldThrowOnRecvmsgFail E M = SocketUsage_test E M
     [andReturnValue (-1) (ignoreOtherParameters (expectOneCall ''recvmsg''))]
     (\<lambda>E socket.
      after (local_array (replicate 2000 0)) (\<lambda>receive_buffer.
      after (local_array (replicate 6 0)) (\<lambda>from_address.
      after (local_array (replicate 6 0)) (\<lambda>to_address.
      CHECK_THROWS runtime_error
        (receive_message E socket from_address to_address receive_buffer 2000)))))"

definition RecvShouldCallRecvmsg :: "env \<Rightarrow> mock_support \<Rightarrow> bool" where
  "RecvShouldCallRecvmsg E M =
     (let source_address = [0xde, 0xad, 0, 0, 0xff, 0xff];
          destination_address = [0xde, 0xad, 0, 0, 0xee, 0xff];
          ethernet_header = destination_address @ source_address @ store16 (htons 5) in
      SocketUsage_test E M
        [andReturnValue (of_nat (length hello + sizeof_ether_header))
          (withParameter ''message_size'' (Unsigned 2000)
          (withOutputParameterReturning ''message'' hello
          (withParameter ''ethernet_header_size'' (Unsigned 14)
          (withOutputParameterReturning ''ethernet_header'' ethernet_header
          (withOutputParameterReturning ''addr'' source_address
          (withParameter ''addr_len'' (Unsigned sizeof_sockaddr_ll)
          (withParameter ''flags'' (Signed 0)
          (withParameter ''fd'' (Signed socket_descriptor_5) (expectOneCall ''recvmsg'')))))))))]
        (\<lambda>E socket.
         after (local_array (replicate 2000 0)) (\<lambda>receive_buffer.
         after (local_array (replicate 6 0)) (\<lambda>from_address.
         after (local_array (replicate 6 0)) (\<lambda>to_address.
         after (receive_message E socket from_address to_address receive_buffer 2000) (\<lambda>received_bytes.
         after (load_bytes from_address 6) (\<lambda>from_bytes.
         after (load_bytes to_address 6) (\<lambda>to_bytes.
         after (load_bytes receive_buffer (unat received_bytes)) (\<lambda>message.
         give (from_bytes = source_address \<and> to_bytes = destination_address \<and>
               message = take (unat received_bytes) hello))))))))))"

definition multicast_address_ab :: "byte list" where "multicast_address_ab = [0xaa, 0xab, 0, 0, 0xff, 0xff]"

definition AddMembershipShouldThrowOnInvalidType :: "env \<Rightarrow> mock_support \<Rightarrow> bool" where
  "AddMembershipShouldThrowOnInvalidType E M = SocketUsage_test E M []
     (\<lambda>E socket. CHECK_THROWS invalid_argument (add_membership E socket 123 NULL))"

definition AddMembershipShouldThrowOnSetsockoptFail :: "env \<Rightarrow> mock_support \<Rightarrow> bool" where
  "AddMembershipShouldThrowOnSetsockoptFail E M = SocketUsage_test E M
     [andReturnValue (-1) (ignoreOtherParameters (expectOneCall ''setsockopt''))]
     (\<lambda>E socket.
      after (local_array multicast_address_ab) (\<lambda>multicast_address.
      CHECK_THROWS runtime_error (add_membership E socket PROMISCIOUS multicast_address)))"

definition setsockopt_row :: "i32 \<Rightarrow> packet_mreq \<Rightarrow> expectation" where
  "setsockopt_row optname multireq =
     andReturnValue 0
      (withParameter ''optlen'' (Unsigned sizeof_packet_mreq)
      (withParameter ''optval'' (Mreq multireq)
      (withParameter ''optname'' (Signed optname)
      (withParameter ''level'' (Signed SOL_PACKET)
      (withParameter ''fd'' (Signed socket_descriptor_5) (expectOneCall ''setsockopt''))))))"

definition AddMembershipShouldUseMRAddressOnlyMULTICASTType :: "env \<Rightarrow> mock_support \<Rightarrow> bool" where
  "AddMembershipShouldUseMRAddressOnlyMULTICASTType E M = SocketUsage_test E M
     [setsockopt_row ADD_MEMBERSHIP
        (zero_packet_mreq\<lparr>mr_ifindex := 12, mr_type := ucast PROMISCIOUS\<rparr>)]
     (\<lambda>E socket.
      after (local_array multicast_address_ab) (\<lambda>multicast_address.
      no_throw (add_membership E socket PROMISCIOUS multicast_address)))"

definition AddMembershipShouldCallSetsockopt :: "env \<Rightarrow> mock_support \<Rightarrow> bool" where
  "AddMembershipShouldCallSetsockopt E M = SocketUsage_test E M
     [setsockopt_row ADD_MEMBERSHIP
        (zero_packet_mreq\<lparr>mr_ifindex := 12, mr_type := ucast MULTICAST, mr_alen := 6,
          mr_address := overwrite (replicate 8 0) multicast_address_ab\<rparr>)]
     (\<lambda>E socket.
      after (local_array multicast_address_ab) (\<lambda>multicast_address.
      no_throw (add_membership E socket MULTICAST multicast_address)))"

definition DropMembershipShouldThrowOnInvalidType :: "env \<Rightarrow> mock_support \<Rightarrow> bool" where
  "DropMembershipShouldThrowOnInvalidType E M = SocketUsage_test E M []
     (\<lambda>E socket. CHECK_THROWS invalid_argument (drop_membership E socket 123 NULL))"

definition DropMembershipShouldThrowOnSetsockoptFail :: "env \<Rightarrow> mock_support \<Rightarrow> bool" where
  "DropMembershipShouldThrowOnSetsockoptFail E M = SocketUsage_test E M
     [andReturnValue (-1) (ignoreOtherParameters (expectOneCall ''setsockopt''))]
     (\<lambda>E socket.
      after (local_array multicast_address_ab) (\<lambda>multicast_address.
      CHECK_THROWS runtime_error (drop_membership E socket PROMISCIOUS multicast_address)))"

definition DropMembershipShouldUseMRAddressOnlyMULTICASTType :: "env \<Rightarrow> mock_support \<Rightarrow> bool" where
  "DropMembershipShouldUseMRAddressOnlyMULTICASTType E M = SocketUsage_test E M
     [setsockopt_row DROP_MEMBERSHIP
        (zero_packet_mreq\<lparr>mr_ifindex := 12, mr_type := ucast PROMISCIOUS\<rparr>)]
     (\<lambda>E socket.
      after (local_array multicast_address_ab) (\<lambda>multicast_address.
      no_throw (drop_membership E socket PROMISCIOUS multicast_address)))"

definition DropMembershipShouldCallSetsockopt :: "env \<Rightarrow> mock_support \<Rightarrow> bool" where
  "DropMembershipShouldCallSetsockopt E M = SocketUsage_test E M
     [setsockopt_row DROP_MEMBERSHIP
        (zero_packet_mreq\<lparr>mr_ifindex := 12, mr_type := ucast MULTICAST, mr_alen := 6,
          mr_address := overwrite (replicate 8 0) multicast_address_ab\<rparr>)]
     (\<lambda>E socket.
      after (local_array multicast_address_ab) (\<lambda>multicast_address.
      no_throw (drop_membership E socket MULTICAST multicast_address)))"

end
