(* ===== verification/Socket_Tests_Facts.thy ===== *)
theory Socket_Tests_Facts
  imports Socket_Tests
begin

text \<open>
  The tests of \<open>Socket_Tests\<close> pass.  The answers of the mocks are computed once, for the rows of the
  group's \<open>setup\<close> and \<open>teardown\<close> whatever a test adds between them (\<open>setup_answers\<close>, \<open>own_answers\<close>,
  \<open>usage_met\<close>), so \<open>usage_test_passes\<close> leaves of each test its own part.  That part is run with the lemmas
  of \<open>Socket_Facts\<close> on \<open>send_message\<close>, \<open>receive_message\<close> and \<open>manage_membership\<close>.
\<close>

unbundle bit_operations_syntax

section \<open>The answers of the mocks\<close>

definition usage_rows :: "expectation list \<Rightarrow> expectation list" where
  "usage_rows rows = SocketUsage_setup @ rows @ SocketUsage_teardown"

definition hits :: "expectation \<Rightarrow> event \<Rightarrow> bool" where
  "hits x ev \<longleftrightarrow> (case actual_call ev of None \<Rightarrow> False | Some c \<Rightarrow> fits c x)"

definition one_row :: "expectation list \<Rightarrow> event \<Rightarrow> bool" where
  "one_row rows ev \<longleftrightarrow> length (filter (\<lambda>x. hits x ev) rows) = 1"

definition row_of :: "expectation list \<Rightarrow> event \<Rightarrow> expectation" where
  "row_of rows ev = hd (filter (\<lambda>x. hits x ev) rows)"

text \<open>What the library promises, on the events of a run\<close>

lemma answers:
  assumes "mock_documented M" and "one_row rows ev"
  shows "returns M rows ev d = (case return_value (row_of rows ev) of None \<Rightarrow> d | Some v \<Rightarrow> v)"
    and "output_of M rows ev k = (case map_of (outputs (row_of rows ev)) k of None \<Rightarrow> [] | Some bs \<Rightarrow> bs)"
proof -
  obtain c where c: "actual_call ev = Some c" using assms(2) by (cases "actual_call ev") (simp_all add: one_row_def hits_def)
  have "filter (\<lambda>x. hits x ev) rows = filter (fits c) rows" by (simp add: hits_def c)
  with assms(2) documentedD(1) [OF assms(1), of c rows] have "answer M rows c = answer_of (row_of rows ev)"
    by (simp only: one_row_def row_of_def)
  with c show "returns M rows ev d = (case return_value (row_of rows ev) of None \<Rightarrow> d | Some v \<Rightarrow> v)"
    "output_of M rows ev k = (case map_of (outputs (row_of rows ev)) k of None \<Rightarrow> [] | Some bs \<Rightarrow> bs)"
    by (simp_all add: returns_def output_of_def answer_of_def)
qed

lemma count_mocked: "length (filter P (mocked_calls h)) =
   length (filter (\<lambda>ev. case actual_call ev of None \<Rightarrow> False | Some c \<Rightarrow> P c) h)"
  by (induction h) (simp_all add: mocked_calls_def map_filter_simps split: option.splits)

lemma all_mocked: "list_all P (mocked_calls h) \<longleftrightarrow> list_all (\<lambda>ev. case actual_call ev of None \<Rightarrow> True | Some c \<Rightarrow> P c) h"
  by (induction h) (simp_all add: mocked_calls_def map_filter_simps split: option.splits)

lemma met_hits:
  "met rows (mocked_calls h) \<longleftrightarrow> list_all (\<lambda>x. length (filter (hits x) h) = calls x) rows \<and>
     list_all (\<lambda>ev. actual_call ev = None \<or> one_row rows ev) h"
proof -
  have 1: "(case actual_call ev of None \<Rightarrow> True | Some c \<Rightarrow> length (filter (fits c) rows) = 1) \<longleftrightarrow>
      actual_call ev = None \<or> one_row rows ev" for ev
    by (cases "actual_call ev") (simp_all only: one_row_def hits_def option.case simp_thms option.distinct)
  have 2: "(\<lambda>ev. case actual_call ev of None \<Rightarrow> False | Some c \<Rightarrow> fits c x) = hits x" for x
    by (simp add: fun_eq_iff hits_def)
  show ?thesis unfolding met_def count_mocked all_mocked 1 2 ..
qed

text \<open>The calls a test itself may expect; \<open>setup\<close> and \<open>teardown\<close> never make them.\<close>

definition own_calls :: "string set" where
  "own_calls = {''sendto'', ''recvmsg'', ''setsockopt''}"

definition own_event :: "event \<Rightarrow> bool" where
  "own_event ev \<longleftrightarrow> (case actual_call ev of None \<Rightarrow> True | Some c \<Rightarrow> fst c \<in> own_calls)"

abbreviation own_rows :: "expectation list \<Rightarrow> bool" where
  "own_rows \<equiv> list_all (\<lambda>x. call_name x \<in> own_calls)"

lemma own_not_hit:
  "own_event ev \<Longrightarrow> call_name x \<notin> own_calls \<Longrightarrow> \<not> hits x ev"
  by (auto simp: own_event_def hits_def fits_def split: option.splits)

lemma other_hits:
  assumes "own_rows rows" and "actual_call ev = Some c" and "fst c \<notin> own_calls"
  shows "filter (\<lambda>x. hits x ev) rows = []"
  using assms by (auto simp: list_all_iff hits_def fits_def filter_empty_conv)

lemma other_rows:
  assumes "own_rows rows" and "actual_call ev = Some c" and "fst c \<notin> own_calls"
  shows "one_row (usage_rows rows) ev = one_row (usage_rows []) ev" "row_of (usage_rows rows) ev = row_of (usage_rows []) ev"
  using other_hits [OF assms] by (simp_all add: one_row_def row_of_def usage_rows_def)

text \<open>What the rows of \<open>setup\<close> answer, whatever the test adds behind them\<close>

lemmas row_eval = row_of_def one_row_def hits_def fits_def expectation_defs
  socket_descriptor_5_def test_address_def socket_index_12_def SIOCGIFINDEX_def SIOCGIFHWADDR_def

lemma setup_rows:
  assumes "own_rows rows"
  shows "one_row (usage_rows rows) (Ev_socket d t p r)"
    "one_row (usage_rows rows) (Ev_fcntl fd cmd arg r)"
    "one_row (usage_rows rows) (Ev_ioctl fd SIOCGIFINDEX i r i')"
    "one_row (usage_rows rows) (Ev_ioctl fd SIOCGIFHWADDR i r i')"
    "one_row (usage_rows rows) (Ev_bind 5 a n r)"
    "one_row (usage_rows rows) (Ev_close 5 r)"
  by (subst other_rows(1) [OF assms], simp, simp add: own_calls_def,
      simp add: row_eval usage_rows_def SocketUsage_setup_def SocketUsage_teardown_def)+

lemma setup_answers:
  assumes "mock_documented M" and "own_rows rows"
  shows "returns M (usage_rows rows) (Ev_socket d t p r) x = 5"
    "returns M (usage_rows rows) (Ev_fcntl fd cmd arg r) x = 0"
    "returns M (usage_rows rows) (Ev_ioctl fd SIOCGIFINDEX i r i') x = 0"
    "returns M (usage_rows rows) (Ev_ioctl fd SIOCGIFHWADDR i r i') x = 0"
    "returns M (usage_rows rows) (Ev_bind 5 a n r) x = 0"
    "returns M (usage_rows rows) (Ev_close 5 r) x = 0"
    "output_of M (usage_rows rows) (Ev_ioctl fd SIOCGIFINDEX i r i') ''interface_index'' = socket_index_12"
    "output_of M (usage_rows rows) (Ev_ioctl fd SIOCGIFINDEX i r i') ''hardware_address'' = []"
    "output_of M (usage_rows rows) (Ev_ioctl fd SIOCGIFHWADDR i r i') ''interface_index'' = []"
    "output_of M (usage_rows rows) (Ev_ioctl fd SIOCGIFHWADDR i r i') ''hardware_address'' = test_address"
  by (subst answers [OF assms(1) setup_rows(1) [OF assms(2)]] answers [OF assms(1) setup_rows(2) [OF assms(2)]]
        answers [OF assms(1) setup_rows(3) [OF assms(2)]] answers [OF assms(1) setup_rows(4) [OF assms(2)]]
        answers [OF assms(1) setup_rows(5) [OF assms(2)]] answers [OF assms(1) setup_rows(6) [OF assms(2)]],
      subst other_rows(2) [OF assms(2)], simp, simp add: own_calls_def,
      simp add: row_eval usage_rows_def SocketUsage_setup_def SocketUsage_teardown_def)+

lemma setup_index: "length bs = 24 \<Longrightarrow> load32 (overwrite bs (patch_at (overwrite bs socket_index_12) 2 [])) = 12"
  by (simp add: load32_def overwrite_def patch_at_def socket_index_12_def)

lemma setup_address:
  "length bs = 24 \<Longrightarrow> take 6 (drop 2 (overwrite bs (patch_at (overwrite bs []) 2 test_address))) = test_address"
  by (simp add: overwrite_def patch_at_def test_address_def)

lemma mock_env_fields:
  "os_socket (mock_env E M rows) h d t p = returns M rows (Ev_socket d t p 0) 5"
  "os_close (mock_env E M rows) h fd = returns M rows (Ev_close fd 0) 0"
  "os_fcntl (mock_env E M rows) h fd cmd arg = returns M rows (Ev_fcntl fd cmd arg 0) 0"
  "os_ioctl (mock_env E M rows) h fd rq ifr = (returns M rows (Ev_ioctl fd rq ifr 0 ifr) 0,
     patch_at (overwrite (ifr_ifru ifr) (output_of M rows (Ev_ioctl fd rq ifr 0 ifr) ''interface_index'')) 2
       (output_of M rows (Ev_ioctl fd rq ifr 0 ifr) ''hardware_address''))"
  "os_bind (mock_env E M rows) h fd a n = returns M rows (Ev_bind fd a n 0) 0"
  "os_sendto (mock_env E M rows) h fd buf len fl a k =
     ucast (returns M rows (Ev_sendto fd buf len fl a k 0) (ucast len))"
  "os_recvmsg (mock_env E M rows) h fd m fl =
     (ucast (returns M rows (Ev_recvmsg fd m fl 0) 1),
      output_of M rows (Ev_recvmsg fd m fl 0) ''ethernet_header'' @ output_of M rows (Ev_recvmsg fd m fl 0) ''message'',
      output_of M rows (Ev_recvmsg fd m fl 0) ''addr'')"
  "os_setsockopt (mock_env E M rows) h fd l opt mreq n = returns M rows (Ev_setsockopt fd l opt mreq n 0) 0"
  "os_alloc (mock_env E M rows) = os_alloc E"
  "os_errno (mock_env E M rows) = os_errno E"
  "os_strerror (mock_env E M rows) = os_strerror E"
  "indet_bytes (mock_env E M rows) = indet_bytes E"
  by (simp_all add: mock_env_def Let_def)

lemma usage_socket:
  "sample_socket = \<lparr>device_name = ''rfm0'', socket_descriptor = 5, interface_index = 12, hardware_address = test_address\<rparr>"
  by (simp add: sample_socket_def test_address_def)

definition setup_calls :: "history \<Rightarrow> bool" where
  "setup_calls h \<longleftrightarrow> (\<exists>i1 i2 i3 b. h = [Ev_socket 17 3 (ucast (htons ETH_P_ALL)) 5,
     Ev_fcntl 5 F_GETFL 0 0, Ev_fcntl 5 F_SETFL O_NONBLOCK 0, Ev_ioctl 5 SIOCGIFINDEX i1 0 i2,
     Ev_ioctl 5 SIOCGIFHWADDR i2 0 i3, Ev_bind 5 b sizeof_sockaddr_ll 0])"

lemma usage_setup_run:
  assumes "mock_documented M" and "own_rows rows"
  obtains h where "setup_calls h"
    "run_state (Socket_new (mock_env E M (usage_rows rows)) ''rfm0'') empty_world =
       (Inr sample_socket, empty_world\<lparr>trace := h\<rparr>)"
proof -
  have "\<exists>h. setup_calls h \<and> run_state (Socket_new (mock_env E M (usage_rows rows)) ''rfm0'') empty_world =
       (Inr sample_socket, empty_world\<lparr>trace := h\<rparr>)"
    unfolding setup_calls_def usage_socket
    by (simp add: Socket_new_def Socket_setup_def syscall_defs run_syscall run_simps strcpy_ifr_name_def
       Let_def mock_env_fields setup_answers [OF assms] setup_index setup_address IFNAMSIZ_def
       AF_PACKET_def SOCK_RAW_def ETHER_ADDR_LEN_def sizeof_ifru_def) fastforce
  with that show thesis by blast
qed

lemma own_rows_only:
  assumes "own_event ev"
  shows "one_row (usage_rows rows) ev = one_row rows ev" "row_of (usage_rows rows) ev = row_of rows ev"
proof -
  have "\<forall>x\<in>set SocketUsage_setup \<union> set SocketUsage_teardown. call_name x \<notin> own_calls"
    by (auto simp: own_calls_def SocketUsage_setup_def SocketUsage_teardown_def expectation_defs)
  with own_not_hit [OF assms] have "filter (\<lambda>x. hits x ev) SocketUsage_setup = []"
    "filter (\<lambda>x. hits x ev) SocketUsage_teardown = []" by (auto simp: filter_empty_conv)
  then show "one_row (usage_rows rows) ev = one_row rows ev" "row_of (usage_rows rows) ev = row_of rows ev"
    by (simp_all add: one_row_def row_of_def usage_rows_def)
qed

lemma own_answers:
  assumes "mock_documented M" and "own_event ev" and "one_row rows ev"
  shows "returns M (usage_rows rows) ev d = (case return_value (row_of rows ev) of None \<Rightarrow> d | Some v \<Rightarrow> v)"
    and "output_of M (usage_rows rows) ev k = (case map_of (outputs (row_of rows ev)) k of None \<Rightarrow> [] | Some bs \<Rightarrow> bs)"
  using answers [OF assms(1), of "usage_rows rows" ev] assms(3) by (simp_all add: own_rows_only [OF assms(2)])

lemma setup_counts:
  assumes "setup_calls h"
  shows "list_all (\<lambda>x. length (filter (hits x) h) = calls x) SocketUsage_setup"
    "filter (hits (andReturnValue 0 (withParameter ''fd'' (Signed socket_descriptor_5) (expectOneCall ''close'')))) h = []"
    "own_rows rows \<Longrightarrow> list_all (one_row (usage_rows rows)) h"
    "call_name x \<in> own_calls \<Longrightarrow> filter (hits x) h = []"
proof -
  obtain i1 i2 i3 b where h: "h = [Ev_socket 17 3 (ucast (htons ETH_P_ALL)) 5,
     Ev_fcntl 5 F_GETFL 0 0, Ev_fcntl 5 F_SETFL O_NONBLOCK 0, Ev_ioctl 5 SIOCGIFINDEX i1 0 i2,
     Ev_ioctl 5 SIOCGIFHWADDR i2 0 i3, Ev_bind 5 b sizeof_sockaddr_ll 0]"
    using assms unfolding setup_calls_def by blast
  show "list_all (\<lambda>x. length (filter (hits x) h) = calls x) SocketUsage_setup"
    "filter (hits (andReturnValue 0 (withParameter ''fd'' (Signed socket_descriptor_5) (expectOneCall ''close'')))) h = []"
    by (simp_all add: h SocketUsage_setup_def row_eval)
  show "own_rows rows \<Longrightarrow> list_all (one_row (usage_rows rows)) h"
    by (simp add: h setup_rows)
  have "\<forall>ev\<in>set h. fst (the (actual_call ev)) \<notin> own_calls" by (simp add: h own_calls_def)
  moreover have "call_name x = fst (the (actual_call ev))" if "hits x ev" for ev
    using that by (simp add: hits_def fits_def split: option.splits)
  ultimately show "call_name x \<in> own_calls \<Longrightarrow> filter (hits x) h = []"
    by (metis filter_empty_conv)
qed

lemma usage_met:
  assumes "setup_calls h" and own: "list_all own_event b" and rows: "own_rows rows"
    and met: "met rows (mocked_calls b)"
  shows "met (usage_rows rows) (mocked_calls (h @ b @ [Ev_close 5 0]))"
proof -
  have away: "filter (hits x) b = []" if "call_name x \<notin> own_calls" for x
    using own that own_not_hit by (auto simp: filter_empty_conv list_all_iff)
  have s: "list_all (\<lambda>x. call_name x \<notin> own_calls \<and> \<not> hits x (Ev_close 5 0)) SocketUsage_setup"
    by (simp add: SocketUsage_setup_def own_calls_def row_eval)
  have c: "hits x (Ev_close 5 0) \<Longrightarrow> call_name x \<notin> own_calls" for x
    by (auto simp: hits_def fits_def own_calls_def)
  have 1: "length (filter (hits x) (h @ b @ [Ev_close 5 0])) = calls x" if "x \<in> set SocketUsage_setup" for x
    using setup_counts(1) [OF assms(1)] s that by (simp add: list_all_iff away)
  have 2: "length (filter (hits x) (h @ b @ [Ev_close 5 0])) = calls x" if "x \<in> set rows" for x
    using setup_counts(4) [OF assms(1)] met rows that c by (auto simp: list_all_iff met_hits)
  have 3: "length (filter (hits x) (h @ b @ [Ev_close 5 0])) = calls x" if "x \<in> set SocketUsage_teardown" for x
  proof -
    have "call_name x \<notin> own_calls \<and> calls x = 1 \<and> hits x (Ev_close 5 0)"
      using that by (simp add: SocketUsage_teardown_def own_calls_def row_eval)
    moreover have "filter (hits x) h = []"
      using that setup_counts(2) [OF assms(1)] by (simp add: SocketUsage_teardown_def)
    ultimately show ?thesis by (simp add: away)
  qed
  have "list_all (\<lambda>x. length (filter (hits x) (h @ b @ [Ev_close 5 0])) = calls x) (usage_rows rows)"
    unfolding list_all_iff usage_rows_def using 1 2 3 by (simp only: set_append) blast
  moreover have "list_all (\<lambda>ev. actual_call ev = None \<or> one_row (usage_rows rows) ev) b"
    using met own own_rows_only(1) [of _ rows] by (auto simp: met_hits list_all_iff)
  ultimately show ?thesis
    using setup_counts(3) [OF assms(1) rows] setup_rows(6) [OF rows, of 0]
    unfolding met_hits by (auto simp: list_all_iff)
qed

lemma usage_test_passes:
  assumes doc: "mock_documented M" and rows: "own_rows rows"
    and body: "\<And>h. \<exists>b v. run_state (body (mock_env E M (usage_rows rows)) sample_socket) (empty_world\<lparr>trace := h\<rparr>) = (Inr True, v) \<and>
      trace v = h @ b \<and> list_all own_event b \<and> met rows (mocked_calls b)"
  shows "SocketUsage_test E M rows body"
proof -
  obtain h where h: "setup_calls h" "run_state (Socket_new (mock_env E M (usage_rows rows)) ''rfm0'') empty_world =
      (Inr sample_socket, empty_world\<lparr>trace := h\<rparr>)" by (rule usage_setup_run [OF doc rows])
  obtain b v where b: "run_state (body (mock_env E M (usage_rows rows)) sample_socket) (empty_world\<lparr>trace := h\<rparr>) = (Inr True, v)"
    "trace v = h @ b" "list_all own_event b" "met rows (mocked_calls b)" using body [of h] by blast
  have "os_close (mock_env E M (usage_rows rows)) k 5 = 0" for k by (simp add: mock_env_fields setup_answers [OF doc rows])
  with h(2) b documentedD(2) [OF doc usage_met [OF h(1) b(3) rows b(4)]] show ?thesis
    unfolding SocketUsage_test_def Let_def usage_rows_def [symmetric]
    by (simp add: run_simps Socket_delete_def sys_close_def run_syscall sample_socket_def)
qed

section \<open>The tests that send\<close>

text \<open>They have two arrays in memory.\<close>

definition send_world :: "history \<Rightarrow> world" where
  "send_world h = \<lparr>trace = h, heap = [0 \<mapsto> send_destination, 1 \<mapsto> hello @ [0]], next_blk = 2\<rparr>"

definition hello_frame :: "byte list" where
  "hello_frame = send_destination @ test_address @ store16 (htons 5) @ hello"

lemma trace_send_world [simp]: "trace (send_world h) = h"
  by (simp add: send_world_def)

lemma send_arrays:
  "run_state (after (local_array send_destination) (\<lambda>a. after (local_array (hello @ [0])) (f a))) (empty_world\<lparr>trace := h\<rparr>) =
     run_state (f (Ptr 0 0) (Ptr (Suc 0) 0)) (send_world h)"
  by (simp add: run_simps send_world_def empty_world_def numeral_2_eq_2)

lemma hello_send_ready:
  assumes "\<And>h n. os_alloc E h n"
  shows "send_ready (mock_env E M rows) (send_world h) sample_socket (Ptr 0 0) (Ptr (Suc 0) 0) 5 send_destination hello"
  by (simp add: send_ready_def wf_mem_def wf_socket_def ETHER_ADDR_LEN_def send_world_def sample_socket_def
    send_destination_def hello_def mock_env_fields assms)

lemma hello_encoded: "encode_frame (message_frame sample_socket send_destination hello) = hello_frame"
  by (simp add: encode_frame_def message_frame_def hello_frame_def usage_socket store16_htons hello_def)

lemma run_send_hello:
  assumes "\<And>h n. os_alloc E h n"
  shows "run_state (send_message (mock_env E M (usage_rows rows)) sample_socket (Ptr 0 0) (Ptr (Suc 0) 0) 5) (send_world h) =
    (let r = ucast (returns M (usage_rows rows) (Ev_sendto 5 hello_frame 19 0 (send_addr sample_socket) sizeof_sockaddr_ll 0) 19);
         h' = h @ [Ev_alloc 19 (Ptr 2 0), Ev_sendto 5 hello_frame 19 0 (send_addr sample_socket) sizeof_sockaddr_ll r,
                   Ev_free (Ptr 2 0)]; rc = (ucast r :: i32)
     in (if rc = -1 then Inl (Runtime_error (os_strerror E (os_errno E h')))
         else if (scast rc :: u64) \<noteq> 19 then Inl (Runtime_error ''Failed to send entire packet'') else Inr 5,
         (send_world h)\<lparr>trace := h', next_blk := 3\<rparr>))"
  unfolding run_send_message [OF hello_send_ready [OF assms]] hello_encoded
  by (simp add: mock_env_fields Let_def send_world_def sample_socket_def)

lemma narrow_wide [simp]: "(ucast (ucast (x :: i32) :: u64) :: i32) = x"
  by (rule bit_word_eqI) (simp add: bit_simps)

lemmas test_eval = CHECK_THROWS_def no_throw_def run_simps runtime_error_def invalid_argument_def own_calls_def
  own_event_def met_hits hits_def

lemma send_fail_passes:
  assumes doc: "mock_documented M" and alloc: "\<And>h n. os_alloc E h n"
  shows "SendShouldThrowOnSendtoFail E M" "SendShouldThrowOnSendtoNotSendEntirePacket E M"
  unfolding SendShouldThrowOnSendtoFail_def SendShouldThrowOnSendtoNotSendEntirePacket_def
  by (rule usage_test_passes [OF doc], simp add: test_eval expectation_defs, unfold send_arrays,
    simp add: test_eval run_send_hello [OF alloc] own_answers [OF doc] row_eval Let_def)+

lemma SendShouldCallSendto_passes:
  assumes doc: "mock_documented M" and alloc: "\<And>h n. os_alloc E h n"
  shows "SendShouldCallSendto E M"
proof -
  have a: "zero_sockaddr_ll\<lparr>sll_family := ucast AF_PACKET, sll_ifindex := 12, sll_halen := 6,
      sll_protocol := htons ETH_P_802_3, sll_addr := overwrite (replicate 8 0) test_address\<rparr> = send_addr sample_socket"
    by (simp add: send_addr_def sample_socket_def test_address_def overwrite_def numeral_eq_Suc ETHER_ADDR_LEN_def)
  have l: "length hello_frame = 19"
    by (simp add: hello_frame_def send_destination_def test_address_def hello_def)
  show ?thesis
    unfolding SendShouldCallSendto_def Let_def a hello_frame_def [symmetric] l
    by (rule usage_test_passes [OF doc], simp add: test_eval expectation_defs, unfold send_arrays,
      simp add: test_eval run_send_hello [OF alloc] own_answers [OF doc] row_eval Let_def l)
qed

section \<open>The tests that receive\<close>

definition recv_world :: "history \<Rightarrow> world" where
  "recv_world h = \<lparr>trace = h, heap = [0 \<mapsto> replicate 2000 0, 1 \<mapsto> replicate 6 0, 2 \<mapsto> replicate 6 0], next_blk = 3\<rparr>"

lemma trace_recv_world [simp]: "trace (recv_world h) = h"
  by (simp add: recv_world_def)

lemma recv_arrays:
  "run_state (after (local_array (replicate 2000 0)) (\<lambda>a. after (local_array (replicate 6 0)) (\<lambda>b.
       after (local_array (replicate 6 0)) (f a b)))) (empty_world\<lparr>trace := h\<rparr>) =
     run_state (f (Ptr 0 0) (Ptr (Suc 0) 0) (Ptr 2 0)) (recv_world h)"
  by (simp add: run_simps recv_world_def empty_world_def numeral_2_eq_2 numeral_3_eq_3)

lemma RecvShouldThrowOnRecvmsgFail_passes:
  assumes doc: "mock_documented M"
  shows "RecvShouldThrowOnRecvmsgFail E M"
proof -
  let ?rows = "[andReturnValue (-1) (ignoreOtherParameters (expectOneCall ''recvmsg''))]"
  have o: "own_event (Ev_recvmsg fd m fl r)" for fd m fl r
    by (simp add: own_event_def own_calls_def)
  have os: "os_recvmsg (mock_env E M (usage_rows ?rows)) h 5 m 0 = (ucast (-1 :: i32), [], [])" for h m
    by (simp add: mock_env_fields own_answers [OF doc o] row_eval)
  show ?thesis
    unfolding RecvShouldThrowOnRecvmsgFail_def
    by (rule usage_test_passes [OF doc], simp add: test_eval expectation_defs, unfold recv_arrays,
      simp add: test_eval receive_message_def Let_def sys_recvmsg_def run_syscall sample_socket_def os,
      simp add: row_eval)
qed

definition recv_source :: "byte list" where "recv_source = [0xde, 0xad, 0, 0, 0xff, 0xff]"
definition recv_destination :: "byte list" where "recv_destination = [0xde, 0xad, 0, 0, 0xee, 0xff]"

lemma recv_hello_run:
  assumes "os_recvmsg E h 5 (recv_hdr E h 2000) 0 =
    (19, (recv_destination @ recv_source @ store16 (htons 5)) @ hello, recv_source)"
  shows "run_state (receive_message E sample_socket (Ptr (Suc 0) 0) (Ptr 2 0) (Ptr 0 0) 2000) (recv_world h) =
    (Inr 5, (recv_world h)\<lparr>trace := h @ [Ev_recvmsg 5 (recv_hdr E h 2000) 0 19],
       heap := [0 \<mapsto> overwrite (replicate 2000 0) hello, 1 \<mapsto> recv_source, 2 \<mapsto> recv_destination]\<rparr>)"
proof -
  have 1: "recv_ready (recv_world h) (Suc 0) 2 0 2000 (replicate 2000 0)"
    by (simp add: recv_ready_def recv_world_def ETHER_ADDR_LEN_def)
  have 2: "length ((recv_destination @ recv_source @ store16 (htons 5)) @ hello) = 19"
    by (simp add: recv_destination_def recv_source_def hello_def)
  have 3: "drop 14 ((recv_destination @ recv_source @ store16 (htons 5)) @ hello) = hello"
    "take 6 (overwrite g ((recv_destination @ recv_source @ store16 (htons 5)) @ hello)) = recv_destination"
    "take 6 (overwrite (replicate 8 0) recv_source) = recv_source" if "length g = 14" for g
    using that by (simp_all add: recv_destination_def recv_source_def hello_def overwrite_def store16_def)
  have 4: "(recv_world h)\<lparr>trace := t, heap := (heap (recv_world h))(0 \<mapsto> a, Suc 0 \<mapsto> b, 2 \<mapsto> c)\<rparr> =
      (recv_world h)\<lparr>trace := t, heap := [0 \<mapsto> a, 1 \<mapsto> b, 2 \<mapsto> c]\<rparr>" for t a b c
    by (simp add: recv_world_def)
  have 5: "os_recvmsg E (trace (recv_world h)) (socket_descriptor sample_socket) (recv_hdr E (trace (recv_world h)) 2000) 0 =
    (of_nat (length ((recv_destination @ recv_source @ store16 (htons 5)) @ hello)),
     (recv_destination @ recv_source @ store16 (htons 5)) @ hello, recv_source)"
    unfolding 2 trace_recv_world using assms by (simp add: sample_socket_def)
  have "run_state (receive_message E sample_socket (Ptr (Suc 0) 0) (Ptr 2 0) (Ptr 0 0) 2000) (recv_world h) =
    (Inr (of_nat 19 - 14), (recv_world h)\<lparr>trace := h @ [Ev_recvmsg 5 (recv_hdr E h 2000) 0 (of_nat 19)],
       heap := (heap (recv_world h))(0 \<mapsto> overwrite (replicate 2000 0) hello, Suc 0 \<mapsto> recv_source, 2 \<mapsto> recv_destination)\<rparr>)"
    using run_receive_message [OF 1 5] unfolding 2 3 [OF length_indet] trace_recv_world
    by (simp add: sample_socket_def)
  then show ?thesis by (simp add: 4)
qed

lemma RecvShouldCallRecvmsg_passes:
  assumes doc: "mock_documented M"
  shows "RecvShouldCallRecvmsg E M"
proof -
  have n: "(of_nat (length hello + sizeof_ether_header) :: i32) = 19"
    by (simp add: hello_def sizeof_ether_header_def)
  let ?row = "andReturnValue 19
          (withParameter ''message_size'' (Unsigned 2000)
          (withOutputParameterReturning ''message'' hello
          (withParameter ''ethernet_header_size'' (Unsigned 14)
          (withOutputParameterReturning ''ethernet_header'' (recv_destination @ recv_source @ store16 (htons 5))
          (withOutputParameterReturning ''addr'' recv_source
          (withParameter ''addr_len'' (Unsigned sizeof_sockaddr_ll)
          (withParameter ''flags'' (Signed 0)
          (withParameter ''fd'' (Signed socket_descriptor_5) (expectOneCall ''recvmsg'')))))))))"
  have o: "own_event (Ev_recvmsg fd m fl r)" for fd m fl r
    by (simp add: own_event_def own_calls_def)
  have f: "hits ?row (Ev_recvmsg 5 (recv_hdr F h 2000) 0 r)" for F h r
    by (simp add: hits_def fits_def expectation_defs recv_hdr_def socket_descriptor_5_def)
  then have row: "one_row [?row] (Ev_recvmsg 5 (recv_hdr F h 2000) 0 r)"
    "row_of [?row] (Ev_recvmsg 5 (recv_hdr F h 2000) 0 r) = ?row" for F h r
    by (simp_all add: one_row_def row_of_def)
  have os: "os_recvmsg (mock_env E M (usage_rows [?row])) h 5 (recv_hdr (mock_env E M (usage_rows [?row])) h 2000) 0 =
     (19, (recv_destination @ recv_source @ store16 (htons 5)) @ hello, recv_source)" for h
    unfolding mock_env_fields own_answers [OF doc o row(1)] row(2)
    by (simp add: expectation_defs hello_def sizeof_ether_header_def)
  have load: "run_state (load_bytes (Ptr (Suc 0) 0) 6) (w\<lparr>heap := [0 \<mapsto> a, 1 \<mapsto> recv_source, 2 \<mapsto> recv_destination]\<rparr>) =
     (Inr recv_source, w\<lparr>heap := [0 \<mapsto> a, 1 \<mapsto> recv_source, 2 \<mapsto> recv_destination]\<rparr>)"
    "run_state (load_bytes (Ptr 2 0) 6) (w\<lparr>heap := [0 \<mapsto> a, 1 \<mapsto> recv_source, 2 \<mapsto> recv_destination]\<rparr>) =
     (Inr recv_destination, w\<lparr>heap := [0 \<mapsto> a, 1 \<mapsto> recv_source, 2 \<mapsto> recv_destination]\<rparr>)"
    "run_state (load_bytes (Ptr 0 0) (unat (5 :: i32))) (w\<lparr>heap := [0 \<mapsto> overwrite (replicate 2000 0) hello, 1 \<mapsto> b, 2 \<mapsto> c]\<rparr>) =
     (Inr hello, w\<lparr>heap := [0 \<mapsto> overwrite (replicate 2000 0) hello, 1 \<mapsto> b, 2 \<mapsto> c]\<rparr>)" for w :: world and a b c
    by (simp_all add: load_bytes_def recv_source_def recv_destination_def hello_def overwrite_def)
  have met: "met [?row] (mocked_calls [Ev_recvmsg 5 (recv_hdr F h 2000) 0 r])" for F h r
    using row(1) [of F h r] f [of F h r] by (simp add: met_hits) (simp add: expectation_defs)
  have l: "hello = take (unat (5 :: i32)) hello" by (simp add: hello_def)
  have body: "run_state (after (receive_message (mock_env E M (usage_rows [?row])) sample_socket (Ptr (Suc 0) 0) (Ptr 2 0) (Ptr 0 0) 2000) (\<lambda>received_bytes.
         after (load_bytes (Ptr (Suc 0) 0) 6) (\<lambda>from_bytes.
         after (load_bytes (Ptr 2 0) 6) (\<lambda>to_bytes.
         after (load_bytes (Ptr 0 0) (unat received_bytes)) (\<lambda>message.
         give (from_bytes = recv_source \<and> to_bytes = recv_destination \<and>
               message = take (unat received_bytes) hello)))))) (recv_world h) =
    (Inr True, (recv_world h)\<lparr>trace := h @ [Ev_recvmsg 5 (recv_hdr (mock_env E M (usage_rows [?row])) h 2000) 0 19],
       heap := [0 \<mapsto> overwrite (replicate 2000 0) hello, 1 \<mapsto> recv_source, 2 \<mapsto> recv_destination]\<rparr>)" for h
    by (simp only: run_after run_give recv_hello_run [OF os] load l [symmetric] prod.case sum.case simp_thms)
  show ?thesis
    unfolding RecvShouldCallRecvmsg_def Let_def recv_source_def [symmetric] recv_destination_def [symmetric] n
  proof (rule usage_test_passes [OF doc], goal_cases)
    case 1 show ?case by (simp add: expectation_defs own_calls_def)
  next
    case (2 h)
    show ?case unfolding recv_arrays
      by (intro exI conjI, rule body, simp, simp add: o, rule met)
  qed
qed

section \<open>Membership tests\<close>

lemma run_array:
  "run_state (after (local_array bs) f) (empty_world\<lparr>trace := h\<rparr>) =
     run_state (f (Ptr 0 0)) \<lparr>trace = h, heap = [0 \<mapsto> bs], next_blk = 1\<rparr>"
  by (simp add: run_simps empty_world_def)

lemma own_setsockopt: "own_event (Ev_setsockopt fd l opt m n r)"
  by (simp add: own_event_def own_calls_def)

lemma run_test_membership:
  assumes "is_valid_membership_type type"
  shows "run_state (manage_membership (mock_env E M (usage_rows rows)) sample_socket action type (Ptr 0 0))
      \<lparr>trace = h, heap = [0 \<mapsto> multicast_address_ab], next_blk = n\<rparr> =
    (let m = membership_request sample_socket type multicast_address_ab;
         rc = returns M (usage_rows rows) (Ev_setsockopt 5 SOL_PACKET action m sizeof_packet_mreq 0) 0;
         h' = h @ [Ev_setsockopt 5 SOL_PACKET action m sizeof_packet_mreq rc]
     in (if rc = -1 then Inl (Runtime_error (os_strerror E (os_errno E h'))) else Inr (),
         \<lparr>trace = h', heap = [0 \<mapsto> multicast_address_ab], next_blk = n\<rparr>))"
  by (subst run_manage_membership [OF assms, where a = multicast_address_ab])
     (simp_all add: multicast_address_ab_def mock_env_fields sample_socket_def Let_def)

lemma invalid_type_passes:
  assumes doc: "mock_documented M"
  shows "AddMembershipShouldThrowOnInvalidType E M" "DropMembershipShouldThrowOnInvalidType E M"
  unfolding AddMembershipShouldThrowOnInvalidType_def DropMembershipShouldThrowOnInvalidType_def
  by (rule usage_test_passes [OF doc]; simp add: test_eval add_membership_def drop_membership_def membership_type_checked
       is_valid_membership_type_def membership_consts)+

lemma setsockopt_fail_passes:
  assumes doc: "mock_documented M"
  shows "AddMembershipShouldThrowOnSetsockoptFail E M" "DropMembershipShouldThrowOnSetsockoptFail E M"
  unfolding AddMembershipShouldThrowOnSetsockoptFail_def DropMembershipShouldThrowOnSetsockoptFail_def
    add_membership_def drop_membership_def
  by (rule usage_test_passes [OF doc], simp add: test_eval expectation_defs, unfold run_array CHECK_THROWS_def,
      simp add: run_test_membership is_valid_membership_type_def run_simps runtime_error_def Let_def own_answers [OF doc] row_eval
        own_setsockopt met_hits hits_def)+

lemma setsockopt_passes:
  assumes doc: "mock_documented M" and valid: "is_valid_membership_type type" and m: "m = membership_request sample_socket type multicast_address_ab"
  shows "SocketUsage_test E M [setsockopt_row action m]
     (\<lambda>E socket. after (local_array multicast_address_ab) (\<lambda>p. no_throw (manage_membership E socket action type p)))"
proof -
  have hit: "hits (setsockopt_row action m) (Ev_setsockopt 5 SOL_PACKET action m sizeof_packet_mreq r)" for r
    by (simp add: hits_def fits_def setsockopt_row_def expectation_defs socket_descriptor_5_def)
  then have r: "one_row [setsockopt_row action m] (Ev_setsockopt 5 SOL_PACKET action m sizeof_packet_mreq r)"
    "row_of [setsockopt_row action m] (Ev_setsockopt 5 SOL_PACKET action m sizeof_packet_mreq r) = setsockopt_row action m" for r
    by (simp_all add: one_row_def row_of_def)
  have v: "return_value (setsockopt_row action m) = Some 0" "calls (setsockopt_row action m) = 1"
    "call_name (setsockopt_row action m) = ''setsockopt''"
    by (simp_all add: setsockopt_row_def expectation_defs)
  show ?thesis
    by (rule usage_test_passes [OF doc], simp add: own_calls_def v, unfold run_array no_throw_def,
      simp add: run_test_membership [OF valid] m [symmetric] run_simps Let_def own_answers [OF doc own_setsockopt] r v
        own_setsockopt met_hits hit)
qed

lemma usage_membership_passes:
  assumes doc: "mock_documented M"
  shows "AddMembershipShouldUseMRAddressOnlyMULTICASTType E M" "AddMembershipShouldCallSetsockopt E M"
    "DropMembershipShouldUseMRAddressOnlyMULTICASTType E M" "DropMembershipShouldCallSetsockopt E M"
proof -
  have 1: "zero_packet_mreq\<lparr>mr_ifindex := 12, mr_type := ucast PROMISCIOUS\<rparr> =
      membership_request sample_socket PROMISCIOUS multicast_address_ab"
    by (simp add: membership_request_def zero_packet_mreq_def sample_socket_def membership_consts)
  have 2: "zero_packet_mreq\<lparr>mr_ifindex := 12, mr_type := ucast MULTICAST, mr_alen := 6,
      mr_address := overwrite (replicate 8 0) multicast_address_ab\<rparr> =
      membership_request sample_socket MULTICAST multicast_address_ab"
    by (simp add: membership_request_def zero_packet_mreq_def sample_socket_def membership_consts
       overwrite_def multicast_address_ab_def numeral_eq_Suc)
  have v: "is_valid_membership_type PROMISCIOUS" "is_valid_membership_type MULTICAST"
    by (simp_all add: is_valid_membership_type_def)
  show "AddMembershipShouldUseMRAddressOnlyMULTICASTType E M" "AddMembershipShouldCallSetsockopt E M"
    "DropMembershipShouldUseMRAddressOnlyMULTICASTType E M" "DropMembershipShouldCallSetsockopt E M"
    unfolding AddMembershipShouldUseMRAddressOnlyMULTICASTType_def AddMembershipShouldCallSetsockopt_def
      DropMembershipShouldUseMRAddressOnlyMULTICASTType_def DropMembershipShouldCallSetsockopt_def
      add_membership_def drop_membership_def 1 2
    by (rule setsockopt_passes [OF doc]; simp add: v)+
qed

lemma GetDescriptor_passes:
  assumes doc: "mock_documented M"
  shows "GetDescriptorShouldReturnDescriptor E M"
  unfolding GetDescriptorShouldReturnDescriptor_def
  by (rule usage_test_passes [OF doc]) (simp_all add: get_descriptor_def socket_descriptor_5_def met_hits run_simps sample_socket_def)

section \<open>Group SocketInit\<close>

lemmas init_run = SocketInit_test_def Socket_new_def Socket_setup_def Socket_delete_def syscall_defs run_syscall
  strcpy_ifr_name_def Let_def mock_env_fields CHECK_THROWS_def no_throw_def run_simps runtime_error_def
  IFNAMSIZ_def ETHER_ADDR_LEN_def row_eval met_hits hits_def

lemma ConstructorShouldFailOnSocketFail_passes:
  assumes "mock_documented M"
  shows "ConstructorShouldFailOnSocketFail E M"
  by (simp add: ConstructorShouldFailOnSocketFail_def init_run answers [OF assms] documentedD(2) [OF assms])

lemma ConstructorShouldFailOnSettingNonBlockingModeFail_passes:
  assumes "mock_documented M"
  shows "ConstructorShouldFailOnSettingNonBlockingModeFail E M"
  by (simp add: ConstructorShouldFailOnSettingNonBlockingModeFail_def init_run answers [OF assms] documentedD(2) [OF assms])

lemma ConstructorShouldFailOnGettingInterfaceFail_passes:
  assumes "mock_documented M"
  shows "ConstructorShouldFailOnGettingInterfaceFail E M"
  by (simp add: ConstructorShouldFailOnGettingInterfaceFail_def init_run answers [OF assms] documentedD(2) [OF assms])

lemma ConstructorShouldFailOnGettingHardwareAddressFail_passes:
  assumes "mock_documented M"
  shows "ConstructorShouldFailOnGettingHardwareAddressFail E M"
  by (simp add: ConstructorShouldFailOnGettingHardwareAddressFail_def init_run answers [OF assms] documentedD(2) [OF assms])

lemma ConstructorShouldFailOnBindFail_passes:
  assumes "mock_documented M"
  shows "ConstructorShouldFailOnBindFail E M"
  by (simp add: ConstructorShouldFailOnBindFail_def init_run answers [OF assms] documentedD(2) [OF assms])

lemma ConstructorShouldNotThrowOnSuccess_passes:
  assumes "mock_documented M"
  shows "ConstructorShouldNotThrowOnSuccess E M"
  by (simp add: ConstructorShouldNotThrowOnSuccess_def init_run answers [OF assms] documentedD(2) [OF assms])

section \<open>The tests pass\<close>

lemma SocketInit_pass:
  assumes "mock_documented M"
  shows "ConstructorShouldFailOnSocketFail E M \<and>
   ConstructorShouldFailOnSettingNonBlockingModeFail E M \<and>
   ConstructorShouldFailOnGettingInterfaceFail E M \<and>
   ConstructorShouldFailOnGettingHardwareAddressFail E M \<and>
   ConstructorShouldFailOnBindFail E M \<and>
   ConstructorShouldNotThrowOnSuccess E M"
  by (simp only: ConstructorShouldFailOnSocketFail_passes [OF assms]
     ConstructorShouldFailOnSettingNonBlockingModeFail_passes [OF assms]
     ConstructorShouldFailOnGettingInterfaceFail_passes [OF assms]
     ConstructorShouldFailOnGettingHardwareAddressFail_passes [OF assms]
     ConstructorShouldFailOnBindFail_passes [OF assms]
     ConstructorShouldNotThrowOnSuccess_passes [OF assms] simp_thms)

lemma SocketUsage_pass:
  assumes "mock_documented M" and "\<And>h n. os_alloc E h n"
  shows "GetDescriptorShouldReturnDescriptor E M \<and>
   SendShouldThrowOnSendtoFail E M \<and> SendShouldThrowOnSendtoNotSendEntirePacket E M \<and> SendShouldCallSendto E M \<and>
   RecvShouldThrowOnRecvmsgFail E M \<and> RecvShouldCallRecvmsg E M \<and>
   AddMembershipShouldThrowOnInvalidType E M \<and> AddMembershipShouldThrowOnSetsockoptFail E M \<and>
   AddMembershipShouldUseMRAddressOnlyMULTICASTType E M \<and> AddMembershipShouldCallSetsockopt E M \<and>
   DropMembershipShouldThrowOnInvalidType E M \<and> DropMembershipShouldThrowOnSetsockoptFail E M \<and>
   DropMembershipShouldUseMRAddressOnlyMULTICASTType E M \<and> DropMembershipShouldCallSetsockopt E M"
  using send_fail_passes [OF assms] SendShouldCallSendto_passes [OF assms]
    GetDescriptor_passes [OF assms(1), of E] RecvShouldThrowOnRecvmsgFail_passes [OF assms(1), of E]
    RecvShouldCallRecvmsg_passes [OF assms(1), of E] invalid_type_passes [OF assms(1), of E]
    setsockopt_fail_passes [OF assms(1), of E] usage_membership_passes [OF assms(1), of E]
  by (simp only: simp_thms)

text \<open>
  C36. All 20 tests of \<open>cc_tests/socket.cc\<close> pass on the model.  Of the group \<open>SocketInit\<close>: whichever system
  call of the constructor fails, it throws \<open>std::runtime_error\<close> and closes the descriptor if it has one,
  making exactly the calls the test expects; a socket that is made closes its descriptor when destroyed.
  Of the group \<open>SocketUsage\<close>, when the allocator has memory: the frame handed to \<open>sendto\<close>, the addresses
  and the message taken from \<open>recvmsg\<close>, and the requests handed to \<open>setsockopt\<close> are byte for byte the ones
  the test puts together, every failure is the exception the test expects, and no other call is made
  from the constructor to the destructor.
\<close>

theorem socket_tests_pass:
  assumes "mock_documented M"
  shows "(ConstructorShouldFailOnSocketFail E M \<and>
   ConstructorShouldFailOnSettingNonBlockingModeFail E M \<and>
   ConstructorShouldFailOnGettingInterfaceFail E M \<and>
   ConstructorShouldFailOnGettingHardwareAddressFail E M \<and>
   ConstructorShouldFailOnBindFail E M \<and>
   ConstructorShouldNotThrowOnSuccess E M) \<and>
  ((\<forall>h n. os_alloc E h n) \<longrightarrow> GetDescriptorShouldReturnDescriptor E M \<and>
   SendShouldThrowOnSendtoFail E M \<and> SendShouldThrowOnSendtoNotSendEntirePacket E M \<and> SendShouldCallSendto E M \<and>
   RecvShouldThrowOnRecvmsgFail E M \<and> RecvShouldCallRecvmsg E M \<and>
   AddMembershipShouldThrowOnInvalidType E M \<and> AddMembershipShouldThrowOnSetsockoptFail E M \<and>
   AddMembershipShouldUseMRAddressOnlyMULTICASTType E M \<and> AddMembershipShouldCallSetsockopt E M \<and>
   DropMembershipShouldThrowOnInvalidType E M \<and> DropMembershipShouldThrowOnSetsockoptFail E M \<and>
   DropMembershipShouldUseMRAddressOnlyMULTICASTType E M \<and> DropMembershipShouldCallSetsockopt E M)"
  by (rule conjI [OF SocketInit_pass [OF assms]], rule impI, rule SocketUsage_pass [OF assms]) simp

theorem socket_tests_pass_witness:
  "ConstructorShouldFailOnBindFail sample_env sample_support \<and> ConstructorShouldNotThrowOnSuccess sample_env sample_support \<and>
   SendShouldCallSendto sample_env sample_support \<and> RecvShouldCallRecvmsg sample_env sample_support"
  using socket_tests_pass [OF sample_support_documented, of sample_env] by (simp add: sample_env_def)

end
