(* ===== verification/Wrapper_Tests.thy ===== *)
theory Wrapper_Tests
  imports Mocks
begin

text \<open>
  The test suite of the class \<open>Wrapper\<close>, \<open>cc_tests/wrapper.cc\<close>: the methods of the Node object, linked
  with the classes of \<open>cc_mocks\<close>, called from JavaScript.  A test has its expectations, and a body that
  uses \<open>MakeCallback\<close>; it passes if the body reaches its end without \<open>FAIL\<close> and the library finds the
  expectations met.  \<open>M\<close> is the library, \<open>E\<close> the environment (of it only the allocator and
  \<open>Nan::NewBuffer\<close> are used), \<open>garbage\<close> the content of an object that the mocks leave uninitialised.
  That the tests pass is shown in \<open>Wrapper_Tests_Facts\<close>.
\<close>

unbundle bit_operations_syntax

section \<open>Running a test\<close>

definition empty_mock_world :: mock_world where
  "empty_mock_world = \<lparr>trace = [], heap = Map.empty, next_blk = 0, pollers = Map.empty, handles = Map.empty,
     next_obj = 0, wrappers = Map.empty, mocked = []\<rparr>"

text \<open>\<open>Nan::TryCatch\<close> sees the errors of JavaScript; a C++ exception ends the test program.\<close>

definition caught :: "error \<Rightarrow> bool" where
  "caught e \<longleftrightarrow> (case e of JS_Error _ \<Rightarrow> True | JS_TypeError _ \<Rightarrow> True | _ \<Rightarrow> False)"

definition has_caught :: "('w, 'b) prog \<Rightarrow> ('w, bool) prog" where
  "has_caught m = State (\<lambda>w. case run_state m w of
     (Inl e, w') \<Rightarrow> (if caught e then Inr True else Inl e, w')
   | (Inr _, w') \<Rightarrow> (Inr False, w'))"

definition has_not_caught :: "('w, 'b) prog \<Rightarrow> ('w, bool) prog" where
  "has_not_caught m = after (has_caught m) (\<lambda>b. give (\<not> b))"

text \<open>\<open>FAIL\<close> in a callback ends the test.\<close>

definition FAIL :: "string \<Rightarrow> ('w, 'b) prog" where
  "FAIL msg = throw (Runtime_error msg)"

text \<open>\<open>Nan::NewBuffer\<close> of a size, with bytes of some content, and of the bytes of an array\<close>

definition NewBuffer :: "env \<Rightarrow> nat \<Rightarrow> ('a world_scheme, js_value) prog" where
  "NewBuffer E n =
     after (gets trace) (\<lambda>h.
     after (local_array (indet E h n)) (\<lambda>p. give (JBuffer p n)))"

definition NewBuffer_of :: "byte list \<Rightarrow> nat \<Rightarrow> ('a world_scheme, js_value) prog" where
  "NewBuffer_of bs n = after (local_array bs) (\<lambda>p. give (JBuffer p n))"

type_synonym make_callback = "string \<Rightarrow> js_value list \<Rightarrow> (mock_world, js_value) prog"

section \<open>The functions of the test program\<close>

definition Noop :: js_value where "Noop = JFunction 0"
definition OnRecvCallback :: js_value where "OnRecvCallback = JFunction 1"
definition OnSendCallback :: js_value where "OnSendCallback = JFunction 2"
definition OnErrorCallback :: js_value where "OnErrorCallback = JFunction 3"

definition buffer_parameter :: "js_value \<Rightarrow> (mock_world, mock_value) prog" where
  "buffer_parameter v =
     (case v of JBuffer p n \<Rightarrow> memory_buffer p n | _ \<Rightarrow> FAIL ''Argument is not a buffer'')"

definition CallbackForReceive ::
  "mock_support \<Rightarrow> expectation list \<Rightarrow> js_value list \<Rightarrow> (mock_world, js_value) prog" where
  "CallbackForReceive M rows info =
     (if length info \<noteq> 3 then FAIL ''Invalid arguments in callback'' else
      after (buffer_parameter (arg info 0)) (\<lambda>source_address.
      after (buffer_parameter (arg info 1)) (\<lambda>destination_address.
      after (buffer_parameter (arg info 2)) (\<lambda>message.
      after (actualCall M rows ''CallbackFromReceive''
         [(''source_address'', source_address), (''destination_address'', destination_address),
          (''message'', message)]) (\<lambda>_.
      give JUndefined)))))"

definition CallbackForSend ::
  "mock_support \<Rightarrow> expectation list \<Rightarrow> js_value list \<Rightarrow> (mock_world, js_value) prog" where
  "CallbackForSend M rows info =
     (if length info \<noteq> 1 then FAIL ''Invalid arguments in callback'' else
      case arg info 0 of
        JNumber return_code \<Rightarrow>
          after (actualCall M rows ''CallbackFromSend'' [(''rc'', Signed (to_int32 return_code))]) (\<lambda>_.
          give JUndefined)
      | _ \<Rightarrow> FAIL ''Argument is not a number'')"

text \<open>What a function object of the test program does when it is called\<close>

definition test_functions :: "mock_support \<Rightarrow> expectation list \<Rightarrow> mock_world js_call" where
  "test_functions M rows f info =
     (if f = 1 then after (actualCall M rows ''OnRecvCallback'' []) (\<lambda>_. give JUndefined)
      else if f = 2 then after (actualCall M rows ''OnSendCallback'' []) (\<lambda>_. give JUndefined)
      else if f = 3 then after (actualCall M rows ''OnErrorCallback'' []) (\<lambda>_. give JUndefined)
      else if f = 4 then CallbackForReceive M rows info
      else if f = 5 then CallbackForSend M rows info
      else give JUndefined)"

section \<open>Group WrapperInit\<close>

text \<open>\<open>MakeCallback\<close> on the global object, which \<open>Wrapper::Init\<close> has filled\<close>

definition call_global ::
  "'a wrap_world_scheme socket_class \<Rightarrow> 'a wrap_world_scheme poller_class \<Rightarrow> env \<Rightarrow>
   'a wrap_world_scheme js_call \<Rightarrow> string \<Rightarrow> js_value list \<Rightarrow> ('a wrap_world_scheme, js_value) prog" where
  "call_global S P E js name argv =
     (case map_of (snd Init) name of
        Some (Export_constructor _ f) \<Rightarrow> call_native_with S P E js f 0 argv
      | _ \<Rightarrow> throw (JS_TypeError (name @ '' is not a function'')))"

definition WrapperInit_test ::
  "mock_support \<Rightarrow> env \<Rightarrow> socket \<Rightarrow> expectation list \<Rightarrow> (make_callback \<Rightarrow> (mock_world, bool) prog) \<Rightarrow> bool" where
  "WrapperInit_test M E garbage rows body =
     (case run_state
        (body (call_global (mock_Socket M rows garbage) (mock_Poller M rows) E (test_functions M rows)))
        empty_mock_world of
        (Inr ok, w) \<Rightarrow> ok \<and> verdict M rows (mocked w)
      | _ \<Rightarrow> False)"

definition ConstructShouldFailOnEmptyArguments :: "mock_support \<Rightarrow> env \<Rightarrow> socket \<Rightarrow> bool" where
  "ConstructShouldFailOnEmptyArguments M E garbage =
     WrapperInit_test M E garbage [] (\<lambda>MakeCallback. has_caught (MakeCallback ''Wrapper'' []))"

definition ConstructShouldFailOnMissingDevicePropery :: "mock_support \<Rightarrow> env \<Rightarrow> socket \<Rightarrow> bool" where
  "ConstructShouldFailOnMissingDevicePropery M E garbage =
     (let options = JString [] in
      WrapperInit_test M E garbage [] (\<lambda>MakeCallback. has_caught (MakeCallback ''Wrapper'' [options])))"

definition ConstructShouldFailOnMissingOnRecvPropery :: "mock_support \<Rightarrow> env \<Rightarrow> socket \<Rightarrow> bool" where
  "ConstructShouldFailOnMissingOnRecvPropery M E garbage =
     (let options = JObject [(''device'', JString ''rfm0'')] in
      WrapperInit_test M E garbage [] (\<lambda>MakeCallback. has_caught (MakeCallback ''Wrapper'' [options])))"

definition ConstructShouldFailOnMissingOnSendPropery :: "mock_support \<Rightarrow> env \<Rightarrow> socket \<Rightarrow> bool" where
  "ConstructShouldFailOnMissingOnSendPropery M E garbage =
     (let options = JObject [(''device'', JString ''rfm0''), (''onRecv'', JNull)] in
      WrapperInit_test M E garbage [] (\<lambda>MakeCallback. has_caught (MakeCallback ''Wrapper'' [options])))"

definition ConstructShouldFailOnMissingOnErrorPropery :: "mock_support \<Rightarrow> env \<Rightarrow> socket \<Rightarrow> bool" where
  "ConstructShouldFailOnMissingOnErrorPropery M E garbage =
     (let options = JObject [(''device'', JString ''rfm0''), (''onRecv'', JNull), (''onSend'', JNull)] in
      WrapperInit_test M E garbage [] (\<lambda>MakeCallback. has_caught (MakeCallback ''Wrapper'' [options])))"

definition ConstructShouldFailOnInvalidDevicePropery :: "mock_support \<Rightarrow> env \<Rightarrow> socket \<Rightarrow> bool" where
  "ConstructShouldFailOnInvalidDevicePropery M E garbage =
     (let options = JObject [(''device'', JNull), (''onRecv'', JNull), (''onSend'', JNull)] in
      WrapperInit_test M E garbage [] (\<lambda>MakeCallback. has_caught (MakeCallback ''Wrapper'' [options])))"

definition ConstructShouldFailOnInvalidOnRecvPropery :: "mock_support \<Rightarrow> env \<Rightarrow> socket \<Rightarrow> bool" where
  "ConstructShouldFailOnInvalidOnRecvPropery M E garbage =
     (let options = JObject [(''device'', JString ''rfm0''), (''onRecv'', JNull), (''onSend'', JNull)] in
      WrapperInit_test M E garbage [] (\<lambda>MakeCallback. has_caught (MakeCallback ''Wrapper'' [options])))"

definition ConstructShouldFailOnInvalidOnSendPropery :: "mock_support \<Rightarrow> env \<Rightarrow> socket \<Rightarrow> bool" where
  "ConstructShouldFailOnInvalidOnSendPropery M E garbage =
     (let options = JObject [(''device'', JString ''rfm0''), (''onRecv'', Noop), (''onSend'', JNull)] in
      WrapperInit_test M E garbage [] (\<lambda>MakeCallback. has_caught (MakeCallback ''Wrapper'' [options])))"

definition ConstructShouldFailOnInvalidOnErrorPropery :: "mock_support \<Rightarrow> env \<Rightarrow> socket \<Rightarrow> bool" where
  "ConstructShouldFailOnInvalidOnErrorPropery M E garbage =
     (let options = JObject [(''device'', JString ''rfm0''), (''onRecv'', Noop), (''onSend'', Noop),
        (''onError'', JNull)] in
      WrapperInit_test M E garbage [] (\<lambda>MakeCallback. has_caught (MakeCallback ''Wrapper'' [options])))"

definition ConstructShouldFailOnSocketCreation :: "mock_support \<Rightarrow> env \<Rightarrow> socket \<Rightarrow> bool" where
  "ConstructShouldFailOnSocketCreation M E garbage =
     (let options = JObject [(''device'', JString ''rfm0''), (''onRecv'', Noop), (''onSend'', Noop),
        (''onError'', Noop)] in
      WrapperInit_test M E garbage
        [andReturnBool False (withParameter ''device'' (Text ''rfm0'') (expectOneCall ''socket_constructor''))]
        (\<lambda>MakeCallback. has_caught (MakeCallback ''Wrapper'' [options])))"

section \<open>Group WrapperUsage\<close>

definition WrapperUsage_options :: js_value where
  "WrapperUsage_options = JObject [(''device'', JString ''rfm0''), (''onRecv'', OnRecvCallback),
     (''onSend'', OnSendCallback), (''onError'', OnErrorCallback)]"

definition WrapperUsage_setup :: "expectation list" where
  "WrapperUsage_setup =
     [andReturnBool True (withParameter ''device'' (Text ''rfm0'') (expectOneCall ''socket_constructor'')),
      andReturnValue 5 (expectOneCall ''get_descriptor'')]"

text \<open>The body of a test calls the methods of the object that \<open>setup\<close> has made.\<close>

definition WrapperUsage_test ::
  "mock_support \<Rightarrow> env \<Rightarrow> socket \<Rightarrow> expectation list \<Rightarrow> (make_callback \<Rightarrow> (mock_world, bool) prog) \<Rightarrow> bool" where
  "WrapperUsage_test M E garbage rows body =
     (let rows = WrapperUsage_setup @ rows; S = mock_Socket M rows garbage; P = mock_Poller M rows;
          js = test_functions M rows in
      case run_state
        (after (call_global S P E js ''Wrapper'' [WrapperUsage_options]) (\<lambda>result.
         case result of
           JWrapped wrap \<Rightarrow> body (\<lambda>name argv. call_method_with S P E js name wrap argv)
         | _ \<Rightarrow> FAIL ''no object'')) empty_mock_world of
        (Inr ok, w) \<Rightarrow> ok \<and> verdict M rows (mocked w)
      | _ \<Rightarrow> False)"

definition test_group_address :: "byte list" where
  "test_group_address = [0xde, 0xad, 0x00, 0x00, 0x12, 0x34]"

definition hello_world :: "byte list" where
  "hello_world = [0x68, 0x65, 0x6c, 0x6c, 0x6f, 0x20, 0x77, 0x6f, 0x72, 0x6c, 0x64]"

definition AddMembershipShouldFailOnEmptyArguments :: "mock_support \<Rightarrow> env \<Rightarrow> socket \<Rightarrow> bool" where
  "AddMembershipShouldFailOnEmptyArguments M E garbage = WrapperUsage_test M E garbage
     []
     (\<lambda>MakeCallback.
      has_caught (MakeCallback ''AddMembership'' []))"

definition AddMembershipShouldFailOnNoAddressOrNonTypeArguments :: "mock_support \<Rightarrow> env \<Rightarrow> socket \<Rightarrow> bool" where
  "AddMembershipShouldFailOnNoAddressOrNonTypeArguments M E garbage = WrapperUsage_test M E garbage
     []
     (\<lambda>MakeCallback.
      has_caught (MakeCallback ''AddMembership'' [JString []]))"

definition AddMembershipShouldFailOnToShortAddressArgument :: "mock_support \<Rightarrow> env \<Rightarrow> socket \<Rightarrow> bool" where
  "AddMembershipShouldFailOnToShortAddressArgument M E garbage = WrapperUsage_test M E garbage
     []
     (\<lambda>MakeCallback.
      after (NewBuffer E 4) (\<lambda>a. has_caught (MakeCallback ''AddMembership'' [a])))"

definition AddMembershipShouldFailOnSocketCallFailWithAddress :: "mock_support \<Rightarrow> env \<Rightarrow> socket \<Rightarrow> bool" where
  "AddMembershipShouldFailOnSocketCallFailWithAddress M E garbage = WrapperUsage_test M E garbage
     [andReturnBool False
        (withParameter ''multicast_address'' (Memory test_group_address)
        (withParameter ''type'' (Signed MULTICAST) (expectOneCall ''add_membership'')))]
     (\<lambda>MakeCallback.
      after (NewBuffer_of test_group_address 6) (\<lambda>a. has_caught (MakeCallback ''AddMembership'' [a])))"

definition AddMembershipShouldSucceddWithAddress :: "mock_support \<Rightarrow> env \<Rightarrow> socket \<Rightarrow> bool" where
  "AddMembershipShouldSucceddWithAddress M E garbage = WrapperUsage_test M E garbage
     [andReturnBool True
        (withParameter ''multicast_address'' (Memory test_group_address)
        (withParameter ''type'' (Signed MULTICAST) (expectOneCall ''add_membership'')))]
     (\<lambda>MakeCallback.
      after (NewBuffer_of test_group_address 6) (\<lambda>a. has_not_caught (MakeCallback ''AddMembership'' [a])))"

definition AddMembershipShouldFailOnSocketCallFailWithType :: "mock_support \<Rightarrow> env \<Rightarrow> socket \<Rightarrow> bool" where
  "AddMembershipShouldFailOnSocketCallFailWithType M E garbage = WrapperUsage_test M E garbage
     [andReturnBool False (ignoreOtherParameters
        (withParameter ''type'' (Signed PROMISCIOUS) (expectOneCall ''add_membership'')))]
     (\<lambda>MakeCallback.
      has_caught (MakeCallback ''AddMembership'' [js_int (sint PROMISCIOUS)]))"

definition AddMembershipShouldSucceddWithType :: "mock_support \<Rightarrow> env \<Rightarrow> socket \<Rightarrow> bool" where
  "AddMembershipShouldSucceddWithType M E garbage = WrapperUsage_test M E garbage
     [andReturnBool True (ignoreOtherParameters
        (withParameter ''type'' (Signed PROMISCIOUS) (expectOneCall ''add_membership'')))]
     (\<lambda>MakeCallback.
      has_not_caught (MakeCallback ''AddMembership'' [js_int (sint PROMISCIOUS)]))"

definition AddMembershipShouldFailWithTypeOutOfRange :: "mock_support \<Rightarrow> env \<Rightarrow> socket \<Rightarrow> bool" where
  "AddMembershipShouldFailWithTypeOutOfRange M E garbage = WrapperUsage_test M E garbage
     [andReturnBool False (ignoreOtherParameters (expectOneCall ''add_membership''))]
     (\<lambda>MakeCallback.
      has_caught (MakeCallback ''AddMembership'' [js_int 123]))"

definition DropMembershipShouldFailOnEmptyArguments :: "mock_support \<Rightarrow> env \<Rightarrow> socket \<Rightarrow> bool" where
  "DropMembershipShouldFailOnEmptyArguments M E garbage = WrapperUsage_test M E garbage
     []
     (\<lambda>MakeCallback.
      has_caught (MakeCallback ''DropMembership'' []))"

definition DropMembershipShouldFailOnNoAddressOrNonTypeArguments :: "mock_support \<Rightarrow> env \<Rightarrow> socket \<Rightarrow> bool" where
  "DropMembershipShouldFailOnNoAddressOrNonTypeArguments M E garbage = WrapperUsage_test M E garbage
     []
     (\<lambda>MakeCallback.
      has_caught (MakeCallback ''DropMembership'' [JString []]))"

definition DropMembershipShouldFailOnToShortAddressArgument :: "mock_support \<Rightarrow> env \<Rightarrow> socket \<Rightarrow> bool" where
  "DropMembershipShouldFailOnToShortAddressArgument M E garbage = WrapperUsage_test M E garbage
     []
     (\<lambda>MakeCallback.
      after (NewBuffer E 4) (\<lambda>a. has_caught (MakeCallback ''DropMembership'' [a])))"

definition DropMembershipShouldFailOnSocketCallFailWithAddress :: "mock_support \<Rightarrow> env \<Rightarrow> socket \<Rightarrow> bool" where
  "DropMembershipShouldFailOnSocketCallFailWithAddress M E garbage = WrapperUsage_test M E garbage
     [andReturnBool False
        (withParameter ''multicast_address'' (Memory test_group_address)
        (withParameter ''type'' (Signed MULTICAST) (expectOneCall ''drop_membership'')))]
     (\<lambda>MakeCallback.
      after (NewBuffer_of test_group_address 6) (\<lambda>a. has_caught (MakeCallback ''DropMembership'' [a])))"

definition DropMembershipShouldSucceddWithAddress :: "mock_support \<Rightarrow> env \<Rightarrow> socket \<Rightarrow> bool" where
  "DropMembershipShouldSucceddWithAddress M E garbage = WrapperUsage_test M E garbage
     [andReturnBool True
        (withParameter ''multicast_address'' (Memory test_group_address)
        (withParameter ''type'' (Signed MULTICAST) (expectOneCall ''drop_membership'')))]
     (\<lambda>MakeCallback.
      after (NewBuffer_of test_group_address 6) (\<lambda>a. has_not_caught (MakeCallback ''DropMembership'' [a])))"

definition DropMembershipShouldFailOnSocketCallFailWithType :: "mock_support \<Rightarrow> env \<Rightarrow> socket \<Rightarrow> bool" where
  "DropMembershipShouldFailOnSocketCallFailWithType M E garbage = WrapperUsage_test M E garbage
     [andReturnBool False (ignoreOtherParameters
        (withParameter ''type'' (Signed PROMISCIOUS) (expectOneCall ''drop_membership'')))]
     (\<lambda>MakeCallback.
      has_caught (MakeCallback ''DropMembership'' [js_int (sint PROMISCIOUS)]))"

definition DropMembershipShouldSucceddWithType :: "mock_support \<Rightarrow> env \<Rightarrow> socket \<Rightarrow> bool" where
  "DropMembershipShouldSucceddWithType M E garbage = WrapperUsage_test M E garbage
     [andReturnBool True (ignoreOtherParameters
        (withParameter ''type'' (Signed PROMISCIOUS) (expectOneCall ''drop_membership'')))]
     (\<lambda>MakeCallback.
      has_not_caught (MakeCallback ''DropMembership'' [js_int (sint PROMISCIOUS)]))"

definition DropMembershipShouldFailWithTypeOutOfRange :: "mock_support \<Rightarrow> env \<Rightarrow> socket \<Rightarrow> bool" where
  "DropMembershipShouldFailWithTypeOutOfRange M E garbage = WrapperUsage_test M E garbage
     [andReturnBool False (ignoreOtherParameters (expectOneCall ''drop_membership''))]
     (\<lambda>MakeCallback.
      has_caught (MakeCallback ''DropMembership'' [js_int 123]))"

definition ReceiveShouldFailWithNoArguments :: "mock_support \<Rightarrow> env \<Rightarrow> socket \<Rightarrow> bool" where
  "ReceiveShouldFailWithNoArguments M E garbage = WrapperUsage_test M E garbage
     []
     (\<lambda>MakeCallback.
      has_caught (MakeCallback ''Receive'' []))"

definition ReceiveShouldFailWithNotCallbackArgument :: "mock_support \<Rightarrow> env \<Rightarrow> socket \<Rightarrow> bool" where
  "ReceiveShouldFailWithNotCallbackArgument M E garbage = WrapperUsage_test M E garbage
     []
     (\<lambda>MakeCallback.
      has_caught (MakeCallback ''Receive'' [JString []]))"

definition ReceiveShouldFailWhenSocketReceiveMessageFail :: "mock_support \<Rightarrow> env \<Rightarrow> socket \<Rightarrow> bool" where
  "ReceiveShouldFailWhenSocketReceiveMessageFail M E garbage = WrapperUsage_test M E garbage
     [andReturnValue (-1) (ignoreOtherParameters (expectOneCall ''receive_message''))]
     (\<lambda>MakeCallback.
      has_caught (MakeCallback ''Receive'' [Noop]))"

definition ReceiveShouldCallCallbackWhenSocketReceiveMessageSuccedd :: "mock_support \<Rightarrow> env \<Rightarrow> socket \<Rightarrow> bool" where
  "ReceiveShouldCallCallbackWhenSocketReceiveMessageSuccedd M E garbage =
     (let source_address = [0xde, 0xad, 0x00, 0x00, 0x12, 0x34];
          destination_address = [0xde, 0xad, 0x00, 0x00, 0x12, 0x31] in
      WrapperUsage_test M E garbage
       [andReturnValue (of_nat (length hello_world)) (ignoreOtherParameters
         (withOutputParameterReturning ''buffer'' hello_world
         (withOutputParameterReturning ''destination_address'' destination_address
         (withOutputParameterReturning ''source_address'' source_address (expectOneCall ''receive_message''))))),
        withParameter ''message'' (Memory hello_world)
         (withParameter ''destination_address'' (Memory destination_address)
         (withParameter ''source_address'' (Memory source_address) (expectOneCall ''CallbackFromReceive'')))]
       (\<lambda>MakeCallback. has_not_caught (MakeCallback ''Receive'' [JFunction 4])))"

definition SendShouldFailWithNoArguments :: "mock_support \<Rightarrow> env \<Rightarrow> socket \<Rightarrow> bool" where
  "SendShouldFailWithNoArguments M E garbage = WrapperUsage_test M E garbage
     []
     (\<lambda>MakeCallback.
      has_caught (MakeCallback ''Send'' []))"

definition SendShouldFailWithNotBufferMessageArgument :: "mock_support \<Rightarrow> env \<Rightarrow> socket \<Rightarrow> bool" where
  "SendShouldFailWithNotBufferMessageArgument M E garbage = WrapperUsage_test M E garbage
     []
     (\<lambda>MakeCallback.
      has_caught (MakeCallback ''Send'' [JString [], JString [], JString []]))"

definition SendShouldFailWithNotBufferAddressArgument :: "mock_support \<Rightarrow> env \<Rightarrow> socket \<Rightarrow> bool" where
  "SendShouldFailWithNotBufferAddressArgument M E garbage = WrapperUsage_test M E garbage
     []
     (\<lambda>MakeCallback.
      after (NewBuffer E 5) (\<lambda>m. has_caught (MakeCallback ''Send'' [m, JString [], JString []])))"

definition SendShouldFailWithAddressArgumentInvalidSize :: "mock_support \<Rightarrow> env \<Rightarrow> socket \<Rightarrow> bool" where
  "SendShouldFailWithAddressArgumentInvalidSize M E garbage = WrapperUsage_test M E garbage
     []
     (\<lambda>MakeCallback.
      after (NewBuffer E 5) (\<lambda>m.
      after (NewBuffer E 5) (\<lambda>a.
      has_caught (MakeCallback ''Send'' [m, a, JString []]))))"

definition SendShouldFailWithNotFunctionCallbackArgument :: "mock_support \<Rightarrow> env \<Rightarrow> socket \<Rightarrow> bool" where
  "SendShouldFailWithNotFunctionCallbackArgument M E garbage = WrapperUsage_test M E garbage
     []
     (\<lambda>MakeCallback.
      after (NewBuffer E 5) (\<lambda>m.
      after (NewBuffer E ETHER_ADDR_LEN) (\<lambda>a.
      has_caught (MakeCallback ''Send'' [m, a, JString []]))))"

definition SendShouldFailWhenSocketSendMessageFail :: "mock_support \<Rightarrow> env \<Rightarrow> socket \<Rightarrow> bool" where
  "SendShouldFailWhenSocketSendMessageFail M E garbage = WrapperUsage_test M E garbage
     [andReturnValue (-1)
        (withParameter ''message_length'' (Signed (of_nat (length hello_world)))
        (withParameter ''message'' (Memory hello_world)
        (withParameter ''destination_address'' (Memory test_group_address) (expectOneCall ''send_message''))))]
     (\<lambda>MakeCallback.
      after (NewBuffer_of (hello_world @ [0]) (length hello_world)) (\<lambda>m.
      after (NewBuffer_of test_group_address ETHER_ADDR_LEN) (\<lambda>a.
      has_caught (MakeCallback ''Send'' [m, a, Noop]))))"

definition SendShouldCallCallbackWhenSendMessageSuccedd :: "mock_support \<Rightarrow> env \<Rightarrow> socket \<Rightarrow> bool" where
  "SendShouldCallCallbackWhenSendMessageSuccedd M E garbage = WrapperUsage_test M E garbage
     [andReturnValue (of_nat (length hello_world))
        (withParameter ''message_length'' (Signed (of_nat (length hello_world)))
        (withParameter ''message'' (Memory hello_world)
        (withParameter ''destination_address'' (Memory test_group_address) (expectOneCall ''send_message'')))),
       withParameter ''rc'' (Signed (of_nat (length hello_world))) (expectOneCall ''CallbackFromSend'')]
     (\<lambda>MakeCallback.
      after (NewBuffer_of (hello_world @ [0]) (length hello_world)) (\<lambda>m.
      after (NewBuffer_of test_group_address ETHER_ADDR_LEN) (\<lambda>a.
      has_not_caught (MakeCallback ''Send'' [m, a, JFunction 5]))))"

definition PauseSendingShouldCallPollersSetEvent :: "mock_support \<Rightarrow> env \<Rightarrow> socket \<Rightarrow> bool" where
  "PauseSendingShouldCallPollersSetEvent M E garbage = WrapperUsage_test M E garbage
     [withParameter ''events'' (Signed (event_mask READ_EVENT)) (expectOneCall ''set_events'')]
     (\<lambda>MakeCallback.
      has_not_caught (MakeCallback ''PauseSending'' []))"

definition ResumeSendingShouldCallPollersSetEvent :: "mock_support \<Rightarrow> env \<Rightarrow> socket \<Rightarrow> bool" where
  "ResumeSendingShouldCallPollersSetEvent M E garbage = WrapperUsage_test M E garbage
     [withParameter ''events'' (Signed (event_mask WRITE_EVENT OR event_mask READ_EVENT)) (expectOneCall ''set_events'')]
     (\<lambda>MakeCallback.
      has_not_caught (MakeCallback ''ResumeSending'' []))"

end
