(* ===== verification/Wrapper_Tests_Facts.thy ===== *)
theory Wrapper_Tests_Facts
  imports Wrapper_Tests Wrapper_Methods
begin

text \<open>
  The tests of \<open>Wrapper_Tests\<close> pass.  The object of the group \<open>WrapperUsage\<close> is made once
  (\<open>run_setup\<close>), and \<open>usage_passes\<close> leaves of each test its own part, with the answers of the library
  to its own calls (\<open>later_answer\<close>).
\<close>

unbundle bit_operations_syntax

section \<open>Running the mocks\<close>

lemma run_has_caught [run_simps]:
  "run_state (has_caught m) w = (case run_state m w of
     (Inl e, w') \<Rightarrow> (if caught e then Inr True else Inl e, w') | (Inr _, w') \<Rightarrow> (Inr False, w'))"
  by (simp add: has_caught_def)

lemma run_has_not_caught [run_simps]:
  "run_state (has_not_caught m) w = (case run_state m w of
     (Inl e, w') \<Rightarrow> (if caught e then Inr False else Inl e, w') | (Inr _, w') \<Rightarrow> (Inr True, w'))"
  by (simp add: has_not_caught_def run_simps split: prod.splits sum.splits)

lemma caught_simps [simp]: "caught (JS_Error m)" "caught (JS_TypeError m)"
  by (simp_all add: caught_def)

lemma run_actualCall [run_simps]:
  "run_state (actualCall M rows name params) w =
     (Inr (answer M rows (name, params)), w\<lparr>mocked := mocked w @ [(name, params)]\<rparr>)"
  by (simp add: actualCall_def)

lemma run_NewBuffer [run_simps]:
  "run_state (NewBuffer E n) w = (Inr (JBuffer (Ptr (next_blk w) 0) n),
     w\<lparr>heap := (heap w)(next_blk w \<mapsto> indet E (trace w) n), next_blk := Suc (next_blk w)\<rparr>)"
  by (simp add: NewBuffer_def local_array_def run_simps)

lemma run_NewBuffer_of [run_simps]:
  "run_state (NewBuffer_of bs n) w = (Inr (JBuffer (Ptr (next_blk w) 0) n),
     w\<lparr>heap := (heap w)(next_blk w \<mapsto> bs), next_blk := Suc (next_blk w)\<rparr>)"
  by (simp add: NewBuffer_of_def local_array_def run_simps)

lemma run_memory_buffer [run_simps]:
  "run_state (memory_buffer p n) w =
     (Inr (case mem_load (heap w) p n of Inl _ \<Rightarrow> Unreadable | Inr bs \<Rightarrow> Memory bs), w)"
  by (simp add: memory_buffer_def run_simps)

lemmas mock_members = mock_Socket_def mock_Poller_def mock_Socket_new_def mock_get_descriptor_def
  mock_send_message_def mock_receive_message_def mock_add_membership_def mock_drop_membership_def
  mock_UvPoller_new_def mock_set_events_def returnIntValueOrDefault_def returnBoolValueOrDefault_def
  returnIntValue_def Let_def

section \<open>The object of a usage test\<close>

definition made_calls :: "mock_call list" where
  "made_calls = [(''socket_constructor'', [(''device'', Text ''rfm0'')]), (''get_descriptor'', [])]"

definition made_names :: "string set" where
  "made_names = {''socket_constructor'', ''get_descriptor''}"

abbreviation later_rows :: "expectation list \<Rightarrow> bool" where
  "later_rows \<equiv> list_all (\<lambda>x. call_name x \<notin> made_names)"

abbreviation later_calls :: "mock_call list \<Rightarrow> bool" where
  "later_calls \<equiv> list_all (\<lambda>c. fst c \<notin> made_names)"

lemma later_filter: "fst c \<notin> made_names \<Longrightarrow> filter (fits c) (WrapperUsage_setup @ rows) = filter (fits c) rows"
  by (simp add: WrapperUsage_setup_def fits_def expectation_defs made_names_def)

lemma setup_filter:
  assumes "later_rows rows" and "c \<in> set made_calls"
  shows "filter (fits c) (WrapperUsage_setup @ rows) = filter (fits c) WrapperUsage_setup"
proof -
  have "fst c \<in> made_names" using assms(2) by (auto simp: made_calls_def made_names_def)
  with assms(1) have "filter (fits c) rows = []"
    by (auto simp: filter_empty_conv list_all_iff fits_def)
  then show ?thesis by simp
qed

lemma later_answer:
  assumes "mock_documented M" and "fst c \<notin> made_names" and "length (filter (fits c) rows) = 1"
  shows "answer M (WrapperUsage_setup @ rows) c = answer_of (hd (filter (fits c) rows))"
  using documentedD(1) [OF assms(1), of c "WrapperUsage_setup @ rows"] assms(3)
  unfolding later_filter [OF assms(2)] .

lemma setup_answer:
  assumes "mock_documented M" and "later_rows rows"
  shows "fst (answer M (WrapperUsage_setup @ rows) (''socket_constructor'', [(''device'', Text ''rfm0'')])) = Some 1"
    and "fst (answer M (WrapperUsage_setup @ rows) (''get_descriptor'', [])) = Some 5"
proof -
  have "filter (fits (''socket_constructor'', [(''device'', Text ''rfm0'')])) WrapperUsage_setup = [WrapperUsage_setup ! 0]"
    "filter (fits (''get_descriptor'', [])) WrapperUsage_setup = [WrapperUsage_setup ! 1]"
    by (simp_all add: WrapperUsage_setup_def fits_def expectation_defs)
  with setup_filter [OF assms(2)] have
    "answer M (WrapperUsage_setup @ rows) (''socket_constructor'', [(''device'', Text ''rfm0'')]) = answer_of (WrapperUsage_setup ! 0)"
    "answer M (WrapperUsage_setup @ rows) (''get_descriptor'', []) = answer_of (WrapperUsage_setup ! 1)"
    using documentedD(1) [OF assms(1), of _ "WrapperUsage_setup @ rows"] by (simp_all add: made_calls_def)
  then show "fst (answer M (WrapperUsage_setup @ rows) (''socket_constructor'', [(''device'', Text ''rfm0'')])) = Some 1"
    "fst (answer M (WrapperUsage_setup @ rows) (''get_descriptor'', [])) = Some 5"
    by (simp_all add: answer_of_def WrapperUsage_setup_def expectation_defs)
qed

lemma met_setup:
  assumes "later_rows rows" and "later_calls cs" and "met rows cs"
  shows "met (WrapperUsage_setup @ rows) (made_calls @ cs)"
proof -
  have s: "x \<in> set WrapperUsage_setup \<Longrightarrow> filter (\<lambda>c. fits c x) cs = []" for x
    using assms(2) by (auto simp: filter_empty_conv list_all_iff fits_def WrapperUsage_setup_def expectation_defs made_names_def)
  have r: "x \<in> set rows \<Longrightarrow> filter (\<lambda>c. fits c x) made_calls = []" for x
    using assms(1) by (auto simp: list_all_iff fits_def made_calls_def made_names_def)
  have "list_all (\<lambda>x. length (filter (\<lambda>c. fits c x) made_calls) = calls x) WrapperUsage_setup"
    "list_all (\<lambda>c. length (filter (fits c) WrapperUsage_setup) = 1) made_calls"
    by (simp_all add: WrapperUsage_setup_def made_calls_def fits_def expectation_defs)
  moreover have "list_all (\<lambda>c. length (filter (fits c) (WrapperUsage_setup @ rows)) = 1) cs"
    using assms(2,3) unfolding met_def list_all_iff by (simp add: later_filter del: filter_append)
  moreover have "list_all (\<lambda>c. length (filter (fits c) (WrapperUsage_setup @ rows)) = 1) made_calls"
    using calculation(2) unfolding list_all_iff by (simp add: setup_filter [OF assms(1)] del: filter_append)
  ultimately show ?thesis
    using assms(3) s r unfolding met_def by (auto simp: list_all_iff)
qed

definition made_world :: "socket \<Rightarrow> mock_world" where
  "made_world garbage = empty_mock_world\<lparr>next_obj := 2, wrappers := [0 \<mapsto>
     \<lparr>onSendCallback = Some 2, onRecvCallback = Some 1, onErrorCallback = Some 3, wsocket = garbage, wpoller = 1\<rparr>],
     mocked := made_calls\<rparr>"

lemma run_setup:
  assumes "mock_documented M" and "later_rows rows"
  shows "run_state (call_global (mock_Socket M (WrapperUsage_setup @ rows) garbage)
      (mock_Poller M (WrapperUsage_setup @ rows)) E js ''Wrapper'' [WrapperUsage_options]) empty_mock_world =
    (Inr (JWrapped 0), made_world garbage)"
  by (simp add: call_global_def Init_def call_native_with_def New_with_def New_construct_with_def arg_def Let_def
     WrapperUsage_options_def OnRecvCallback_def OnSendCallback_def OnErrorCallback_def Wrapper_new_with_def
     get_property_def mock_members run_simps setup_answer [OF assms] c_str_def run_new_addr put_wrapper_def
     made_world_def made_calls_def empty_mock_world_def numeral_eq_Suc)

lemma usage_passes:
  assumes doc: "mock_documented M" and rows: "later_rows rows"
    and body: "\<exists>w cs. run_state (body (\<lambda>name argv. call_method_with (mock_Socket M (WrapperUsage_setup @ rows) garbage)
        (mock_Poller M (WrapperUsage_setup @ rows)) E (test_functions M (WrapperUsage_setup @ rows)) name 0 argv))
        (made_world garbage) = (Inr True, w) \<and>
      mocked w = made_calls @ cs \<and> later_calls cs \<and> met rows cs"
  shows "WrapperUsage_test M E garbage rows body"
proof -
  obtain w cs where w: "run_state (body (\<lambda>name argv. call_method_with (mock_Socket M (WrapperUsage_setup @ rows) garbage)
        (mock_Poller M (WrapperUsage_setup @ rows)) E (test_functions M (WrapperUsage_setup @ rows)) name 0 argv))
        (made_world garbage) = (Inr True, w)"
    "mocked w = made_calls @ cs" "later_calls cs" "met rows cs" using body by blast
  from documentedD(2) [OF doc met_setup [OF rows w(3,4)]] w(1,2) show ?thesis
    by (simp add: WrapperUsage_test_def Let_def run_after run_setup [OF doc rows])
qed

section \<open>Group WrapperInit\<close>

lemmas construct_run = WrapperInit_test_def call_global_def Init_def call_native_with_def New_with_def
  New_construct_with_def Wrapper_new_with_def arg_def get_property_def Noop_def run_simps met_def

lemma init_tests:
  assumes "mock_documented M"
  shows "ConstructShouldFailOnEmptyArguments M E garbage"
    "ConstructShouldFailOnMissingDevicePropery M E garbage"
    "ConstructShouldFailOnMissingOnRecvPropery M E garbage"
    "ConstructShouldFailOnMissingOnSendPropery M E garbage"
    "ConstructShouldFailOnMissingOnErrorPropery M E garbage"
    "ConstructShouldFailOnInvalidDevicePropery M E garbage"
    "ConstructShouldFailOnInvalidOnRecvPropery M E garbage"
    "ConstructShouldFailOnInvalidOnSendPropery M E garbage"
    "ConstructShouldFailOnInvalidOnErrorPropery M E garbage"
  by (simp_all add: ConstructShouldFailOnEmptyArguments_def ConstructShouldFailOnMissingDevicePropery_def
    ConstructShouldFailOnMissingOnRecvPropery_def ConstructShouldFailOnMissingOnSendPropery_def
    ConstructShouldFailOnMissingOnErrorPropery_def ConstructShouldFailOnInvalidDevicePropery_def
    ConstructShouldFailOnInvalidOnRecvPropery_def ConstructShouldFailOnInvalidOnSendPropery_def
    ConstructShouldFailOnInvalidOnErrorPropery_def Let_def construct_run documentedD(2) [OF assms] empty_mock_world_def)

lemma creation_test:
  assumes doc: "mock_documented M"
  shows "ConstructShouldFailOnSocketCreation M E garbage"
proof -
  let ?rows = "[andReturnBool False (withParameter ''device'' (Text ''rfm0'') (expectOneCall ''socket_constructor''))]"
  let ?c = "(''socket_constructor'', [(''device'', Text ''rfm0'')])"
  have f: "filter (fits ?c) ?rows = ?rows" by (simp add: fits_def expectation_defs)
  then have "answer M ?rows ?c = answer_of (hd ?rows)" using documentedD(1) [OF doc, of ?c ?rows] by simp
  then have "fst (answer M ?rows ?c) = Some 0" by (simp add: answer_of_def expectation_defs)
  moreover have "verdict M ?rows [?c]"
    by (rule documentedD(2) [OF doc]) (use f in \<open>simp add: met_def\<close>, simp add: expectation_defs fits_def)
  ultimately show ?thesis
    by (simp add: ConstructShouldFailOnSocketCreation_def Let_def construct_run mock_Socket_def mock_Socket_new_def
      returnBoolValueOrDefault_def c_str_def empty_mock_world_def)
qed

section \<open>Group WrapperUsage\<close>

lemmas method_run = call_method_with_def Init_def call_native_with_def AddMembership_with_def DropMembership_with_def
  Receive_with_def Send_with_def PauseSending_with_def ResumeSending_with_def ParseMembershipArguments_def
  mock_members run_simps run_unwrap made_world_def empty_mock_world_def arg_def ETHER_ADDR_LEN_def

lemma argument_tests:
  assumes doc: "mock_documented M"
  shows "AddMembershipShouldFailOnEmptyArguments M E garbage"
    "AddMembershipShouldFailOnNoAddressOrNonTypeArguments M E garbage"
    "AddMembershipShouldFailOnToShortAddressArgument M E garbage"
    "DropMembershipShouldFailOnEmptyArguments M E garbage"
    "DropMembershipShouldFailOnNoAddressOrNonTypeArguments M E garbage"
    "DropMembershipShouldFailOnToShortAddressArgument M E garbage"
    "ReceiveShouldFailWithNoArguments M E garbage"
    "ReceiveShouldFailWithNotCallbackArgument M E garbage"
    "SendShouldFailWithNoArguments M E garbage"
    "SendShouldFailWithNotBufferMessageArgument M E garbage"
    "SendShouldFailWithNotBufferAddressArgument M E garbage"
    "SendShouldFailWithAddressArgumentInvalidSize M E garbage"
    "SendShouldFailWithNotFunctionCallbackArgument M E garbage"
  unfolding AddMembershipShouldFailOnEmptyArguments_def AddMembershipShouldFailOnNoAddressOrNonTypeArguments_def
    AddMembershipShouldFailOnToShortAddressArgument_def DropMembershipShouldFailOnEmptyArguments_def
    DropMembershipShouldFailOnNoAddressOrNonTypeArguments_def DropMembershipShouldFailOnToShortAddressArgument_def
    ReceiveShouldFailWithNoArguments_def ReceiveShouldFailWithNotCallbackArgument_def
    SendShouldFailWithNoArguments_def SendShouldFailWithNotBufferMessageArgument_def
    SendShouldFailWithNotBufferAddressArgument_def SendShouldFailWithAddressArgumentInvalidSize_def
    SendShouldFailWithNotFunctionCallbackArgument_def
  by (rule usage_passes [OF doc], simp, simp add: method_run met_def)+

lemmas mock_rows = later_answer answer_of_def made_names_def fits_def expectation_defs met_def

lemma membership_tests:
  assumes doc: "mock_documented M"
  shows "AddMembershipShouldFailOnSocketCallFailWithAddress M E garbage"
    "AddMembershipShouldSucceddWithAddress M E garbage"
    "AddMembershipShouldFailOnSocketCallFailWithType M E garbage"
    "AddMembershipShouldSucceddWithType M E garbage"
    "AddMembershipShouldFailWithTypeOutOfRange M E garbage"
    "DropMembershipShouldFailOnSocketCallFailWithAddress M E garbage"
    "DropMembershipShouldSucceddWithAddress M E garbage"
    "DropMembershipShouldFailOnSocketCallFailWithType M E garbage"
    "DropMembershipShouldSucceddWithType M E garbage"
    "DropMembershipShouldFailWithTypeOutOfRange M E garbage"
  unfolding AddMembershipShouldFailOnSocketCallFailWithAddress_def AddMembershipShouldSucceddWithAddress_def
    AddMembershipShouldFailOnSocketCallFailWithType_def AddMembershipShouldSucceddWithType_def
    AddMembershipShouldFailWithTypeOutOfRange_def DropMembershipShouldFailOnSocketCallFailWithAddress_def
    DropMembershipShouldSucceddWithAddress_def DropMembershipShouldFailOnSocketCallFailWithType_def
    DropMembershipShouldSucceddWithType_def DropMembershipShouldFailWithTypeOutOfRange_def
  by (rule usage_passes [OF doc], simp add: expectation_defs made_names_def,
    simp add: method_run later_answer [OF doc] mock_rows test_group_address_def)+

lemma event_tests:
  assumes doc: "mock_documented M"
  shows "PauseSendingShouldCallPollersSetEvent M E garbage" "ResumeSendingShouldCallPollersSetEvent M E garbage"
  unfolding PauseSendingShouldCallPollersSetEvent_def ResumeSendingShouldCallPollersSetEvent_def
  by (rule usage_passes [OF doc], simp add: expectation_defs made_names_def,
    simp add: method_run mock_rows or.commute)+

lemma send_tests:
  assumes doc: "mock_documented M"
  shows "SendShouldFailWhenSocketSendMessageFail M E garbage" "SendShouldCallCallbackWhenSendMessageSuccedd M E garbage"
  unfolding SendShouldFailWhenSocketSendMessageFail_def SendShouldCallCallbackWhenSendMessageSuccedd_def
  by (rule usage_passes [OF doc], simp add: expectation_defs made_names_def,
    simp add: method_run later_answer [OF doc] mock_rows test_group_address_def hello_world_def Noop_def
      test_functions_def CallbackForSend_def call_js_def)+

lemma receive_fail_test:
  assumes doc: "mock_documented M" and alloc: "\<And>h n. os_alloc E h n"
  shows "ReceiveShouldFailWhenSocketReceiveMessageFail M E garbage"
  unfolding ReceiveShouldFailWhenSocketReceiveMessageFail_def
  by (rule usage_passes [OF doc], simp add: expectation_defs made_names_def,
    simp add: method_run later_answer [OF doc] mock_rows Noop_def Receive_buffers_def alloc numeral_eq_Suc)

lemma run_Receive_buffers:
  assumes "\<And>h n. os_alloc E h n"
  obtains t xs ys zs where "run_state (Receive_buffers E) (w :: 'a world_scheme) =
      (Inr (Ptr (next_blk w) 0, Ptr (Suc (next_blk w)) 0, Ptr (Suc (Suc (next_blk w))) 0),
       w\<lparr>trace := t, heap := (heap w)(next_blk w \<mapsto> xs, Suc (next_blk w) \<mapsto> ys, Suc (Suc (next_blk w)) \<mapsto> zs),
         next_blk := Suc (Suc (Suc (next_blk w)))\<rparr>)"
    "length xs = 6" "length ys = 6" "length zs = 2048"
  by (rule that, simp (no_asm) add: Receive_buffers_def run_simps assms ETHER_ADDR_LEN_def MAX_RECEIVE_BUFFER_SIZE_def,
    (rule length_indet)+)

lemma run_mock_receive_message:
  assumes "answer M rows (''receive_message'', [(''source_address'', Output), (''destination_address'', Output),
      (''buffer'', Output), (''buffer_size'', Signed sz)]) = (Some n, out)" and "n \<noteq> -1"
    and "heap w a = Some xs" "length (out ''source_address'') \<le> length xs"
    and "heap w b = Some ys" "length (out ''destination_address'') \<le> length ys"
    and "heap w c = Some zs" "length (out ''buffer'') \<le> length zs" and "distinct [a, b, c]"
  shows "run_state (mock_receive_message M rows s (Ptr a 0) (Ptr b 0) (Ptr c 0) sz) w =
    (Inr n, w\<lparr>mocked := mocked w @ [(''receive_message'', [(''source_address'', Output), (''destination_address'', Output),
      (''buffer'', Output), (''buffer_size'', Signed sz)])],
      heap := (heap w)(a \<mapsto> overwrite xs (out ''source_address''), b \<mapsto> overwrite ys (out ''destination_address''),
        c \<mapsto> overwrite zs (out ''buffer''))\<rparr>)"
  using assms
  by (simp add: mock_receive_message_def run_after run_actualCall run_store_fit run_give returnIntValueOrDefault_def)

lemma hello_copied:
  assumes "length g = 2048" "length g' = 11"
  shows "overwrite g' (overwrite g hello_world) = hello_world"
  using assms by (simp add: overwrite_def hello_world_def)

lemma run_realloc_moves:
  assumes "\<And>h n. os_alloc E h n" and "heap w b = Some bs" and "n \<noteq> 0"
  shows "\<exists>t. run_state (realloc E (Ptr b 0) n) w = (Inr (Ptr (next_blk w) 0), w\<lparr>trace := t,
     heap := (heap w)(b := None, next_blk w \<mapsto> overwrite (indet E (trace w) (unat n)) bs),
     next_blk := Suc (next_blk w)\<rparr>)"
  using assms by (auto simp: realloc_def)

text \<open>The callback of the test, on three buffers\<close>

lemma run_CallbackForReceive:
  assumes "mem_load (heap w) p 6 = Inr s" "mem_load (heap w) q 6 = Inr d" "mem_load (heap w) r n = Inr m"
  shows "run_state (call_js (test_functions M rows) 4 [JBuffer p 6, JBuffer q 6, JBuffer r n]) w =
    (Inr (), w\<lparr>trace := trace w @ [Ev_js 4 [JBuffer p 6, JBuffer q 6, JBuffer r n]],
      mocked := mocked w @ [(''CallbackFromReceive'', [(''source_address'', Memory s),
        (''destination_address'', Memory d), (''message'', Memory m)])]\<rparr>)"
  using assms
  by (simp add: call_js_def run_after run_log test_functions_def CallbackForReceive_def buffer_parameter_def arg_def
    run_memory_buffer run_actualCall run_give)

lemma receive_test:
  assumes doc: "mock_documented M" and alloc: "\<And>h n. os_alloc E h n" and nan: "\<And>h p k. nan_new_buffer E h p k"
  shows "ReceiveShouldCallCallbackWhenSocketReceiveMessageSuccedd M E garbage"
proof -
  let ?s = "[0xde, 0xad, 0, 0, 0x12, 0x34] :: byte list" and ?d = "[0xde, 0xad, 0, 0, 0x12, 0x31] :: byte list"
  let ?rows = "[andReturnValue (of_nat (length hello_world)) (ignoreOtherParameters
         (withOutputParameterReturning ''buffer'' hello_world
         (withOutputParameterReturning ''destination_address'' ?d
         (withOutputParameterReturning ''source_address'' ?s (expectOneCall ''receive_message''))))),
        withParameter ''message'' (Memory hello_world)
         (withParameter ''destination_address'' (Memory ?d)
         (withParameter ''source_address'' (Memory ?s) (expectOneCall ''CallbackFromReceive'')))]"
  define R where "R = WrapperUsage_setup @ ?rows"
  let ?rc = "(''receive_message'', [(''source_address'', Output), (''destination_address'', Output),
      (''buffer'', Output), (''buffer_size'', Signed 2048)])"
  let ?cc = "(''CallbackFromReceive'', [(''source_address'', Memory ?s), (''destination_address'', Memory ?d),
      (''message'', Memory hello_world)])"
  have rf: "filter (fits ?rc) ?rows = [?rows ! 0]" by (simp add: fits_def expectation_defs)
  have cf: "filter (fits ?cc) ?rows = [?rows ! 1]" by (simp add: fits_def expectation_defs)
  have len: "length hello_world = 11" by (simp add: hello_world_def)
  have "answer M R ?rc = answer_of (?rows ! 0)"
    using later_answer [OF doc, of ?rc ?rows] rf by (simp add: made_names_def R_def)
  then obtain out where ans: "answer M R ?rc = (Some 11, out)" and
    out: "out ''source_address'' = ?s" "out ''destination_address'' = ?d" "out ''buffer'' = hello_world"
    by (simp add: answer_of_def) (simp add: expectation_defs len)
  let ?w = "made_world garbage"
  obtain t xs ys zs where bufs: "run_state (Receive_buffers E) ?w = (Inr (Ptr 0 0, Ptr (Suc 0) 0, Ptr (Suc (Suc 0)) 0),
      ?w\<lparr>trace := t, heap := (heap ?w)(0 \<mapsto> xs, Suc 0 \<mapsto> ys, Suc (Suc 0) \<mapsto> zs), next_blk := Suc (Suc (Suc 0))\<rparr>)"
    "length xs = 6" "length ys = 6" "length zs = 2048"
    by (rule run_Receive_buffers [OF alloc, of ?w]) (simp add: made_world_def empty_mock_world_def)
  let ?w1 = "?w\<lparr>trace := t, heap := (heap ?w)(0 \<mapsto> xs, Suc 0 \<mapsto> ys, Suc (Suc 0) \<mapsto> zs), next_blk := Suc (Suc (Suc 0))\<rparr>"
  let ?v = "?w1\<lparr>mocked := mocked ?w1 @ [?rc], heap := (heap ?w1)(0 \<mapsto> overwrite xs ?s, Suc 0 \<mapsto> overwrite ys ?d,
      Suc (Suc 0) \<mapsto> overwrite zs hello_world)\<rparr>"
  have got: "run_state (mock_receive_message M R garbage (Ptr 0 0) (Ptr (Suc 0) 0) (Ptr (Suc (Suc 0)) 0) MAX_RECEIVE_BUFFER_SIZE) ?w1 =
      (Inr 11, ?v)"
    using run_mock_receive_message [OF ans, of ?w1 0 xs "Suc 0" ys "Suc (Suc 0)" zs garbage, unfolded out] bufs(2-4)
    unfolding MAX_RECEIVE_BUFFER_SIZE_def by (simp add: len)
  then obtain w2 where got: "run_state (mock_receive_message M R garbage (Ptr 0 0) (Ptr (Suc 0) 0) (Ptr (Suc (Suc 0)) 0) MAX_RECEIVE_BUFFER_SIZE) ?w1 =
      (Inr 11, w2)" and w2: "heap w2 0 = Some (overwrite xs ?s)" "heap w2 (Suc 0) = Some (overwrite ys ?d)"
      "heap w2 (Suc (Suc 0)) = Some (overwrite zs hello_world)" "next_blk w2 = Suc (Suc (Suc 0))" "mocked w2 = made_calls @ [?rc]"
    by (simp add: made_world_def)
  have sd: "overwrite xs ?s = ?s" "overwrite ys ?d = ?d" using bufs(2,3) by (simp_all add: overwrite_def)
  let ?n = "scast (11 :: i32) :: u64"
  have n: "?n \<noteq> 0" "unat ?n = 11" by simp_all
  from run_realloc_moves [OF alloc w2(3) n(1)] obtain w3 where re:
    "run_state (realloc E (Ptr (Suc (Suc 0)) 0) ?n) w2 = (Inr (Ptr (Suc (Suc (Suc 0))) 0), w3)"
    "heap w3 = (heap w2)(Suc (Suc 0) := None, Suc (Suc (Suc 0)) \<mapsto> hello_world)" "mocked w3 = mocked w2"
    unfolding n(2) hello_copied [OF bufs(4) length_indet] w2(4) by auto
  let ?w4 = "w3\<lparr>trace := trace w3 @ [Ev_new_buffer (Ptr 0 0) 6 True, Ev_new_buffer (Ptr (Suc 0) 0) 6 True, Ev_new_buffer (Ptr (Suc (Suc (Suc 0))) 0) 11 True]\<rparr>"
  have loads: "mem_load (heap ?w4) (Ptr 0 0) 6 = Inr ?s" "mem_load (heap ?w4) (Ptr (Suc 0) 0) 6 = Inr ?d"
    "mem_load (heap ?w4) (Ptr (Suc (Suc (Suc 0))) 0) 11 = Inr hello_world"
    by (simp_all add: re(2) w2 sd len)
  let ?js = "test_functions M R"
  have "run_state (Receive_with (mock_Socket M R garbage) E ?js 0 [JFunction 4]) ?w =
      run_state (after (call_js ?js 4 [JBuffer (Ptr 0 0) 6, JBuffer (Ptr (Suc 0) 0) 6, JBuffer (Ptr (Suc (Suc (Suc 0))) 0) 11]) (\<lambda>_. give JUndefined)) ?w4"
  proof -
    have W: "wrappers ?w 0 = Some \<lparr>onSendCallback = Some 2, onRecvCallback = Some 1, onErrorCallback = Some 3,
        wsocket = garbage, wpoller = 1\<rparr>" by (simp add: made_world_def)
    have "unat (11 :: i32) = 11" by simp
    note deliver = run_Receive_deliver [OF re(1) nan refl, of ?js 4 "Ptr 0 0" "Ptr (Suc 0) 0", unfolded this]
    show ?thesis
      unfolding Receive_with_def
      by (simp add: run_after run_unwrap W arg_def bufs(1) mock_Socket_def run_catch_std got deliver)
  qed
  with run_CallbackForReceive [OF loads, of M R] re(3) w2(5) have
    run: "\<exists>w. run_state (Receive_with (mock_Socket M R garbage) E ?js 0 [JFunction 4]) ?w = (Inr JUndefined, w) \<and>
      mocked w = made_calls @ [?rc, ?cc]"
    by (simp add: run_after run_give)
  have "met ?rows [?rc, ?cc]"
    using rf cf by (simp add: met_def) (simp add: fits_def expectation_defs)
  with run show ?thesis
    unfolding ReceiveShouldCallCallbackWhenSocketReceiveMessageSuccedd_def Let_def R_def
    by (intro usage_passes [OF doc], simp add: expectation_defs made_names_def)
       (auto simp: call_method_with_def Init_def call_native_with_def run_has_not_caught made_names_def
         intro!: exI [of _ "[?rc, ?cc]"])
qed

section \<open>The tests pass\<close>

text \<open>
  C37. Every test of \<open>cc_tests/wrapper.cc\<close> passes on the model, when memory can be had and
  \<open>Nan::NewBuffer\<close> succeeds: incomplete options, wrong arguments and every failure of the classes below
  are errors that JavaScript sees; a call with good arguments hands \<open>Socket\<close> and \<open>UvPoller\<close> exactly the
  type, the addresses, the bytes and the events that the test expects, and the callbacks get the bytes
  and the count that \<open>Socket\<close> returned.
\<close>

theorem wrapper_tests_pass:
  assumes "mock_documented M" and "\<And>h n. os_alloc E h n" and "\<And>h p k. nan_new_buffer E h p k"
  shows "ConstructShouldFailOnEmptyArguments M E garbage \<and>
    ConstructShouldFailOnMissingDevicePropery M E garbage \<and>
    ConstructShouldFailOnMissingOnRecvPropery M E garbage \<and>
    ConstructShouldFailOnMissingOnSendPropery M E garbage \<and>
    ConstructShouldFailOnMissingOnErrorPropery M E garbage \<and>
    ConstructShouldFailOnInvalidDevicePropery M E garbage \<and>
    ConstructShouldFailOnInvalidOnRecvPropery M E garbage \<and>
    ConstructShouldFailOnInvalidOnSendPropery M E garbage \<and>
    ConstructShouldFailOnInvalidOnErrorPropery M E garbage \<and>
    ConstructShouldFailOnSocketCreation M E garbage \<and>
    AddMembershipShouldFailOnEmptyArguments M E garbage \<and>
    AddMembershipShouldFailOnNoAddressOrNonTypeArguments M E garbage \<and>
    AddMembershipShouldFailOnToShortAddressArgument M E garbage \<and>
    AddMembershipShouldFailOnSocketCallFailWithAddress M E garbage \<and>
    AddMembershipShouldSucceddWithAddress M E garbage \<and>
    AddMembershipShouldFailOnSocketCallFailWithType M E garbage \<and>
    AddMembershipShouldSucceddWithType M E garbage \<and>
    AddMembershipShouldFailWithTypeOutOfRange M E garbage \<and>
    DropMembershipShouldFailOnEmptyArguments M E garbage \<and>
    DropMembershipShouldFailOnNoAddressOrNonTypeArguments M E garbage \<and>
    DropMembershipShouldFailOnToShortAddressArgument M E garbage \<and>
    DropMembershipShouldFailOnSocketCallFailWithAddress M E garbage \<and>
    DropMembershipShouldSucceddWithAddress M E garbage \<and>
    DropMembershipShouldFailOnSocketCallFailWithType M E garbage \<and>
    DropMembershipShouldSucceddWithType M E garbage \<and>
    DropMembershipShouldFailWithTypeOutOfRange M E garbage \<and>
    ReceiveShouldFailWithNoArguments M E garbage \<and>
    ReceiveShouldFailWithNotCallbackArgument M E garbage \<and>
    ReceiveShouldFailWhenSocketReceiveMessageFail M E garbage \<and>
    ReceiveShouldCallCallbackWhenSocketReceiveMessageSuccedd M E garbage \<and>
    SendShouldFailWithNoArguments M E garbage \<and>
    SendShouldFailWithNotBufferMessageArgument M E garbage \<and>
    SendShouldFailWithNotBufferAddressArgument M E garbage \<and>
    SendShouldFailWithAddressArgumentInvalidSize M E garbage \<and>
    SendShouldFailWithNotFunctionCallbackArgument M E garbage \<and>
    SendShouldFailWhenSocketSendMessageFail M E garbage \<and>
    SendShouldCallCallbackWhenSendMessageSuccedd M E garbage \<and>
    PauseSendingShouldCallPollersSetEvent M E garbage \<and>
    ResumeSendingShouldCallPollersSetEvent M E garbage"
  by (intro conjI init_tests [OF assms(1)] creation_test [OF assms(1)] argument_tests [OF assms(1)]
    membership_tests [OF assms(1)] event_tests [OF assms(1)] send_tests [OF assms(1)]
    receive_fail_test [OF assms(1,2)] receive_test [OF assms])

theorem wrapper_tests_pass_witness:
  "ReceiveShouldCallCallbackWhenSocketReceiveMessageSuccedd sample_support sample_env sample_socket \<and>
   SendShouldCallCallbackWhenSendMessageSuccedd sample_support sample_env sample_socket"
  using wrapper_tests_pass [OF sample_support_documented, of sample_env sample_socket] by (simp add: sample_env_def)

end
