(* ===== verification/Test_Runner.thy ===== *)
theory Test_Runner
  imports Env
begin

text \<open>
  The entry point of the test modules that Node loads (\<open>cc_tests/poller.cc\<close>; \<open>cc_tests/wrapper.cc\<close> ends
  with the same text): the arguments are copied into an array of C strings for the test runner.
  The runner of CppUTest is the parameter \<open>run_all\<close>, the conversion of a value to a string is
  \<open>to_string\<close>.  \<open>Run_overflows\<close> shows that the first argument is written one byte past its array.
\<close>

definition utf8 :: "string \<Rightarrow> byte list" where
  "utf8 s = map of_char s"

text \<open>\<open>Utf8Length\<close> does not count the terminator.  One turn of the loop: \<open>new char[arg_len]\<close>, then \<open>WriteUtf8\<close>, which writes the terminator too.\<close>

definition copy_argument :: "env \<Rightarrow> (js_value \<Rightarrow> string) \<Rightarrow> js_value \<Rightarrow> ('a world_scheme, ptr) prog" where
  "copy_argument E to_string value =
     (let str = utf8 (to_string value); arg_len = length str in
      after (new_bytes E (of_nat arg_len)) (\<lambda>p.
      after (store_bytes p (str @ [0])) (\<lambda>_. give p)))"

fun copy_arguments :: "env \<Rightarrow> (js_value \<Rightarrow> string) \<Rightarrow> js_value list \<Rightarrow> ('a world_scheme, ptr list) prog" where
  "copy_arguments E to_string [] = give []"
| "copy_arguments E to_string (value # values) =
     after (copy_argument E to_string value) (\<lambda>p.
     after (copy_arguments E to_string values) (\<lambda>ps. give (p # ps)))"

definition Run ::
  "env \<Rightarrow> (js_value \<Rightarrow> string) \<Rightarrow> (ptr list \<Rightarrow> ('a world_scheme, i32) prog) \<Rightarrow> js_value list \<Rightarrow>
   ('a world_scheme, js_value) prog" where
  "Run E to_string run_all info =
     after (new_bytes E (of_nat (8 * length info))) (\<lambda>array.
     after (copy_arguments E to_string info) (\<lambda>argv.
     after (run_all argv) (\<lambda>rc.
     after (each free argv) (\<lambda>_.
     after (free array) (\<lambda>_. give (js_int (sint rc)))))))"

lemma copy_overflows:
  assumes "wf_mem w" and "\<And>h n. os_alloc E h n" and "length (to_string v) < 2 ^ 64"
  shows "fst (run_state (copy_argument E to_string v) w) = Inl (Undefined Out_of_bounds)"
  using assms by (simp add: copy_argument_def utf8_def Let_def run_simps run_new_bytes new_bytes_def unsigned_of_nat take_bit_nat_eq_self)

lemma Run_overflows:
  assumes mem: "wf_mem w" and alloc: "\<And>h n. os_alloc E h n" and len: "\<And>v. length (to_string v) < 2 ^ 64"
  shows "fst (run_state (Run E to_string run_all (v # vs)) w) = Inl (Undefined Out_of_bounds)"
proof -
  obtain p w1 where w1: "run_state (new_bytes E (of_nat (8 * length (v # vs)))) w = (Inr p, w1)" "wf_mem w1"
    using mem alloc by (simp add: run_new_bytes wf_mem_def)
  obtain r w2 where r: "run_state (copy_argument E to_string v) w1 = (r, w2)" by (rule prod.exhaust)
  have "r = Inl (Undefined Out_of_bounds)" using copy_overflows [where v = v and to_string = to_string, OF w1(2) alloc len] unfolding r by simp
  with w1(1) r show ?thesis by (simp add: Run_def run_after)
qed

text \<open>Without arguments the result of the runner is the result of \<open>Run\<close>.\<close>

lemma Run_no_arguments:
  assumes "wf_mem w" and "\<And>h n. os_alloc E h n" and "\<And>v. run_state (run_all []) v = (Inr rc, v)"
  shows "\<exists>w'. run_state (Run E to_string run_all []) w = (Inr (js_int (sint rc)), w') \<and> heap w' = heap w"
proof -
  let ?w1 = "w\<lparr>trace := trace w @ [Ev_alloc 0 (Ptr (next_blk w) 0)],
     heap := (heap w)(next_blk w \<mapsto> indet E (trace w) 0), next_blk := Suc (next_blk w)\<rparr>"
  have new: "run_state (new_bytes E 0) w = (Inr (Ptr (next_blk w) 0), ?w1)"
    using run_new_bytes [of E w 0] assms(2) by simp
  have "heap w (next_blk w) = None" using assms(1) by simp
  then have "heap ?w1 (next_blk w) \<noteq> None" "(heap ?w1)(next_blk w := None) = heap w"
    by (simp_all add: map_upd_remove_fresh)
  with new assms(3) show ?thesis by (simp add: Run_def run_after run_give run_free)
qed

end
