(* ===== verification/Spec2Isabelle.thy ===== *)
theory Spec2Isabelle
  imports Js_Socket_Traffic Js_Socket_Closed Wrapper_Safety Socket_Tests_Facts Wrapper_Tests_Facts Test_Runner
begin

text \<open>
  Verification development for packet-socket, a Node addon that sends and receives raw Ethernet
  frames.  The program is three C++ classes and a thin JavaScript layer:

  \<^item> \<open>Socket\<close> (\<open>src/socket.cc\<close>, \<open>include/socket.hh\<close>): a raw packet socket bound to one interface.  It
    builds and parses Ethernet frames and manages group memberships.
  \<^item> \<open>Poller\<close> (\<open>src/poller.cc\<close>, \<open>include/poller.hh\<close>): watches the descriptor through libuv and calls
    back; \<open>NullPoller\<close> stands in after \<open>Close\<close>.
  \<^item> \<open>Wrapper\<close> (\<open>src/wrapper.cc\<close>, \<open>include/wrapper.hh\<close>): the Node object.  It owns one \<open>Socket\<close> and one
    \<open>Poller\<close>, checks the arguments of JavaScript calls, and forwards readiness to three JavaScript
    functions.
  \<^item> \<open>socket.js\<close>: the event emitter users see, with the queue of send requests and the
    conversion of addresses.

  \<^bold>\<open>How the model is built.\<close>  An operation is a state transformer that ends with a value or an
  error (\<open>Prelude\<close>: \<open>prog\<close>, \<open>after\<close>, \<open>throw\<close>, \<open>catch_std\<close>, \<open>catch_all\<close>).  C++ exceptions and
  JavaScript errors are values of \<open>error\<close>; so is undefined behaviour, which no \<open>catch\<close> intercepts.
  The state is extended component by component: \<open>world\<close> (\<open>Env\<close>) holds the heap of bytes and the
  history of calls to the environment, \<open>poll_world\<close> (\<open>Poller\<close>) adds the poller objects and libuv
  handles by address, \<open>wrap_world\<close> (\<open>Wrapper\<close>) the Node objects.  Kernel, allocator, libuv and Nan
  are the parameter \<open>env\<close>: each call of the kernel, the allocator and \<open>NewBuffer\<close> may answer anything that
  depends on all calls before it, and is recorded in the history with its arguments and answer.  The
  calls of libuv are recorded without an answer, since the program ignores the codes they return;
  \<open>watching\<close> is what libuv is asked to watch, and what libuv reports, errors included, are the steps of
  the event loop.  Theorems that need documented
  behaviour name it: \<open>fresh_fds\<close>, \<open>sendto_documented\<close>, \<open>recvmsg_documented\<close> (\<open>Env\<close>).  Calling a
  JavaScript function is the parameter \<open>js\<close>, which may run any program on the world, so handlers can
  call the object back.  Integers have their C width: \<open>int\<close> is a 32-bit word read signed, \<open>size_t\<close>
  and \<open>ssize_t\<close> 64-bit words, and every conversion of the source is a cast in the model.

  \<^bold>\<open>The theories.\<close>
  \<^item> \<open>Prelude\<close>: programs, the composition rules \<open>keeps\<close> (frame conditions), \<open>upholds\<close> (invariants) and
    \<open>raises\<close> (the errors a program can end with), memory regions, byte order, widening and narrowing of integers.
  \<^item> \<open>Env\<close>: pointers, JavaScript values, socket structures, the recorded calls, memory, and the
    concrete environment \<open>sample_env\<close> of the witnesses.
  \<^item> \<open>Socket\<close>, \<open>Socket_Facts\<close>: the class; who owns the descriptor when the constructor fails, the
    layout of the frame against an abstract \<open>ether_frame\<close>, results and bounds of sending and
    receiving, their round trip, memberships as a multiset.
  \<^item> \<open>Poller\<close>, \<open>Poller_Facts\<close>: the classes; the invariant that ties pollers to handles, reachability,
    the contract of the abstract class as locale \<open>poller_contract\<close> (and \<open>inert_poller\<close>) with its
    interpretations on both classes and on the virtual call, the dispatch of io events.
  \<^item> \<open>Wrapper\<close>, \<open>Wrapper_Facts\<close>: the Node object; the invariant \<open>wrap_inv\<close> that every method,
    callback and destructor keeps, and the event loop as the step relation \<open>wrap_step\<close>.  Which bodies
    \<open>Wrapper\<close> calls is decided when a target is linked (\<open>binding.gyp\<close>): a method \<open>f_with\<close> takes the
    classes \<open>Socket\<close> and \<open>Poller\<close> as records of their members (\<open>socket_class\<close>, \<open>poller_class\<close>), and \<open>f\<close> is
    the method of the addon, linked with the classes of \<open>src\<close>.
  \<^item> \<open>Wrapper_Methods\<close>: each method's checks and effects, ownership of the received buffers, the
    inputs that leave C++, and the refinement of a small state machine.
  \<^item> \<open>Js_Socket\<close>: \<open>socket.js\<close>.  \<open>js_world\<close> adds the \<open>Socket\<close> objects with their queue and listeners,
    and the function objects made so far, each a \<open>closure\<close> that names the function expression and
    holds its scope.  Code of the user is the parameter \<open>user_code\<close>, any program on the world.  What
    the addon calls back is \<open>js_callbacks\<close>, what libuv's callbacks call is \<open>js_handlers\<close>; these take the
    place of the parameter \<open>js\<close> of \<open>Wrapper\<close>.
  \<^item> \<open>Js_Socket_Facts\<close>: the text of addresses is parsed back to the same bytes; the invariant \<open>js_inv\<close>
    that ties each socket to its Node object, its handlers and what libuv watches for; what the
    collector must keep (\<open>retained\<close>); the event loop with the calls of users as \<open>js_step\<close>.  The locale
    \<open>quiet_invariant\<close> of \<open>Wrapper_Facts\<close> (an invariant that calls of the kernel and the allocator do
    not touch) is interpreted there on \<open>js_inv\<close>, and on \<open>wrap_inv\<close> where it is declared; the locale
    \<open>js_invariant\<close> extends it with what new callbacks, \<open>Close\<close> and \<open>ResumeSending\<close> do, and gives every
    other method and handler of the socket.
  \<^item> \<open>Js_Socket_Methods\<close>: opening a socket, receiving a message, serving the queue, errors that libuv
    reports, and what happens when a callback throws or is missing.
  \<^item> \<open>Js_Socket_Closed\<close>: the queue of a closed socket.  A second instance of \<open>js_invariant\<close>, carried through
    \<open>js_step\<close>: no request ever leaves the queue once \<open>close\<close> has returned.
  \<^item> \<open>Js_Socket_Traffic\<close>: the program from end to end.  The rounds of libuv's loop on a writable
    descriptor (\<open>write_round\<close>) terminate, after as many rounds as the queue has requests and one more; the
    messages of a queue go through both programs and become the \<open>'message'\<close> events of another socket, each
    once and in order, when the kernel in between keeps the order of the frames (\<open>gives_in_order\<close>).
  \<^item> \<open>Mock_Support\<close>: what the unit tests use of the CppUMock library.  Expectations are built by the
    functions of the library; what it answers to a call and whether it is content at the end is a
    parameter, and its documented behaviour is the hypothesis \<open>mock_documented\<close>.
  \<^item> \<open>Socket_Tests\<close>, \<open>Socket_Tests_Facts\<close>: the 20 unit tests of \<open>cc_tests/socket.cc\<close>, with their mocks of
    the system calls as the environment, and the proof that the model passes them.
  \<^item> \<open>Mocks\<close>: the classes of \<open>cc_mocks\<close>, as instances of \<open>socket_class\<close> and \<open>poller_class\<close>.
  \<^item> \<open>Wrapper_Tests\<close>, \<open>Wrapper_Tests_Facts\<close>: the 39 unit tests of \<open>cc_tests/wrapper.cc\<close>, run on \<open>Wrapper\<close>
    linked with these classes, and the proof that the model passes them.
  \<^item> \<open>Wrapper_Safety\<close>: what a method of \<open>Wrapper\<close> can end with.  With an allocator that may refuse objects
    (\<open>allocating_Socket\<close>, \<open>allocating_Poller\<close>) no exception of C++ gets out of any method but \<open>Close\<close> (locale
    \<open>linked_classes\<close>), and with classes that can always make a \<open>NullPoller\<close>, those of the addon and of
    \<open>cc_mocks\<close>, out of none (locale \<open>silent_classes\<close>).  A call with sound arguments meets no undefined behaviour.
  \<^item> \<open>Test_Runner\<close>: the function \<open>Run\<close> that starts the tests from Node, and where it writes past an array.

  \<^bold>\<open>What is idealised.\<close>  Objects of the program get addresses that are never used again, and their
  allocation does not fail (that of byte buffers may) except in \<open>Wrapper_Safety\<close>, where it may.  An error of
  JavaScript that a handler of an event ends with ends the event, as it ends the process in Node by
  default; with an \<open>'uncaughtException'\<close> handler of the process \<open>UvPoller::io_event\<close> would go on to test
  \<open>UV_WRITABLE\<close>.  \<open>NewBuffer\<close> asks nothing of the block it is given; that a Buffer lies within a live block is
  \<open>sound_value\<close>.  A \<open>Wrapper\<close> holds its \<open>Socket\<close> by value, since
  nothing else points to it.  A sequence of reads in one member function that no call separates is
  one read.  An out-of-range conversion to an enumeration keeps the number.  Strings are their
  UTF-8 bytes.  Own properties of arrays, functions and Buffers are not modelled (\<open>New\<close> treats them as
  having none of the options).  No loop needs fuel; all operations are total, and a
  callback that calls back into the program is one call of the parameter.

  In \<open>socket.js\<close>, \<open>EventEmitter\<close> is \<open>on\<close> and \<open>emit\<close>; properties that users add to the object are not
  modelled; what an object with an \<open>indexOf\<close> and \<open>map\<close> of its own comes to as an address is a parameter
  (\<open>object_bytes\<close>), whose code has no effect of its own; an array is copied into a Buffer
  without reading accessors.  The texts of the errors that the engine throws are not those of any
  version; no code looks at them.  \<open>ToNumber\<close> of strings and objects is a parameter.  A function object
  made by the program is never used by users except through the addon.

  \<^bold>\<open>Not modelled.\<close>  Handle scopes; persistent handles beyond whether they are empty, and what they
  keep alive (\<open>retained\<close>); when the garbage collector runs (any time, in \<open>wrap_step\<close> and \<open>js_step\<close>, on
  what nothing retains).  The runner of CppUTest and its leak
  detection; \<open>main\<close> of \<open>cc_tests/socket.cc\<close>, which only starts it; the private members of the classes of
  \<open>cc_mocks\<close>, which have empty bodies and no caller.  Of the build files only which classes a target is
  linked with.
\<close>

end
